theory Spec2Isabelle
  imports Complex_Main "HOL-Library.While_Combinator"
begin

section \<open>Values shared by the three versions of the dashboard\<close>

text \<open>
  The repository holds three versions of the schedule generator of the dashboard:
  \<^verbatim>\<open>src/components/DashboardView.tsx\<close> (names without suffix below),
  \<^verbatim>\<open>src/unnamed/part_001\<close> (suffix \<open>_p1\<close>) and \<^verbatim>\<open>src/unnamed/part_002\<close>
  (suffix \<open>_p2\<close>). Times are minutes of the day. JavaScript numbers are modelled as
  \<open>int\<close>; where a computation can yield \<^verbatim>\<open>NaN\<close> the model uses \<open>int option\<close> with
  \<open>None\<close> for \<^verbatim>\<open>NaN\<close>. The focus goal is a whole number of hours, as the range slider
  of the setup view produces it.
\<close>

datatype item_type = focus | meeting | break | wellness | lunch | hobby | transition

text \<open>
  \<^verbatim>\<open>ScheduleItem\<close> of \<^verbatim>\<open>DashboardView.tsx\<close>. The source stores \<^verbatim>\<open>startTime\<close> as the
  \<^verbatim>\<open>HH:mm\<close> rendering of the cursor and puts the cursor itself into \<^verbatim>\<open>id\<close>; the model
  keeps the cursor value (a minute of the day) in \<open>startTime\<close> and leaves the two renderings
  out.
\<close>

record ScheduleItem =
  type :: item_type
  label :: string
  startTime :: int
  duration :: int
  color :: string

text \<open>
  An element of \<^verbatim>\<open>dayEvents\<close>: a calendar event of the active day after the
  \<^verbatim>\<open>filter\<close>/\<^verbatim>\<open>map\<close>/\<^verbatim>\<open>sort\<close> pipeline, with \<^verbatim>\<open>startMins\<close> and \<^verbatim>\<open>endMins\<close> computed.
\<close>

record DayEvent =
  summary :: string
  startMins :: int
  endMins :: int
  durationMinutes :: int

record ClockTime =
  hour :: string
  minute :: string
  period :: string

datatype js_error = TypeError

subsection \<open>parseInt\<close>

text \<open>
  \<^verbatim>\<open>parseInt(s)\<close> with no radix: leading white space is skipped, a sign is read, a
  \<^verbatim>\<open>0x\<close> prefix selects base 16, and the longest prefix of digits is the value; no digit
  gives \<^verbatim>\<open>NaN\<close>. It never throws. Strings are ASCII here, so white space is the ASCII
  white space, and the value is exact, as a double is for the digit strings of a clock.
\<close>

definition isWhiteSpace :: "char \<Rightarrow> bool" where
  "isWhiteSpace c = (of_char c \<in> {9::nat, 10, 11, 12, 13, 32})"

definition digitValue :: "nat \<Rightarrow> char \<Rightarrow> nat option" where
  "digitValue radix c =
     (let n = (of_char c :: nat);
          v = (if 48 \<le> n \<and> n \<le> 57 then Some (n - 48)
               else if 97 \<le> n \<and> n \<le> 122 then Some (n - 87)
               else if 65 \<le> n \<and> n \<le> 90 then Some (n - 55)
               else None)
      in case v of None \<Rightarrow> None | Some d \<Rightarrow> if d < radix then Some d else None)"

fun digitsPrefix :: "nat \<Rightarrow> string \<Rightarrow> nat list" where
  "digitsPrefix radix [] = []"
| "digitsPrefix radix (c # cs) =
     (case digitValue radix c of None \<Rightarrow> [] | Some d \<Rightarrow> d # digitsPrefix radix cs)"

definition digitsToNat :: "nat \<Rightarrow> nat list \<Rightarrow> nat" where
  "digitsToNat radix ds = foldl (\<lambda>acc d. acc * radix + d) 0 ds"

definition parseInt :: "string \<Rightarrow> int option" where
  "parseInt s =
     (let s1 = dropWhile isWhiteSpace s;
          negative = (s1 \<noteq> [] \<and> hd s1 = CHR ''-'');
          s2 = (if s1 \<noteq> [] \<and> (hd s1 = CHR ''-'' \<or> hd s1 = CHR ''+'') then tl s1 else s1);
          hex = (take 2 s2 = ''0x'' \<or> take 2 s2 = ''0X'');
          radix = (if hex then 16 else 10);
          s3 = (if hex then drop 2 s2 else s2);
          ds = digitsPrefix radix s3
      in if ds = [] then None
         else Some ((if negative then - 1 else 1) * int (digitsToNat radix ds)))"

subsection \<open>Property lookup on an object literal\<close>

text \<open>
  \<^verbatim>\<open>peakRanges[peakWindow]\<close> reads a property of an object literal. A name the literal
  does not define is looked up on \<^verbatim>\<open>Object.prototype\<close>, whose standard members are all
  truthy (functions, and the prototype object itself for \<^verbatim>\<open>__proto__\<close>) and are not
  arrays; every other name gives \<^verbatim>\<open>undefined\<close>.
\<close>

definition objectPrototypeKeys :: "string list" where
  "objectPrototypeKeys =
     [''constructor'', ''hasOwnProperty'', ''isPrototypeOf'', ''propertyIsEnumerable'',
      ''toLocaleString'', ''toString'', ''valueOf'', ''__proto__'',
      ''__defineGetter__'', ''__defineSetter__'', ''__lookupGetter__'', ''__lookupSetter__'']"

datatype 'a property = Own 'a | Inherited | Undefined

definition getProperty :: "(string \<times> 'a) list \<Rightarrow> string \<Rightarrow> 'a property" where
  "getProperty literal k =
     (case map_of literal k of
        Some v \<Rightarrow> Own v
      | None \<Rightarrow> if k \<in> set objectPrototypeKeys then Inherited else Undefined)"

section \<open>The generator of DashboardView.tsx\<close>

subsection \<open>Time arithmetic\<close>

definition toMinutes :: "string \<Rightarrow> string \<Rightarrow> string \<Rightarrow> int option" where
  "toMinutes h m p =
     (let hours = parseInt h;
          hours = (if p = ''PM'' \<and> hours \<noteq> Some 12 then map_option (\<lambda>x. x + 12) hours else hours);
          hours = (if p = ''AM'' \<and> hours = Some 12 then Some 0 else hours)
      in case (hours, parseInt m) of
           (Some hh, Some mm) \<Rightarrow> Some (hh * 60 + mm)
         | _ \<Rightarrow> None)"

subsection \<open>Peak window\<close>

definition peakRanges :: "(string \<times> (int \<times> int)) list" where
  "peakRanges =
     [(''Morning'', (480, 720)), (''Afternoon'', (720, 1020)),
      (''Evening'', (1020, 1260)), (''Late Night'', (1260, 1440))]"

text \<open>
  \<^verbatim>\<open>const [peakStart, peakEnd] = peakRanges[peakWindow] || [480, 720]\<close>: destructuring
  an inherited member, which is not iterable, throws a \<^verbatim>\<open>TypeError\<close>.
\<close>

definition peakRange :: "string \<Rightarrow> js_error + (int \<times> int)" where
  "peakRange peakWindow =
     (case getProperty peakRanges peakWindow of
        Own r \<Rightarrow> Inr r
      | Inherited \<Rightarrow> Inl TypeError
      | Undefined \<Rightarrow> Inr (480, 720))"

subsection \<open>The sweep\<close>

record sweep_state =
  items :: "ScheduleItem list"
  currentTime :: int
  focusRemaining :: int
  lastType :: "item_type option"
  hasLongBreakAnchor :: bool
  dayEvents :: "DayEvent list"
  colorIdx :: nat

definition eventColors :: "string list" where
  "eventColors = [''bg-[#A9C5D3]'', ''bg-[#FADCD5]'', ''bg-[#D9CCE8]'', ''bg-[#F5D5B8]'']"

text \<open>\<^verbatim>\<open>isBreakType(lastType || '')\<close>: \<^verbatim>\<open>null\<close> becomes the empty string, which is no break type.\<close>

definition isBreakType :: "item_type option \<Rightarrow> bool" where
  "isBreakType t = (t \<in> {Some break, Some hobby, Some lunch, Some wellness})"

definition addSession :: "item_type \<Rightarrow> string \<Rightarrow> int \<Rightarrow> string option \<Rightarrow> sweep_state \<Rightarrow> sweep_state" where
  "addSession ty lbl dur col s =
     (if dur \<le> 0 then s
      else s\<lparr> items := items s @
                 [\<lparr> type = ty, label = lbl, startTime = currentTime s, duration = dur,
                    color = (case col of Some c \<Rightarrow> c
                             | None \<Rightarrow> eventColors ! (colorIdx s mod length eventColors)) \<rparr>],
               colorIdx := (case col of Some c \<Rightarrow> colorIdx s | None \<Rightarrow> Suc (colorIdx s)),
               currentTime := currentTime s + dur,
               lastType := Some ty \<rparr>)"

text \<open>\<^verbatim>\<open>const nextMeeting = dayEvents.find(e => e.startMins >= currentTime)\<close>\<close>

definition nextMeeting :: "sweep_state \<Rightarrow> DayEvent option" where
  "nextMeeting s = find (\<lambda>e. startMins e \<ge> currentTime s) (dayEvents s)"

definition gap :: "int \<Rightarrow> sweep_state \<Rightarrow> int" where
  "gap dayEndMins s =
     (case nextMeeting s of
        Some m \<Rightarrow> startMins m - currentTime s
      | None \<Rightarrow> dayEndMins - currentTime s)"

text \<open>The statement \<^verbatim>\<open>if (gap > 0) { ... } else { ... }\<close> that ends the loop body.\<close>

definition fillGap :: "int \<Rightarrow> int \<Rightarrow> int \<Rightarrow> sweep_state \<Rightarrow> sweep_state" where
  "fillGap dayEndMins peakStart peakEnd s =
     (if gap dayEndMins s > 0 then
        if lastType s = Some focus \<or> lastType s = Some meeting \<or> lastType s = None
        then
          let breakDur = min (if gap dayEndMins s \<ge> 45 then 45 else 15) (gap dayEndMins s) in
          addSession break (if breakDur \<ge> 45 then ''Wellness Break'' else ''Short break'')
            breakDur None s
        else
          let inPeak = (currentTime s \<ge> peakStart \<and> currentTime s < peakEnd);
              focusDur = min (if inPeak then 90 else 45) (gap dayEndMins s) in
          if focusRemaining s > 0 then
            let focusDur = min focusDur (focusRemaining s);
                s' = addSession focus
                       (if inPeak then ''Peak Focus Session'' else ''Standard Focus'')
                       focusDur (Some ''bg-white'') s
            in s'\<lparr> focusRemaining := focusRemaining s' - focusDur \<rparr>
          else addSession hobby ''Creative Hobby Block'' (min (gap dayEndMins s) 60)
                 (Some ''bg-[#E1EED9]'') s
      else
        (case nextMeeting s of
           Some m \<Rightarrow> s\<lparr> currentTime := endMins m \<rparr>
         | None \<Rightarrow> s\<lparr> currentTime := dayEndMins \<rparr>))"

text \<open>
  One pass through the body of the \<^verbatim>\<open>while\<close> loop: the lunch anchor, then the meeting
  that starts at the cursor, then the gap. \<^verbatim>\<open>dayEvents.shift()\<close> removes the first
  element of the list, whichever event \<^verbatim>\<open>find\<close> returned.
\<close>

definition loopBody :: "int \<Rightarrow> int \<Rightarrow> int \<Rightarrow> sweep_state \<Rightarrow> sweep_state" where
  "loopBody dayEndMins peakStart peakEnd s =
     (if currentTime s \<ge> 780 \<and> currentTime s < 840 \<and> \<not> hasLongBreakAnchor s
         \<and> \<not> isBreakType (lastType s)
      then (addSession break ''Lunch Break'' 60 None s)\<lparr> hasLongBreakAnchor := True \<rparr>
      else
        case nextMeeting s of
          None \<Rightarrow> fillGap dayEndMins peakStart peakEnd s
        | Some m \<Rightarrow>
            if startMins m = currentTime s
            then (addSession meeting (summary m) (durationMinutes m) None s)
                   \<lparr> dayEvents := tl (dayEvents s) \<rparr>
            else fillGap dayEndMins peakStart peakEnd s)"

text \<open>
  The durations the gap branch hands to \<^verbatim>\<open>addSession\<close>: \<^verbatim>\<open>breakDur\<close> of the source,
  and its \<^verbatim>\<open>focusDur\<close> after the second \<^verbatim>\<open>Math.min\<close>.
\<close>

definition breakDur :: "int \<Rightarrow> int" where
  "breakDur g = min (if g \<ge> 45 then 45 else 15) g"

definition focusDur :: "int \<Rightarrow> int \<Rightarrow> int \<Rightarrow> sweep_state \<Rightarrow> int" where
  "focusDur dayEndMins peakStart peakEnd s =
     min (min (if currentTime s \<ge> peakStart \<and> currentTime s < peakEnd then 90 else 45)
            (gap dayEndMins s)) (focusRemaining s)"

subsection \<open>The loop terminates\<close>

lemma nextMeeting_SomeD:
  "nextMeeting s = Some m \<Longrightarrow> currentTime s \<le> startMins m \<and> m \<in> set (dayEvents s)"
  by (auto simp: nextMeeting_def find_Some_iff)

lemma nextMeeting_Some_nonempty: "nextMeeting s = Some m \<Longrightarrow> dayEvents s \<noteq> []"
  by (auto simp: nextMeeting_def)

lemma gap_positive:
  assumes "currentTime s < dayEndMins"
    and "\<And>m. nextMeeting s = Some m \<Longrightarrow> startMins m \<noteq> currentTime s"
  shows "0 < gap dayEndMins s"
proof (cases "nextMeeting s")
  case None
  then show ?thesis using assms(1) by (simp add: gap_def)
next
  case (Some m)
  then have "currentTime s \<le> startMins m" "startMins m \<noteq> currentTime s"
    using nextMeeting_SomeD assms(2) by blast+
  then show ?thesis using Some by (simp add: gap_def)
qed

lemma fillGap_cases [consumes 1, case_names rest focus hobby]:
  assumes "0 < gap dayEndMins s"
  obtains
    (rest)
      "lastType s = Some focus \<or> lastType s = Some meeting \<or> lastType s = None"
      "fillGap dayEndMins ps pe s =
         addSession break
           (if breakDur (gap dayEndMins s) \<ge> 45 then ''Wellness Break'' else ''Short break'')
           (breakDur (gap dayEndMins s)) None s"
  | (focus) lbl where
      "\<not> (lastType s = Some focus \<or> lastType s = Some meeting \<or> lastType s = None)"
      "0 < focusRemaining s"
      "fillGap dayEndMins ps pe s =
         (addSession focus lbl (focusDur dayEndMins ps pe s) (Some ''bg-white'') s)
           \<lparr> focusRemaining := focusRemaining s - focusDur dayEndMins ps pe s \<rparr>"
  | (hobby)
      "\<not> (lastType s = Some focus \<or> lastType s = Some meeting \<or> lastType s = None)"
      "focusRemaining s \<le> 0"
      "fillGap dayEndMins ps pe s =
         addSession hobby ''Creative Hobby Block'' (min (gap dayEndMins s) 60) (Some ''bg-[#E1EED9]'') s"
proof (cases "lastType s = Some focus \<or> lastType s = Some meeting \<or> lastType s = None")
  case True
  have "fillGap dayEndMins ps pe s =
          addSession break (if breakDur (gap dayEndMins s) \<ge> 45 then ''Wellness Break'' else ''Short break'')
            (breakDur (gap dayEndMins s)) None s"
    using assms True by (simp add: fillGap_def breakDur_def Let_def)
  with True show ?thesis by (rule rest)
next
  case notx: False
  then obtain t where ne: "lastType s = Some t" "t \<noteq> focus" "t \<noteq> meeting"
    by (cases "lastType s") auto
  show ?thesis
  proof (cases "0 < focusRemaining s")
    case True
    have "focusRemaining (addSession focus l d c s) = focusRemaining s" for l d c
      by (simp add: addSession_def)
    then have "fillGap dayEndMins ps pe s =
         (addSession focus (if currentTime s \<ge> ps \<and> currentTime s < pe then ''Peak Focus Session'' else ''Standard Focus'')
            (focusDur dayEndMins ps pe s) (Some ''bg-white'') s)
           \<lparr> focusRemaining := focusRemaining s - focusDur dayEndMins ps pe s \<rparr>"
      using assms ne True by (simp add: fillGap_def focusDur_def Let_def)
    with notx True show ?thesis by (rule focus)
  next
    case False
    then have le: "focusRemaining s \<le> 0" by simp
    have "fillGap dayEndMins ps pe s =
         addSession hobby ''Creative Hobby Block'' (min (gap dayEndMins s) 60) (Some ''bg-[#E1EED9]'') s"
      using assms ne False by (simp add: fillGap_def Let_def)
    with notx le show ?thesis by (rule hobby)
  qed
qed


lemma loopBody_cases [consumes 1, case_names lunch meeting rest focus hobby]:
  assumes "currentTime s < dayEndMins"
  obtains
    (lunch)
      "780 \<le> currentTime s" "currentTime s < 840" "\<not> hasLongBreakAnchor s"
      "\<not> isBreakType (lastType s)"
      "loopBody dayEndMins ps pe s =
         (addSession break ''Lunch Break'' 60 None s)\<lparr> hasLongBreakAnchor := True \<rparr>"
  | (meeting) m where
      "nextMeeting s = Some m" "startMins m = currentTime s"
      "loopBody dayEndMins ps pe s =
         (addSession meeting (summary m) (durationMinutes m) None s)\<lparr> dayEvents := tl (dayEvents s) \<rparr>"
  | (rest)
      "0 < gap dayEndMins s"
      "lastType s = Some focus \<or> lastType s = Some meeting \<or> lastType s = None"
      "loopBody dayEndMins ps pe s =
         addSession break
           (if breakDur (gap dayEndMins s) \<ge> 45 then ''Wellness Break'' else ''Short break'')
           (breakDur (gap dayEndMins s)) None s"
  | (focus) lbl where
      "0 < gap dayEndMins s"
      "\<not> (lastType s = Some focus \<or> lastType s = Some meeting \<or> lastType s = None)"
      "0 < focusRemaining s"
      "loopBody dayEndMins ps pe s =
         (addSession focus lbl (focusDur dayEndMins ps pe s) (Some ''bg-white'') s)
           \<lparr> focusRemaining := focusRemaining s - focusDur dayEndMins ps pe s \<rparr>"
  | (hobby)
      "0 < gap dayEndMins s"
      "\<not> (lastType s = Some focus \<or> lastType s = Some meeting \<or> lastType s = None)"
      "focusRemaining s \<le> 0"
      "loopBody dayEndMins ps pe s =
         addSession hobby ''Creative Hobby Block'' (min (gap dayEndMins s) 60) (Some ''bg-[#E1EED9]'') s"
proof -
  define due where
    "due \<longleftrightarrow> 780 \<le> currentTime s \<and> currentTime s < 840 \<and> \<not> hasLongBreakAnchor s
           \<and> \<not> isBreakType (lastType s)"
  have body: "loopBody dayEndMins ps pe s =
     (if due
      then (addSession break ''Lunch Break'' 60 None s)\<lparr> hasLongBreakAnchor := True \<rparr>
      else
        case nextMeeting s of
          None \<Rightarrow> fillGap dayEndMins ps pe s
        | Some m \<Rightarrow>
            if startMins m = currentTime s
            then (addSession meeting (summary m) (durationMinutes m) None s)
                   \<lparr> dayEvents := tl (dayEvents s) \<rparr>
            else fillGap dayEndMins ps pe s)"
    unfolding due_def loopBody_def ..
  show ?thesis
  proof (cases due)
    case True
    then have "loopBody dayEndMins ps pe s =
           (addSession break ''Lunch Break'' 60 None s)\<lparr> hasLongBreakAnchor := True \<rparr>"
      by (simp add: body)
    moreover have "780 \<le> currentTime s" "currentTime s < 840" "\<not> hasLongBreakAnchor s"
      "\<not> isBreakType (lastType s)"
      using True by (simp_all add: due_def)
    ultimately show ?thesis using lunch by blast
  next
    case nl: False
    show ?thesis
    proof (cases "\<exists>m. nextMeeting s = Some m \<and> startMins m = currentTime s")
      case True
      then obtain m where m: "nextMeeting s = Some m" "startMins m = currentTime s"
        by blast
      then have "loopBody dayEndMins ps pe s =
           (addSession meeting (summary m) (durationMinutes m) None s)\<lparr> dayEvents := tl (dayEvents s) \<rparr>"
        using nl by (simp add: body)
      with m show ?thesis by (rule meeting)
    next
      case False
      then have eq: "loopBody dayEndMins ps pe s = fillGap dayEndMins ps pe s"
        using nl by (cases "nextMeeting s") (simp_all add: body)
      have g: "0 < gap dayEndMins s"
        using assms False by (intro gap_positive) auto
      from g show ?thesis
      proof (cases rule: fillGap_cases [where ps = ps and pe = pe])
        case rest
        then show ?thesis using g eq that(3) by simp
      next
        case (focus lbl)
        then show ?thesis using g eq that(4) by simp
      next
        case hobby
        then show ?thesis using g eq that(5) by simp
      qed
    qed
  qed
qed

lemma currentTime_addSession:
  "currentTime (addSession ty lbl dur col s) = (if dur \<le> 0 then currentTime s else currentTime s + dur)"
  by (simp add: addSession_def)

lemma currentTime_addSession_pos:
  "0 < dur \<Longrightarrow> currentTime (addSession ty lbl dur col s) = currentTime s + dur"
  by (simp add: addSession_def)

lemma dayEvents_addSession: "dayEvents (addSession ty lbl dur col s) = dayEvents s"
  by (simp add: addSession_def)

lemma breakDur_positive: "0 < g \<Longrightarrow> 0 < breakDur g"
  by (simp add: breakDur_def)

lemma focusDur_positive:
  "0 < gap e s \<Longrightarrow> 0 < focusRemaining s \<Longrightarrow> 0 < focusDur e ps pe s"
  by (simp add: focusDur_def)

lemma loopBody_progress:
  assumes "currentTime s < dayEndMins"
  shows "currentTime s < currentTime (loopBody dayEndMins ps pe s) \<or>
         currentTime (loopBody dayEndMins ps pe s) = currentTime s \<and>
         length (dayEvents (loopBody dayEndMins ps pe s)) < length (dayEvents s)"
  using assms
proof (cases rule: loopBody_cases [where ps = ps and pe = pe])
  case lunch
  then show ?thesis by (simp add: currentTime_addSession)
next
  case (meeting m)
  then show ?thesis
    using nextMeeting_Some_nonempty [OF meeting(1)]
    by (simp add: currentTime_addSession)
next
  case rest
  then show ?thesis using breakDur_positive [OF rest(1)]
    by (simp add: currentTime_addSession)
next
  case (focus lbl)
  then show ?thesis using focusDur_positive [OF focus(1,3), of ps pe]
    by (simp add: currentTime_addSession)
next
  case hobby
  then show ?thesis by (simp add: currentTime_addSession_pos)
qed

text \<open>
  The \<^verbatim>\<open>while (currentTime < dayEndMins)\<close> loop. Every pass moves the cursor forward or,
  for an event of duration \<open>\<le> 0\<close> at the cursor, shortens \<^verbatim>\<open>dayEvents\<close>.
\<close>

function sweep :: "int \<Rightarrow> int \<Rightarrow> int \<Rightarrow> sweep_state \<Rightarrow> sweep_state" where
  "sweep dayEndMins peakStart peakEnd s =
     (if currentTime s < dayEndMins
      then sweep dayEndMins peakStart peakEnd (loopBody dayEndMins peakStart peakEnd s)
      else s)"
  by pat_completeness auto
termination
proof (relation "measures [\<lambda>(e, ps, pe, s). nat (e - currentTime s),
                           \<lambda>(e, ps, pe, s). length (dayEvents s)]", goal_cases)
  case 1
  show ?case by simp
next
  case (2 dayEndMins peakStart peakEnd s)
  then show ?case
    using loopBody_progress [OF 2, of peakStart peakEnd] by auto
qed


declare sweep.simps [simp del]

definition initialState :: "int \<Rightarrow> int \<Rightarrow> DayEvent list \<Rightarrow> sweep_state" where
  "initialState dayStartMins focusGoal evs =
     \<lparr> items = [], currentTime = dayStartMins, focusRemaining = focusGoal * 60,
       lastType = None, hasLongBreakAnchor = False, dayEvents = evs, colorIdx = 0 \<rparr>"

text \<open>
  The body of \<^verbatim>\<open>schedule\<close> from the day bounds in minutes on: resolve the peak window,
  run the loop, return \<^verbatim>\<open>items\<close>.
\<close>

definition scheduleFrom ::
  "int \<Rightarrow> int \<Rightarrow> int \<Rightarrow> string \<Rightarrow> DayEvent list \<Rightarrow> js_error + ScheduleItem list" where
  "scheduleFrom dayStartMins dayEndMins focusGoal peakWindow evs =
     (case peakRange peakWindow of
        Inl err \<Rightarrow> Inl err
      | Inr (peakStart, peakEnd) \<Rightarrow>
          Inr (items (sweep dayEndMins peakStart peakEnd
                        (initialState dayStartMins focusGoal evs))))"

text \<open>
  \<^verbatim>\<open>schedule\<close> with the clock times \<^verbatim>\<open>startTime\<close> and \<^verbatim>\<open>endTime\<close> of the settings
  (\<open>start\<close> and \<open>finish\<close> here). A \<^verbatim>\<open>NaN\<close> bound makes the loop
  condition false at once, so nothing is emitted; the peak window is resolved before the
  loop in either case.
\<close>

definition schedule ::
  "ClockTime \<Rightarrow> ClockTime \<Rightarrow> int \<Rightarrow> string \<Rightarrow> DayEvent list \<Rightarrow> js_error + ScheduleItem list" where
  "schedule start finish focusGoal peakWindow evs =
     (case (toMinutes (hour start) (minute start) (period start),
            toMinutes (hour finish) (minute finish) (period finish)) of
        (Some dayStartMins, Some dayEndMins) \<Rightarrow>
          scheduleFrom dayStartMins dayEndMins focusGoal peakWindow evs
      | _ \<Rightarrow> (case peakRange peakWindow of Inl err \<Rightarrow> Inl err | Inr r \<Rightarrow> Inr []))"

section \<open>The generator and the goal tracker of part_001\<close>

text \<open>
  \<^verbatim>\<open>generateSchedule\<close> of \<^verbatim>\<open>part_001\<close> is the loop of \<^verbatim>\<open>DashboardView.tsx\<close> with the
  break lengths \<^verbatim>\<open>shortBreak\<close> and \<^verbatim>\<open>longBreak\<close> of the settings, a manual adjustment of
  the goal per day, and other peak ranges. Its \<^verbatim>\<open>addSession\<close> is the one above; the
  \<^verbatim>\<open>isNew\<close> flag it adds to an item (a highlight in the user interface) is left out.
  The day bounds are taken in minutes, after \<^verbatim>\<open>toMinutes\<close>.
\<close>

subsection \<open>Peak window\<close>

definition peakRanges_p1 :: "(string \<times> (int \<times> int)) list" where
  "peakRanges_p1 =
     [(''Morning'', (480, 720)), (''Afternoon'', (840, 1020)),
      (''Evening'', (1080, 1260)), (''Late Night'', (1260, 1440))]"

text \<open>\<^verbatim>\<open>const [peakStart, peakEnd] = peakRanges[peakWindow] || [840, 1020]\<close>\<close>

definition peakRange_p1 :: "string \<Rightarrow> js_error + (int \<times> int)" where
  "peakRange_p1 peakWindow =
     (case getProperty peakRanges_p1 peakWindow of
        Own r \<Rightarrow> Inr r
      | Inherited \<Rightarrow> Inl TypeError
      | Undefined \<Rightarrow> Inr (840, 1020))"

subsection \<open>The effective goal\<close>

text \<open>
  \<^verbatim>\<open>manualAdjustment\<close> maps a day (\<^verbatim>\<open>yyyymmdd\<close>) to hours;
  \<^verbatim>\<open>manualAdjustment[targetDay.yyyymmdd] || 0\<close> reads it.
\<close>

definition currentAdj :: "(string \<rightharpoonup> int) \<Rightarrow> string \<Rightarrow> int" where
  "currentAdj manualAdjustment day = (case manualAdjustment day of Some a \<Rightarrow> a | None \<Rightarrow> 0)"

definition effectiveFocusGoal :: "int \<Rightarrow> (string \<rightharpoonup> int) \<Rightarrow> string \<Rightarrow> int option \<Rightarrow> int" where
  "effectiveFocusGoal focusGoal manualAdjustment day overrideGoal =
     (case overrideGoal of
        Some g \<Rightarrow> g
      | None \<Rightarrow> focusGoal + currentAdj manualAdjustment day)"

subsection \<open>The sweep\<close>

record props_p1 =
  dayStartMins_p1 :: int
  dayEndMins_p1 :: int
  focusGoal_p1 :: int
  peakWindow_p1 :: string
  shortBreak :: int
  longBreak :: int

definition fillGap_p1 :: "props_p1 \<Rightarrow> int \<Rightarrow> int \<Rightarrow> int \<Rightarrow> sweep_state \<Rightarrow> sweep_state" where
  "fillGap_p1 props adj peakStart peakEnd s =
     (let gap = gap (dayEndMins_p1 props) s in
      if gap > 0 then
        if lastType s = Some focus \<or> lastType s = Some meeting \<or> lastType s = None
        then
          let breakDur = min (if gap \<ge> 45 then 45 else shortBreak props) gap in
          addSession break (if breakDur \<ge> 45 then ''Wellness Break'' else ''Short break'')
            breakDur None s
        else
          let inPeak = (currentTime s \<ge> peakStart \<and> currentTime s < peakEnd);
              focusDur =
                (if inPeak then
                   if adj > 0
                   then min (if focusRemaining s \<ge> 60
                                \<and> focusGoal_p1 props + adj - focusGoal_p1 props < 1
                             then 60 else 45) gap
                   else min 90 gap
                 else min 45 gap) in
          if focusRemaining s > 0 then
            let focusDur = min focusDur (focusRemaining s);
                isPeak = (inPeak \<and> focusDur \<ge> 45);
                s' = addSession focus
                       (if isPeak then ''Peak Focus Session'' else ''Standard Focus'')
                       focusDur (Some (if isPeak then ''bg-[#FADCD5]'' else ''bg-white'')) s
            in s'\<lparr> focusRemaining := focusRemaining s' - focusDur \<rparr>
          else addSession hobby ''Creative Hobby Block'' (min gap 60) (Some ''bg-[#E1EED9]'') s
      else
        (case nextMeeting s of
           Some m \<Rightarrow> s\<lparr> currentTime := endMins m \<rparr>
         | None \<Rightarrow> s\<lparr> currentTime := dayEndMins_p1 props \<rparr>))"

definition loopBody_p1 :: "props_p1 \<Rightarrow> int \<Rightarrow> int \<Rightarrow> int \<Rightarrow> sweep_state \<Rightarrow> sweep_state" where
  "loopBody_p1 props adj peakStart peakEnd s =
     (if currentTime s \<ge> 780 \<and> currentTime s < 840 \<and> \<not> hasLongBreakAnchor s
         \<and> \<not> isBreakType (lastType s)
      then (addSession break ''Lunch Break'' (longBreak props) None s)\<lparr> hasLongBreakAnchor := True \<rparr>
      else
        case nextMeeting s of
          None \<Rightarrow> fillGap_p1 props adj peakStart peakEnd s
        | Some m \<Rightarrow>
            if startMins m = currentTime s
            then (addSession meeting (summary m) (durationMinutes m) None s)
                   \<lparr> dayEvents := tl (dayEvents s) \<rparr>
            else fillGap_p1 props adj peakStart peakEnd s)"

text \<open>
  The loop of \<^verbatim>\<open>part_001\<close> need not end: with \<^verbatim>\<open>shortBreak\<close> \<open>\<le> 0\<close> and a gap
  shorter than 45 minutes \<^verbatim>\<open>addSession\<close> discards the break and nothing changes. The
  result \<open>None\<close> stands for a loop that runs forever.
\<close>

definition sweep_p1 :: "props_p1 \<Rightarrow> int \<Rightarrow> int \<Rightarrow> int \<Rightarrow> sweep_state \<Rightarrow> sweep_state option" where
  "sweep_p1 props adj peakStart peakEnd =
     while_option (\<lambda>s. currentTime s < dayEndMins_p1 props)
       (loopBody_p1 props adj peakStart peakEnd)"

definition generateSchedule ::
  "props_p1 \<Rightarrow> (string \<rightharpoonup> int) \<Rightarrow> string \<Rightarrow> int option \<Rightarrow> DayEvent list
     \<Rightarrow> (js_error + ScheduleItem list) option" where
  "generateSchedule props manualAdjustment day overrideGoal evs =
     (case peakRange_p1 (peakWindow_p1 props) of
        Inl err \<Rightarrow> Some (Inl err)
      | Inr (peakStart, peakEnd) \<Rightarrow>
          map_option (\<lambda>s. Inr (items s))
            (sweep_p1 props (currentAdj manualAdjustment day) peakStart peakEnd
               (initialState (dayStartMins_p1 props)
                  (effectiveFocusGoal (focusGoal_p1 props) manualAdjustment day overrideGoal)
                  evs)))"

subsection \<open>Statistics and the goal adjustment\<close>

datatype stats_mode = daily | weekly

datatype goal_diff = match | under | over

datatype direction = add | reduce

text \<open>\<^verbatim>\<open>calcForSchedule\<close>: the pair \<^verbatim>\<open>{ focusMins, breakMins }\<close>.\<close>

definition calcForSchedule :: "ScheduleItem list \<Rightarrow> int \<times> int" where
  "calcForSchedule s =
     foldl (\<lambda>(focusMins, breakMins) item.
              if type item = focus \<or> type item = meeting
              then (focusMins + duration item, breakMins)
              else (focusMins, breakMins + duration item))
       (0, 0) s"

text \<open>
  \<^verbatim>\<open>stats\<close>: of the schedule of the active day in daily mode, the totals over the
  schedules of the seven days in weekly mode.
\<close>

definition stats :: "stats_mode \<Rightarrow> ScheduleItem list \<Rightarrow> ScheduleItem list list \<Rightarrow> int \<times> int" where
  "stats statsMode sched week =
     (case statsMode of
        daily \<Rightarrow> calcForSchedule sched
      | weekly \<Rightarrow>
          foldl (\<lambda>(totalFocus, totalBreak) s.
                   (totalFocus + fst (calcForSchedule s), totalBreak + snd (calcForSchedule s)))
            (0, 0) week)"

text \<open>\<^verbatim>\<open>goalDiff\<close>; \<open>None\<close> is \<^verbatim>\<open>null\<close>.\<close>

definition goalDiff :: "stats_mode \<Rightarrow> int \<Rightarrow> int \<Rightarrow> goal_diff option" where
  "goalDiff statsMode focusMins focusGoal =
     (if statsMode \<noteq> daily then None
      else
        let diff = focusMins - focusGoal * 60 in
        if \<bar>diff\<bar> < 15 then Some match
        else if diff < 0 then Some under else Some over)"

text \<open>
  The condition under which the goal alignment panel with its button is rendered:
  \<^verbatim>\<open>statsMode === 'daily' && goalDiff && goalDiff !== 'match'\<close>.
\<close>

definition adjustmentOffered :: "stats_mode \<Rightarrow> goal_diff option \<Rightarrow> bool" where
  "adjustmentOffered statsMode gd = (statsMode = daily \<and> gd \<noteq> None \<and> gd \<noteq> Some match)"

text \<open>
  \<^verbatim>\<open>handleAdjustGoal\<close>: the new \<^verbatim>\<open>manualAdjustment\<close>. \<^verbatim>\<open>diffHours\<close> is a fraction;
  the model computes it exactly.
\<close>

definition handleAdjustGoal ::
  "direction \<Rightarrow> int \<Rightarrow> int \<Rightarrow> string \<Rightarrow> (string \<rightharpoonup> int) \<Rightarrow> (string \<rightharpoonup> int)" where
  "handleAdjustGoal dir focusMins focusGoal day manualAdjustment =
     (let diffMins = \<bar>focusMins - focusGoal * 60\<bar>;
          diffHours = (of_int diffMins :: rat) / 60
      in case dir of
           add \<Rightarrow>
             let adjustment = (if diffMins < 60 then 1 else \<lceil>diffHours + 1 / 2\<rceil>) in
             manualAdjustment(day \<mapsto> currentAdj manualAdjustment day + adjustment)
         | reduce \<Rightarrow>
             let reduction = \<lceil>diffHours\<rceil> in
             manualAdjustment(day \<mapsto> currentAdj manualAdjustment day - reduction))"

section \<open>The generator of part_002\<close>

text \<open>
  The schedule of \<^verbatim>\<open>part_002\<close>. Its items carry \<^verbatim>\<open>startTimeMins\<close>, kept in the field
  \<open>startTime\<close> of the record above, and the colour of their kind; the identifier, the
  rendered start time, the sub-label and the stripe colour are left out. The day bounds of
  the settings are taken in minutes, after \<^verbatim>\<open>toMinutes\<close>.
\<close>

definition DAY_START_LIMIT :: int where
  "DAY_START_LIMIT = 7 * 60"

definition DAY_END_LIMIT :: int where
  "DAY_END_LIMIT = 23 * 60"

record AppSettings =
  shortBreakDuration :: int
  hobbyBreakDuration :: int

subsection \<open>Kinds of events\<close>

text \<open>\<^verbatim>\<open>toLowerCase\<close> on the letters A to Z, and \<^verbatim>\<open>String.prototype.includes\<close> (\<open>includesStr\<close>).\<close>

definition toLowerCase :: "string \<Rightarrow> string" where
  "toLowerCase s =
     map (\<lambda>c. if 65 \<le> (of_char c :: nat) \<and> (of_char c :: nat) \<le> 90
                then char_of ((of_char c :: nat) + 32) else c) s"

fun startsWith :: "string \<Rightarrow> string \<Rightarrow> bool" where
  "startsWith s [] = True"
| "startsWith [] (p # ps) = False"
| "startsWith (c # cs) (p # ps) = (c = p \<and> startsWith cs ps)"

fun includesStr :: "string \<Rightarrow> string \<Rightarrow> bool" where
  "includesStr [] sub = (sub = [])"
| "includesStr (c # cs) sub = (startsWith (c # cs) sub \<or> includesStr cs sub)"

definition getEventTypeFromSummary :: "string \<Rightarrow> item_type" where
  "getEventTypeFromSummary summ =
     (let s = toLowerCase summ in
      if includesStr s ''lunch'' then lunch
      else if includesStr s ''wellness'' \<or> includesStr s ''gym'' then wellness
      else if includesStr s ''hobby'' then hobby
      else if includesStr s ''break'' then break
      else meeting)"

text \<open>The \<^verbatim>\<open>color\<close> of \<^verbatim>\<open>getTypeStyles\<close>.\<close>

definition getTypeStyles :: "item_type \<Rightarrow> string" where
  "getTypeStyles t =
     (case t of
        focus \<Rightarrow> ''bg-[#FEF1EE] border-[#FADCD5]''
      | meeting \<Rightarrow> ''bg-[#FEF6F0] border-[#FADCD5]''
      | lunch \<Rightarrow> ''bg-blue-50 border-blue-100''
      | wellness \<Rightarrow> ''bg-green-50 border-green-100''
      | hobby \<Rightarrow> ''bg-purple-50 border-purple-100''
      | break \<Rightarrow> ''bg-gray-50 border-gray-100''
      | transition \<Rightarrow> ''bg-gray-50 border-gray-100'')"

subsection \<open>Events of the day, day window, focus budget\<close>

text \<open>
  The \<^verbatim>\<open>map\<close> step of \<^verbatim>\<open>activeDayEvents\<close>: \<^verbatim>\<open>endMins: startMins + e.durationMinutes\<close>.
  The list is taken after \<^verbatim>\<open>filter\<close> and \<^verbatim>\<open>sort\<close>.
\<close>

definition activeDayEvents :: "DayEvent list \<Rightarrow> DayEvent list" where
  "activeDayEvents evs = map (\<lambda>e. e\<lparr> endMins := startMins e + durationMinutes e \<rparr>) evs"

text \<open>\<^verbatim>\<open>dayStartMins\<close> and \<^verbatim>\<open>dayEndMins\<close>: clamped to the limits, widened to the events.\<close>

definition dayWindow :: "int \<Rightarrow> int \<Rightarrow> DayEvent list \<Rightarrow> int \<times> int" where
  "dayWindow userDayStart userDayEnd evs =
     (let dayStartMins = max DAY_START_LIMIT userDayStart;
          dayEndMins = min DAY_END_LIMIT userDayEnd
      in if length evs > 0
         then (min dayStartMins (max DAY_START_LIMIT (startMins (hd evs))),
               max dayEndMins (min DAY_END_LIMIT (endMins (last evs))))
         else (dayStartMins, dayEndMins))"

definition totalMeetingsMinutes :: "DayEvent list \<Rightarrow> int" where
  "totalMeetingsMinutes evs =
     foldl (\<lambda>acc curr. acc + durationMinutes curr) 0
       (filter (\<lambda>e. getEventTypeFromSummary (summary e) = meeting) evs)"

subsection \<open>Peak window\<close>

definition peakRanges_p2 :: "(string \<times> (int \<times> int)) list" where
  "peakRanges_p2 =
     [(''Morning'', (420, 720)), (''Afternoon'', (720, 1020)),
      (''Evening'', (1020, 1260)), (''Late Night'', (1260, 1380))]"

text \<open>
  \<^verbatim>\<open>const currentPeak = peakRanges[peakWindow] || [420, 720]\<close>. Nothing is destructured
  here: an inherited member is kept, and its elements \<^verbatim>\<open>[0]\<close> and \<^verbatim>\<open>[1]\<close> are
  \<^verbatim>\<open>undefined\<close> (\<open>None\<close> below).
\<close>

definition currentPeak :: "string \<Rightarrow> (int \<times> int) option" where
  "currentPeak peakWindow =
     (case getProperty peakRanges_p2 peakWindow of
        Own r \<Rightarrow> Some r
      | Inherited \<Rightarrow> None
      | Undefined \<Rightarrow> Some (420, 720))"

text \<open>
  \<^verbatim>\<open>currentTime >= currentPeak[0] && currentTime <= currentPeak[1]\<close>; a comparison with
  \<^verbatim>\<open>undefined\<close> is false.
\<close>

definition isPeakAt :: "(int \<times> int) option \<Rightarrow> int \<Rightarrow> bool" where
  "isPeakAt peak t = (case peak of Some (a, b) \<Rightarrow> t \<ge> a \<and> t \<le> b | None \<Rightarrow> False)"

subsection \<open>addItem\<close>

definition BREAK_TYPES :: "item_type list" where
  "BREAK_TYPES = [break, lunch, wellness, hobby, transition]"

text \<open>
  \<^verbatim>\<open>addItem\<close> on the list of items: a first item of kind hobby, wellness or break is
  dropped; a break after a break of the same kind is added to it
  (\<^verbatim>\<open>last.duration += item.duration\<close>), after a break of another kind it is dropped.
\<close>

definition addItem :: "ScheduleItem \<Rightarrow> ScheduleItem list \<Rightarrow> ScheduleItem list" where
  "addItem item its =
     (if length its = 0 then
        if type item \<in> set [hobby, wellness, break] then its else its @ [item]
      else
        let lst = last its;
            isCurrentBreak = (type item \<in> set BREAK_TYPES);
            isLastBreak = (type lst \<in> set BREAK_TYPES)
        in if isCurrentBreak \<and> isLastBreak then
             if type item = type lst
             then butlast its @ [lst\<lparr> duration := duration lst + duration item \<rparr>]
             else its
           else its @ [item])"

definition mkItem :: "item_type \<Rightarrow> string \<Rightarrow> int \<Rightarrow> int \<Rightarrow> ScheduleItem" where
  "mkItem ty lbl start dur =
     \<lparr> type = ty, label = lbl, startTime = start, duration = dur, color = getTypeStyles ty \<rparr>"

subsection \<open>The sweep\<close>

record state_p2 =
  items_p2 :: "ScheduleItem list"
  currentTime_p2 :: int
  safety :: nat
  remainingFocusMinutes :: int
  hasBreakfastBeenAdded :: bool
  hasLunchBeenAdded :: bool

record config_p2 =
  events_p2 :: "DayEvent list"
  dayEndMins_p2 :: int
  peak_p2 :: "(int \<times> int) option"
  settings_p2 :: AppSettings

text \<open>
  \<^verbatim>\<open>activeDayEvents.find(e => e.startMins <= currentTime && e.endMins > currentTime)\<close> and
  \<^verbatim>\<open>activeDayEvents.find(e => e.startMins > currentTime)\<close>
\<close>

definition eventAt :: "DayEvent list \<Rightarrow> int \<Rightarrow> DayEvent option" where
  "eventAt evs t = find (\<lambda>e. startMins e \<le> t \<and> endMins e > t) evs"

definition nextEvent :: "DayEvent list \<Rightarrow> int \<Rightarrow> DayEvent option" where
  "nextEvent evs t = find (\<lambda>e. startMins e > t) evs"

definition gapEnd :: "config_p2 \<Rightarrow> int \<Rightarrow> int" where
  "gapEnd cfg t =
     (case nextEvent (events_p2 cfg) t of
        Some n \<Rightarrow> min (startMins n) (dayEndMins_p2 cfg)
      | None \<Rightarrow> dayEndMins_p2 cfg)"

text \<open>The statement \<^verbatim>\<open>if (gapDuration > 0) { ... } else { ... }\<close> of the loop body.\<close>

definition fillGap_p2 :: "config_p2 \<Rightarrow> state_p2 \<Rightarrow> state_p2" where
  "fillGap_p2 cfg s =
     (let t = currentTime_p2 s;
          gapEnd = gapEnd cfg t;
          gapDuration = gapEnd - t
      in if gapDuration > 0 then
           let isPeak = isPeakAt (peak_p2 cfg) t in
           if remainingFocusMinutes s > 0 \<and> gapDuration \<ge> 20 then
             let focusBlock = (if isPeak
                               then min 90 (min gapDuration (remainingFocusMinutes s))
                               else min 45 (min gapDuration (remainingFocusMinutes s)));
                 s1 = s\<lparr> items_p2 := addItem
                                         (mkItem focus
                                            (if isPeak then ''Peak Window Deep Work''
                                             else ''Focus Sprint'') t focusBlock)
                                         (items_p2 s),
                         currentTime_p2 := t + focusBlock,
                         remainingFocusMinutes := remainingFocusMinutes s - focusBlock \<rparr>;
                 wellnessDuration = (if isPeak then 15 else 10)
             in if currentTime_p2 s1 < gapEnd \<and> gapEnd - currentTime_p2 s1 \<ge> wellnessDuration
                then s1\<lparr> items_p2 := addItem
                                         (mkItem wellness ''Wellness Buffer'' (currentTime_p2 s1)
                                            wellnessDuration)
                                         (items_p2 s1),
                         currentTime_p2 := currentTime_p2 s1 + wellnessDuration \<rparr>
                else s1
           else if gapDuration > 90 \<and> length (items_p2 s) > 0 then
             s\<lparr> items_p2 := addItem
                               (mkItem hobby ''Creative Hobby Break'' t
                                  (hobbyBreakDuration (settings_p2 cfg)))
                               (items_p2 s),
                currentTime_p2 := t + hobbyBreakDuration (settings_p2 cfg) \<rparr>
           else
             let breakDur = min gapDuration (shortBreakDuration (settings_p2 cfg)) in
             s\<lparr> items_p2 := addItem (mkItem break ''Mental Pivot'' t breakDur) (items_p2 s),
                currentTime_p2 := gapEnd \<rparr>
         else s\<lparr> currentTime_p2 := gapEnd \<rparr>)"

text \<open>
  One pass through the loop body: the safety counter, breakfast, lunch, the event at the
  cursor, the gap.
\<close>

definition loopBody_p2 :: "config_p2 \<Rightarrow> bool \<Rightarrow> state_p2 \<Rightarrow> state_p2" where
  "loopBody_p2 cfg isMorningStart s0 =
     (let s = s0\<lparr> safety := safety s0 + 1 \<rparr>;
          t = currentTime_p2 s;
          currentEvent = eventAt (events_p2 cfg) t
      in if isMorningStart \<and> \<not> hasBreakfastBeenAdded s \<and> t \<ge> 420 \<and> t < 540
            \<and> currentEvent = None
         then s\<lparr> items_p2 := addItem (mkItem lunch ''Fuel & Prep: Breakfast'' t 30) (items_p2 s),
                 currentTime_p2 := t + 30,
                 hasBreakfastBeenAdded := True \<rparr>
         else if \<not> hasLunchBeenAdded s \<and> t \<ge> 720 \<and> t < 840 \<and> currentEvent = None
         then s\<lparr> items_p2 := addItem (mkItem lunch ''Lunch Break'' t 45) (items_p2 s),
                 currentTime_p2 := t + 45,
                 hasLunchBeenAdded := True \<rparr>
         else
           case currentEvent of
             Some ev \<Rightarrow>
               s\<lparr> items_p2 := addItem
                                 (mkItem (getEventTypeFromSummary (summary ev)) (summary ev)
                                    (startMins ev) (durationMinutes ev))
                                 (items_p2 s),
                  currentTime_p2 := endMins ev \<rparr>
           | None \<Rightarrow> fillGap_p2 cfg s)"

text \<open>\<^verbatim>\<open>while (currentTime < dayEndMins && safety < 150)\<close>\<close>

function sweep_p2 :: "config_p2 \<Rightarrow> bool \<Rightarrow> state_p2 \<Rightarrow> state_p2" where
  "sweep_p2 cfg isMorningStart s =
     (if currentTime_p2 s < dayEndMins_p2 cfg \<and> safety s < 150
      then sweep_p2 cfg isMorningStart (loopBody_p2 cfg isMorningStart s)
      else s)"
  by pat_completeness auto
termination
proof (relation "measure (\<lambda>(cfg, isMorningStart, s). 150 - safety s)", goal_cases)
  case 1
  show ?case by simp
next
  case (2 cfg isMorningStart s)
  have "safety (loopBody_p2 cfg isMorningStart s) = safety s + 1"
    by (simp add: loopBody_p2_def fillGap_p2_def Let_def split: option.split)
  with 2 show ?case by auto
qed

declare sweep_p2.simps [simp del]

text \<open>The whole of \<^verbatim>\<open>schedule\<close> of \<^verbatim>\<open>part_002\<close>, from the day bounds in minutes on.\<close>

definition schedule_p2 ::
  "int \<Rightarrow> int \<Rightarrow> int \<Rightarrow> string \<Rightarrow> AppSettings \<Rightarrow> DayEvent list \<Rightarrow> ScheduleItem list" where
  "schedule_p2 userDayStart userDayEnd focusGoal peakWindow settings evs0 =
     (let evs = activeDayEvents evs0;
          (dayStartMins, dayEndMins) = dayWindow userDayStart userDayEnd evs;
          remaining = max 0 (focusGoal * 60 - totalMeetingsMinutes evs);
          cfg = \<lparr> events_p2 = evs, dayEndMins_p2 = dayEndMins,
                  peak_p2 = currentPeak peakWindow, settings_p2 = settings \<rparr>;
          s0 = \<lparr> items_p2 = [], currentTime_p2 = dayStartMins, safety = 0,
                 remainingFocusMinutes = remaining, hasBreakfastBeenAdded = False,
                 hasLunchBeenAdded =
                   list_ex (\<lambda>e. getEventTypeFromSummary (summary e) = lunch) evs \<rparr>;
          isMorningStart = (dayStartMins \<ge> 420 \<and> dayStartMins < 540)
      in sort_key startTime (items_p2 (sweep_p2 cfg isMorningStart s0)))"

section \<open>Predicates on schedules\<close>

text \<open>Each block ends where the next one starts.\<close>

fun contiguous :: "ScheduleItem list \<Rightarrow> bool" where
  "contiguous [] = True"
| "contiguous [b] = True"
| "contiguous (a # b # bs) = (startTime a + duration a = startTime b \<and> contiguous (b # bs))"

text \<open>The minutes of the focus blocks of a schedule.\<close>

definition focusMinutes :: "ScheduleItem list \<Rightarrow> int" where
  "focusMinutes bs = sum_list (map duration (filter (\<lambda>b. type b = focus) bs))"

text \<open>Exertion blocks are focus blocks and meetings; the other kinds are rest.\<close>

definition isExertion :: "item_type \<Rightarrow> bool" where
  "isExertion t = (t = focus \<or> t = meeting)"

text \<open>No focus block directly after a focus block or a meeting.\<close>

fun restBeforeFocus :: "ScheduleItem list \<Rightarrow> bool" where
  "restBeforeFocus [] = True"
| "restBeforeFocus [b] = True"
| "restBeforeFocus (a # b # bs) =
     ((type b \<noteq> focus \<or> \<not> isExertion (type a)) \<and> restBeforeFocus (b # bs))"

text \<open>
  The valid inputs of the generator: the day is not empty, every event lies within the
  day with \<^verbatim>\<open>durationMinutes\<close> the length of its interval, and the events are in order
  and do not overlap.
\<close>

definition nonOverlapping :: "DayEvent list \<Rightarrow> bool" where
  "nonOverlapping evs = list_all (\<lambda>(a, b). endMins a \<le> startMins b) (zip evs (tl evs))"

definition validInput :: "int \<Rightarrow> int \<Rightarrow> DayEvent list \<Rightarrow> bool" where
  "validInput dayStartMins dayEndMins evs \<longleftrightarrow>
     dayStartMins < dayEndMins \<and>
     list_all (\<lambda>e. dayStartMins \<le> startMins e \<and> startMins e < endMins e \<and> endMins e \<le> dayEndMins
                 \<and> durationMinutes e = endMins e - startMins e) evs \<and>
     nonOverlapping evs"

text \<open>
  The minutes of the meeting blocks and of the rest blocks of a schedule, and the free time
  of a day: its span minus the minutes of its events minus a number of minutes of rest.
\<close>

definition meetingMinutes :: "ScheduleItem list \<Rightarrow> int" where
  "meetingMinutes bs = sum_list (map duration (filter (\<lambda>b. type b = meeting) bs))"

definition restMinutes :: "ScheduleItem list \<Rightarrow> int" where
  "restMinutes bs = sum_list (map duration (filter (\<lambda>b. \<not> isExertion (type b)) bs))"

definition freeTime :: "int \<Rightarrow> int \<Rightarrow> DayEvent list \<Rightarrow> int \<Rightarrow> int" where
  "freeTime dayStartMins dayEndMins evs rest =
     (dayEndMins - dayStartMins) - sum_list (map durationMinutes evs) - rest"

text \<open>
  The lunch anchor is the break labelled \<^verbatim>\<open>Lunch Break\<close>. A block is inside the day
  when it starts within the day and ends by its end; for the lunch anchor, when it starts
  within the day and lasts its 60 minutes.
\<close>

definition isLunchAnchor :: "ScheduleItem \<Rightarrow> bool" where
  "isLunchAnchor b = (type b = break \<and> label b = ''Lunch Break'')"

definition insideDay :: "int \<Rightarrow> int \<Rightarrow> ScheduleItem \<Rightarrow> bool" where
  "insideDay dayStartMins dayEndMins b \<longleftrightarrow>
     dayStartMins \<le> startTime b \<and> startTime b < dayEndMins \<and>
     (if isLunchAnchor b then duration b = 60 else startTime b + duration b \<le> dayEndMins)"

text \<open>The window names of \<^verbatim>\<open>EnergyWindow.tsx\<close>.\<close>

definition windows :: "string list" where
  "windows = [''Morning'', ''Afternoon'', ''Evening'', ''Late Night'']"

text \<open>A block that repeats the summary, the start and the duration of an event.\<close>

definition fromEvent :: "DayEvent list \<Rightarrow> ScheduleItem \<Rightarrow> bool" where
  "fromEvent evs b =
     list_ex (\<lambda>e. label b = summary e \<and> startTime b = startMins e \<and> duration b = durationMinutes e) evs"

text \<open>
  The rest that the generator of \<^verbatim>\<open>DashboardView.tsx\<close> may need on the way to a goal:
  a break of up to 45 minutes stands before every focus block, and a focus block lasts 45
  minutes or more unless an event, the end of the day or the goal cuts it. That is 45
  minutes of break for every 45 minutes of focus and for every event, the 15 minutes by
  which the lunch anchor is longer than a break, and one more break of 45 minutes.
\<close>

definition requiredRest :: "int \<Rightarrow> DayEvent list \<Rightarrow> int" where
  "requiredRest focusGoal evs = focusGoal * 60 + 45 * int (length evs) + 60"

text \<open>
  A minute of the day lies in a rest block of a schedule (a block that is no focus block
  and no meeting), or within an event of the day.
\<close>

definition restAt :: "ScheduleItem list \<Rightarrow> int \<Rightarrow> bool" where
  "restAt bs t =
     list_ex (\<lambda>b. \<not> isExertion (type b) \<and> startTime b \<le> t \<and> t < startTime b + duration b) bs"

definition duringEvent :: "DayEvent list \<Rightarrow> int \<Rightarrow> bool" where
  "duringEvent evs t =
     list_ex (\<lambda>e. startMins e \<le> t \<and> t < startMins e + durationMinutes e) evs"

text \<open>
  The same for \<^verbatim>\<open>part_002\<close>, which counts the meetings of the day towards the goal
  and schedules focus first. The free time is taken over its day window. On the way to a
  budget of focus minutes its generator may need a wellness buffer of 10 minutes for
  every 45 minutes of focus (15 for 90 inside the peak window), a gap of less than 20
  minutes, which holds no focus block, before every event and before the end of the day,
  30 minutes of breakfast and 45 minutes of lunch.
\<close>

definition requiredRest_p2 :: "int \<Rightarrow> DayEvent list \<Rightarrow> int" where
  "requiredRest_p2 goalMinutes evs = 10 * (goalMinutes div 45 + 1) + 20 * int (length evs) + 95"

definition freeTime_p2 :: "int \<Rightarrow> int \<Rightarrow> DayEvent list \<Rightarrow> int \<Rightarrow> int" where
  "freeTime_p2 userDayStart userDayEnd evs rest =
     (case dayWindow userDayStart userDayEnd (activeDayEvents evs) of
        (dayStartMins, dayEndMins) \<Rightarrow> freeTime dayStartMins dayEndMins evs rest)"

section \<open>Invariants\<close>

text \<open>
  The predicates on states that the loops preserve; the properties of the schedules follow
  from them.
\<close>

subsection \<open>Invariants of the loop of DashboardView.tsx\<close>

definition chained :: "sweep_state \<Rightarrow> bool" where
  "chained s \<longleftrightarrow>
     list_all (\<lambda>b. 0 < duration b) (items s) \<and> contiguous (items s) \<and>
     (items s = [] \<or> startTime (last (items s)) + duration (last (items s)) = currentTime s)"

definition alternating :: "sweep_state \<Rightarrow> bool" where
  "alternating s \<longleftrightarrow>
     restBeforeFocus (items s) \<and>
     lastType s = (if items s = [] then None else Some (type (last (items s))))"

definition budget :: "int \<Rightarrow> sweep_state \<Rightarrow> bool" where
  "budget g s \<longleftrightarrow> 0 \<le> focusRemaining s \<and> focusMinutes (items s) + focusRemaining s = g"

definition focusFree :: "sweep_state \<Rightarrow> bool" where
  "focusFree s \<longleftrightarrow>
     focusRemaining s \<le> 0 \<and> list_all (\<lambda>b. type b \<in> {meeting, break, hobby}) (items s)"

text \<open>The minutes of the events that start before a given time.\<close>

definition startedBefore :: "DayEvent list \<Rightarrow> int \<Rightarrow> int" where
  "startedBefore evs t = sum_list (map durationMinutes (filter (\<lambda>e. startMins e < t) evs))"

definition accounted :: "int \<Rightarrow> DayEvent list \<Rightarrow> sweep_state \<Rightarrow> bool" where
  "accounted dayStartMins evs s \<longleftrightarrow>
     sum_list (map duration (items s)) = currentTime s - dayStartMins \<and>
     meetingMinutes (items s) \<le> startedBefore evs (currentTime s) \<and>
     set (dayEvents s) \<subseteq> set evs"

definition inWindow :: "int \<Rightarrow> int \<Rightarrow> DayEvent list \<Rightarrow> sweep_state \<Rightarrow> bool" where
  "inWindow d e evs s \<longleftrightarrow>
     list_all (insideDay d e) (items s) \<and> d \<le> currentTime s \<and> set (dayEvents s) \<subseteq> set evs"

definition meetingsVerbatim :: "DayEvent list \<Rightarrow> sweep_state \<Rightarrow> bool" where
  "meetingsVerbatim evs s \<longleftrightarrow>
     list_all (\<lambda>b. type b \<noteq> meeting \<or> fromEvent evs b) (items s) \<and>
     set (dayEvents s) \<subseteq> set evs"

text \<open>
  The rest on the way to the goal. While focus minutes remain, the minutes of rest
  scheduled so far are paid for by the focus minutes scheduled so far, by the events that
  the cursor has passed, by the lunch anchor, and by one break that is still open: the
  last block is a break, or the cursor stands at the start of an event or at the end of
  the day.
\<close>

definition eventsAhead :: "sweep_state \<Rightarrow> int" where
  "eventsAhead s = int (length (filter (\<lambda>e. currentTime s \<le> startMins e) (dayEvents s)))"

definition atEvent :: "sweep_state \<Rightarrow> bool" where
  "atEvent s = (case nextMeeting s of Some m \<Rightarrow> startMins m = currentTime s | None \<Rightarrow> False)"

definition slack :: "int \<Rightarrow> sweep_state \<Rightarrow> int" where
  "slack dayEndMins s =
     (if lastType s = Some break \<or> atEvent s \<or> dayEndMins \<le> currentTime s then 45 else 0)"

definition restBound :: "int \<Rightarrow> int \<Rightarrow> int \<Rightarrow> sweep_state \<Rightarrow> bool" where
  "restBound g n dayEndMins s \<longleftrightarrow>
     (0 < focusRemaining s \<longrightarrow>
        restMinutes (items s) + 45 * eventsAhead s
          \<le> (g - focusRemaining s) + 45 * n + (if hasLongBreakAnchor s then 15 else 0)
            + slack dayEndMins s)"

text \<open>The first block starts where the day starts.\<close>

definition fromDayStart :: "int \<Rightarrow> sweep_state \<Rightarrow> bool" where
  "fromDayStart d s \<longleftrightarrow>
     (if items s = [] then currentTime s = d else startTime (hd (items s)) = d)"

subsection \<open>Invariant of the loop of part_001\<close>


subsection \<open>Invariants of the loop of part_002\<close>


definition consistentEnds :: "DayEvent list \<Rightarrow> bool" where
  "consistentEnds evs = list_all (\<lambda>e. endMins e = startMins e + durationMinutes e) evs"

definition budget_p2 :: "int \<Rightarrow> state_p2 \<Rightarrow> bool" where
  "budget_p2 g s \<longleftrightarrow>
     0 \<le> remainingFocusMinutes s \<and> focusMinutes (items_p2 s) + remainingFocusMinutes s = g"

definition config_of :: "int \<Rightarrow> string \<Rightarrow> AppSettings \<Rightarrow> DayEvent list \<Rightarrow> config_p2" where
  "config_of dayEndMins peakWindow settings evs =
     \<lparr> events_p2 = evs, dayEndMins_p2 = dayEndMins,
       peak_p2 = currentPeak peakWindow, settings_p2 = settings \<rparr>"

definition focusFree_p2 :: "state_p2 \<Rightarrow> bool" where
  "focusFree_p2 s \<longleftrightarrow>
     remainingFocusMinutes s \<le> 0 \<and> list_all (\<lambda>b. type b \<noteq> focus) (items_p2 s)"

text \<open>
  The way to the goal in \<^verbatim>\<open>part_002\<close>. While focus minutes remain, the time that has
  passed is paid for by the focus minutes scheduled so far and their wellness buffers, by
  the minutes of the events that have ended, by breakfast and lunch, and by a gap of less
  than 20 minutes before every event that has started and before the end of the day. In
  the same way every pass through the loop is paid for by 20 minutes of focus, by a meal,
  by an event that has ended, or by an event that has started or the end of the day.
\<close>

definition eventsAhead_p2 :: "DayEvent list \<Rightarrow> int \<Rightarrow> int" where
  "eventsAhead_p2 evs t = int (length (filter (\<lambda>e. t < startMins e) evs))"

definition openEvents :: "DayEvent list \<Rightarrow> int \<Rightarrow> int" where
  "openEvents evs t = int (length (filter (\<lambda>e. t < endMins e) evs))"

definition openMinutes :: "DayEvent list \<Rightarrow> int \<Rightarrow> int" where
  "openMinutes evs t = sum_list (map durationMinutes (filter (\<lambda>e. t < endMins e) evs))"

definition mealMinutes :: "state_p2 \<Rightarrow> int" where
  "mealMinutes s =
     (if hasBreakfastBeenAdded s then 30 else 0) + (if hasLunchBeenAdded s then 45 else 0)"

definition meals :: "state_p2 \<Rightarrow> int" where
  "meals s = (if hasBreakfastBeenAdded s then 1 else 0) + (if hasLunchBeenAdded s then 1 else 0)"

definition dayOver :: "config_p2 \<Rightarrow> state_p2 \<Rightarrow> int" where
  "dayOver cfg s = (if dayEndMins_p2 cfg \<le> currentTime_p2 s then 1 else 0)"

definition reach_p2 :: "int \<Rightarrow> int \<Rightarrow> config_p2 \<Rightarrow> state_p2 \<Rightarrow> bool" where
  "reach_p2 g d0 cfg s \<longleftrightarrow>
     (0 < remainingFocusMinutes s \<longrightarrow>
        9 * currentTime_p2 s + 9 * openMinutes (events_p2 cfg) (currentTime_p2 s)
            + 180 * eventsAhead_p2 (events_p2 cfg) (currentTime_p2 s)
            + 11 * remainingFocusMinutes s
          \<le> 9 * d0 + 11 * g + 9 * mealMinutes s
            + 9 * sum_list (map durationMinutes (events_p2 cfg))
            + 180 * int (length (events_p2 cfg)) + 180 * dayOver cfg s \<and>
        20 * int (safety s) + 20 * eventsAhead_p2 (events_p2 cfg) (currentTime_p2 s)
            + 20 * openEvents (events_p2 cfg) (currentTime_p2 s) + remainingFocusMinutes s
          \<le> g + 20 * meals s
            + 40 * int (length (events_p2 cfg)) + 20 * dayOver cfg s)"

section \<open>Properties of the generator of DashboardView.tsx\<close>

subsection \<open>Invariants of the loop\<close>

lemma sweep_invariant:
  assumes "P s"
    and "\<And>t. P t \<Longrightarrow> currentTime t < dayEndMins \<Longrightarrow> P (loopBody dayEndMins ps pe t)"
  shows "P (sweep dayEndMins ps pe s)"
  using assms
proof (induction dayEndMins ps pe s rule: sweep.induct)
  case (1 e peakStart peakEnd s)
  show ?case
  proof (cases "currentTime s < e")
    case True
    have step: "P (loopBody e peakStart peakEnd s)"
      by (rule "1.prems"(2) [OF "1.prems"(1) True])
    have "P (sweep e peakStart peakEnd (loopBody e peakStart peakEnd s))"
      by (rule "1.IH" [OF True step "1.prems"(2)])
    then show ?thesis
      using True by (simp add: sweep.simps [of e peakStart peakEnd s])
  next
    case False
    then show ?thesis
      using "1.prems"(1) by (simp add: sweep.simps [of e peakStart peakEnd s])
  qed
qed

lemma contiguous_snoc:
  "contiguous (bs @ [b]) \<longleftrightarrow>
     contiguous bs \<and> (bs = [] \<or> startTime (last bs) + duration (last bs) = startTime b)"
  by (induction bs rule: contiguous.induct) auto

lemma contiguous_nth:
  "contiguous bs \<Longrightarrow> Suc i < length bs \<Longrightarrow>
     startTime (bs ! i) + duration (bs ! i) = startTime (bs ! Suc i)"
proof (induction bs arbitrary: i rule: contiguous.induct)
  case (3 a b bs)
  then show ?case by (cases i) auto
qed auto

lemma chained_addSession:
  assumes "chained s"
  shows "chained (addSession ty lbl dur col s)"
proof (cases "dur \<le> 0")
  case True
  then show ?thesis using assms by (simp add: addSession_def)
next
  case False
  then show ?thesis using assms by (simp add: chained_def addSession_def contiguous_snoc)
qed

lemma chained_update:
  "chained (s\<lparr> hasLongBreakAnchor := a \<rparr>) = chained s"
  "chained (s\<lparr> dayEvents := d \<rparr>) = chained s"
  "chained (s\<lparr> focusRemaining := f \<rparr>) = chained s"
  by (simp_all add: chained_def)

lemma chained_loopBody:
  assumes "chained s" "currentTime s < dayEndMins"
  shows "chained (loopBody dayEndMins ps pe s)"
  using assms(2)
  by (cases rule: loopBody_cases [where ps = ps and pe = pe])
     (simp_all add: chained_update chained_addSession [OF assms(1)])

lemma chained_sweep: "chained s \<Longrightarrow> chained (sweep e ps pe s)"
  by (rule sweep_invariant [where P = chained]) (simp_all add: chained_loopBody)

lemma chained_initialState: "chained (initialState d g evs)"
  by (simp add: chained_def initialState_def)

lemma scheduleFrom_InrD:
  assumes "scheduleFrom dayStartMins dayEndMins focusGoal peakWindow evs = Inr bs"
  obtains ps pe where "peakRange peakWindow = Inr (ps, pe)"
    "bs = items (sweep dayEndMins ps pe (initialState dayStartMins focusGoal evs))"
  using assms by (auto simp: scheduleFrom_def split: sum.splits)

lemma scheduleFrom_chained:
  assumes "scheduleFrom dayStartMins dayEndMins focusGoal peakWindow evs = Inr bs"
  shows "list_all (\<lambda>b. 0 < duration b) bs" "contiguous bs"
proof -
  from assms obtain ps pe where
    bs: "bs = items (sweep dayEndMins ps pe (initialState dayStartMins focusGoal evs))"
    by (rule scheduleFrom_InrD)
  have "chained (sweep dayEndMins ps pe (initialState dayStartMins focusGoal evs))"
    by (rule chained_sweep [OF chained_initialState])
  then show "list_all (\<lambda>b. 0 < duration b) bs" "contiguous bs"
    by (simp_all add: chained_def bs)
qed

lemma items_addSession:
  "items (addSession ty lbl dur col s) =
     (if dur \<le> 0 then items s
      else items s @ [\<lparr> type = ty, label = lbl, startTime = currentTime s, duration = dur,
                         color = (case col of Some c \<Rightarrow> c
                                  | None \<Rightarrow> eventColors ! (colorIdx s mod length eventColors)) \<rparr>])"
  by (simp add: addSession_def)

lemma lastType_addSession:
  "lastType (addSession ty lbl dur col s) = (if dur \<le> 0 then lastType s else Some ty)"
  by (simp add: addSession_def)

lemma focusRemaining_addSession: "focusRemaining (addSession ty lbl dur col s) = focusRemaining s"
  by (simp add: addSession_def)

lemma focusDur_le: "focusDur e ps pe s \<le> focusRemaining s"
  by (simp add: focusDur_def)

lemma focusDur_le_gap: "focusDur e ps pe s \<le> gap e s"
  by (simp add: focusDur_def)

lemma breakDur_le: "breakDur g \<le> g"
  by (simp add: breakDur_def)

subsection \<open>Kinds of adjacent blocks\<close>

lemma restBeforeFocus_snoc:
  "restBeforeFocus (bs @ [b]) \<longleftrightarrow>
     restBeforeFocus bs \<and> (bs = [] \<or> type b \<noteq> focus \<or> \<not> isExertion (type (last bs)))"
  by (induction bs rule: restBeforeFocus.induct) auto

lemma restBeforeFocus_nth:
  "restBeforeFocus bs \<Longrightarrow> Suc i < length bs \<Longrightarrow> isExertion (type (bs ! i)) \<Longrightarrow>
     type (bs ! Suc i) \<noteq> focus"
proof (induction bs arbitrary: i rule: restBeforeFocus.induct)
  case (3 a b bs)
  then show ?case by (cases i) auto
qed auto

lemma alternating_update:
  "alternating (s\<lparr> hasLongBreakAnchor := a \<rparr>) = alternating s"
  "alternating (s\<lparr> dayEvents := d \<rparr>) = alternating s"
  "alternating (s\<lparr> focusRemaining := f \<rparr>) = alternating s"
  by (simp_all add: alternating_def)

lemma alternating_addSession:
  assumes "alternating s" "ty \<noteq> focus \<or> \<not> (lastType s = Some focus \<or> lastType s = Some meeting \<or> lastType s = None)"
  shows "alternating (addSession ty lbl dur col s)"
proof (cases "dur \<le> 0")
  case True
  then show ?thesis using assms by (simp add: addSession_def)
next
  case False
  then show ?thesis
    using assms
    by (auto simp: alternating_def addSession_def restBeforeFocus_snoc isExertion_def)
qed

lemma alternating_loopBody:
  assumes "alternating s" "currentTime s < dayEndMins"
  shows "alternating (loopBody dayEndMins ps pe s)"
  using assms(2)
  by (cases rule: loopBody_cases [where ps = ps and pe = pe])
     (simp_all add: alternating_update alternating_addSession [OF assms(1)])

lemma alternating_sweep: "alternating s \<Longrightarrow> alternating (sweep e ps pe s)"
  by (rule sweep_invariant [where P = alternating]) (simp_all add: alternating_loopBody)

lemma alternating_initialState: "alternating (initialState d g evs)"
  by (simp add: alternating_def initialState_def)

subsection \<open>The focus budget\<close>

lemma focusMinutes_snoc:
  "focusMinutes (bs @ [b]) = focusMinutes bs + (if type b = focus then duration b else 0)"
  by (simp add: focusMinutes_def)

lemma budget_update:
  "budget g (s\<lparr> hasLongBreakAnchor := a \<rparr>) = budget g s"
  "budget g (s\<lparr> dayEvents := d \<rparr>) = budget g s"
  by (simp_all add: budget_def)

lemma budget_addSession:
  assumes "budget g s" "ty \<noteq> focus"
  shows "budget g (addSession ty lbl dur col s)"
  using assms by (simp add: budget_def addSession_def focusMinutes_snoc)

lemma budget_focus:
  assumes "budget g s" "0 < d" "d \<le> focusRemaining s"
  shows "budget g ((addSession focus lbl d col s)\<lparr> focusRemaining := focusRemaining s - d \<rparr>)"
  using assms by (simp add: budget_def addSession_def focusMinutes_snoc)

lemma budget_loopBody:
  assumes "budget g s" "currentTime s < dayEndMins"
  shows "budget g (loopBody dayEndMins ps pe s)"
  using assms(2)
proof (cases rule: loopBody_cases [where ps = ps and pe = pe])
  case (focus lbl)
  then show ?thesis
    using budget_focus [OF assms(1) focusDur_positive [OF focus(1,3)] focusDur_le] by simp
qed (simp_all add: budget_update budget_addSession [OF assms(1)])

lemma budget_sweep: "budget g s \<Longrightarrow> budget g (sweep e ps pe s)"
  by (rule sweep_invariant [where P = "budget g"]) (simp_all add: budget_loopBody)

lemma budget_initialState: "0 \<le> g \<Longrightarrow> budget (g * 60) (initialState d g evs)"
  by (simp add: budget_def initialState_def focusMinutes_def)

lemma focusFree_update:
  "focusFree (s\<lparr> hasLongBreakAnchor := a \<rparr>) = focusFree s"
  "focusFree (s\<lparr> dayEvents := d \<rparr>) = focusFree s"
  by (simp_all add: focusFree_def)

lemma focusFree_addSession:
  assumes "focusFree s" "ty \<in> {meeting, break, hobby}"
  shows "focusFree (addSession ty lbl dur col s)"
  using assms by (simp add: focusFree_def addSession_def)

lemma focusFree_loopBody:
  assumes "focusFree s" "currentTime s < dayEndMins"
  shows "focusFree (loopBody dayEndMins ps pe s)"
  using assms(2)
proof (cases rule: loopBody_cases [where ps = ps and pe = pe])
  case (focus lbl)
  then show ?thesis using assms(1) by (simp add: focusFree_def)
qed (simp_all add: focusFree_update focusFree_addSession [OF assms(1)])

lemma focusFree_sweep: "focusFree s \<Longrightarrow> focusFree (sweep e ps pe s)"
  by (rule sweep_invariant [where P = focusFree]) (simp_all add: focusFree_loopBody)

lemma focusFree_initialState: "focusFree (initialState d 0 evs)"
  by (simp add: focusFree_def initialState_def)

lemma peakRange_returns:
  "peakWindow \<notin> set objectPrototypeKeys \<Longrightarrow> \<exists>r. peakRange peakWindow = Inr r"
  by (simp add: peakRange_def getProperty_def split: option.splits)

lemma sweep_done: "\<not> currentTime s < e \<Longrightarrow> sweep e ps pe s = s"
  by (simp add: sweep.simps [of e ps pe s])

lemma toMinutes_total:
  assumes "parseInt h = Some hh" "parseInt m = Some mm"
  shows "toMinutes h m p =
           Some ((if p = ''PM'' \<and> hh \<noteq> 12 then hh + 12
                  else if p = ''AM'' \<and> hh = 12 then 0 else hh) * 60 + mm)"
  using assms by (simp add: toMinutes_def Let_def)

lemma scheduleFrom_empty_day:
  assumes "dayEndMins \<le> dayStartMins" "peakWindow \<notin> set objectPrototypeKeys"
  shows "scheduleFrom dayStartMins dayEndMins focusGoal peakWindow evs = Inr []"
proof -
  from peakRange_returns [OF assms(2)] obtain ps pe where r: "peakRange peakWindow = Inr (ps, pe)"
    by fastforce
  have "sweep dayEndMins ps pe (initialState dayStartMins focusGoal evs) =
          initialState dayStartMins focusGoal evs"
    using assms(1) by (intro sweep_done) (simp add: initialState_def)
  then show ?thesis by (simp add: scheduleFrom_def r initialState_def)
qed

subsection \<open>The schedule covers the day\<close>

lemma minutes_split:
  "sum_list (map duration bs) = focusMinutes bs + meetingMinutes bs + restMinutes bs"
  by (induction bs) (auto simp: focusMinutes_def meetingMinutes_def restMinutes_def isExertion_def)

lemma sweep_exit: "\<not> currentTime (sweep e ps pe s) < e"
proof (induction e ps pe s rule: sweep.induct)
  case (1 e ps pe s)
  then show ?case by (cases "currentTime s < e") (simp_all add: sweep.simps [of e ps pe s])
qed

lemma startedBefore_le_total:
  assumes "list_all (\<lambda>e. 0 \<le> durationMinutes e) evs"
  shows "startedBefore evs t \<le> sum_list (map durationMinutes evs)"
  using assms by (induction evs) (auto simp: startedBefore_def)

lemma startedBefore_mono:
  assumes "list_all (\<lambda>e. 0 \<le> durationMinutes e) evs" "t \<le> t'"
  shows "startedBefore evs t \<le> startedBefore evs t'"
  using assms by (induction evs) (auto simp: startedBefore_def)

lemma startedBefore_step:
  assumes "list_all (\<lambda>e. 0 \<le> durationMinutes e) evs" "m \<in> set evs" "startMins m = t" "t < t'"
  shows "startedBefore evs t + durationMinutes m \<le> startedBefore evs t'"
  using assms
proof (induction evs)
  case Nil
  then show ?case by simp
next
  case (Cons e evs)
  have nn: "list_all (\<lambda>e. 0 \<le> durationMinutes e) evs" and e0: "0 \<le> durationMinutes e"
    using Cons.prems(1) by simp_all
  have mono: "startedBefore evs t \<le> startedBefore evs t'"
    using startedBefore_mono [OF nn] Cons.prems(4) by simp
  show ?case
  proof (cases "m = e")
    case True
    then show ?thesis
      using Cons.prems(3,4) mono by (simp add: startedBefore_def)
  next
    case False
    then have "m \<in> set evs" using Cons.prems(2) by simp
    from Cons.IH [OF nn this Cons.prems(3,4)] show ?thesis
      using e0 Cons.prems(4) by (auto simp: startedBefore_def)
  qed
qed

lemma accounted_update:
  "accounted d evs (s\<lparr> hasLongBreakAnchor := a \<rparr>) = accounted d evs s"
  "accounted d evs (s\<lparr> focusRemaining := f \<rparr>) = accounted d evs s"
  by (simp_all add: accounted_def)

lemma accounted_addSession:
  assumes "accounted d evs s" "list_all (\<lambda>e. 0 \<le> durationMinutes e) evs" "ty \<noteq> meeting"
  shows "accounted d evs (addSession ty lbl dur col s)"
proof (cases "dur \<le> 0")
  case True
  then show ?thesis using assms(1) by (simp add: addSession_def)
next
  case False
  then have "startedBefore evs (currentTime s) \<le> startedBefore evs (currentTime s + dur)"
    by (intro startedBefore_mono [OF assms(2)]) simp
  then show ?thesis
    using False assms(1,3) by (simp add: accounted_def addSession_def meetingMinutes_def)
qed

lemma accounted_meeting:
  assumes "accounted d evs s" "list_all (\<lambda>e. 0 \<le> durationMinutes e) evs"
    "nextMeeting s = Some m" "startMins m = currentTime s"
  shows "accounted d evs
           ((addSession meeting (summary m) (durationMinutes m) None s)\<lparr> dayEvents := tl (dayEvents s) \<rparr>)"
proof (cases "durationMinutes m \<le> 0")
  case True
  have "set (tl (dayEvents s)) \<subseteq> set (dayEvents s)"
    by (cases "dayEvents s") auto
  then show ?thesis using True assms(1) by (auto simp: addSession_def accounted_def)
next
  case False
  have tl: "set (tl (dayEvents s)) \<subseteq> set (dayEvents s)"
    by (cases "dayEvents s") auto
  have "m \<in> set evs"
    using nextMeeting_SomeD [OF assms(3)] assms(1) by (auto simp: accounted_def)
  from startedBefore_step [OF assms(2) this assms(4), of "currentTime s + durationMinutes m"] False
  have "startedBefore evs (currentTime s) + durationMinutes m
          \<le> startedBefore evs (currentTime s + durationMinutes m)"
    by simp
  then show ?thesis
    using False assms(1) tl by (auto simp: accounted_def addSession_def meetingMinutes_def)
qed

lemma accounted_loopBody:
  assumes "accounted d evs s" "list_all (\<lambda>e. 0 \<le> durationMinutes e) evs"
    "currentTime s < dayEndMins"
  shows "accounted d evs (loopBody dayEndMins ps pe s)"
  using assms(3)
proof (cases rule: loopBody_cases [where ps = ps and pe = pe])
  case (meeting m)
  then show ?thesis using accounted_meeting [OF assms(1,2) meeting(1,2)] by simp
qed (simp_all add: accounted_update accounted_addSession [OF assms(1,2)])

lemma accounted_sweep:
  assumes "accounted d evs s" "list_all (\<lambda>e. 0 \<le> durationMinutes e) evs"
  shows "accounted d evs (sweep e ps pe s)"
  by (rule sweep_invariant [where P = "accounted d evs"])
     (simp_all add: assms accounted_loopBody)

lemma startedBefore_nonneg:
  assumes "list_all (\<lambda>e. 0 \<le> durationMinutes e) evs"
  shows "0 \<le> startedBefore evs t"
  using assms by (induction evs) (auto simp: startedBefore_def)

lemma accounted_initialState:
  assumes "list_all (\<lambda>e. 0 \<le> durationMinutes e) evs"
  shows "accounted d evs (initialState d g evs)"
  using startedBefore_nonneg [OF assms, of d]
  by (simp add: accounted_def initialState_def meetingMinutes_def)

lemma scheduleFrom_covers:
  assumes "scheduleFrom dayStartMins dayEndMins focusGoal peakWindow evs = Inr bs"
    and "list_all (\<lambda>e. 0 \<le> durationMinutes e) evs"
  shows "dayEndMins - dayStartMins
           \<le> focusMinutes bs + sum_list (map durationMinutes evs) + restMinutes bs"
proof -
  from assms(1) obtain ps pe where
    bs: "bs = items (sweep dayEndMins ps pe (initialState dayStartMins focusGoal evs))"
    by (rule scheduleFrom_InrD)
  let ?t = "sweep dayEndMins ps pe (initialState dayStartMins focusGoal evs)"
  have acc: "accounted dayStartMins evs ?t"
    by (rule accounted_sweep [OF accounted_initialState [OF assms(2)] assms(2)])
  have "dayEndMins \<le> currentTime ?t"
    using sweep_exit [of dayEndMins ps pe "initialState dayStartMins focusGoal evs"] by simp
  moreover have "sum_list (map duration bs) = currentTime ?t - dayStartMins"
    using acc by (simp add: accounted_def bs)
  moreover have "meetingMinutes bs \<le> sum_list (map durationMinutes evs)"
    using acc startedBefore_le_total [OF assms(2), of "currentTime ?t"]
    by (simp add: accounted_def bs)
  ultimately show ?thesis
    using minutes_split [of bs] by simp
qed

subsection \<open>Blocks and the day window\<close>

lemma inWindow_update:
  "inWindow d e evs (s\<lparr> hasLongBreakAnchor := a \<rparr>) = inWindow d e evs s"
  "inWindow d e evs (s\<lparr> focusRemaining := f \<rparr>) = inWindow d e evs s"
  by (simp_all add: inWindow_def)

lemma inWindow_addSession:
  assumes "inWindow d e evs s" "currentTime s < e" "0 < dur"
    "if ty = break \<and> lbl = ''Lunch Break'' then dur = 60 else currentTime s + dur \<le> e"
  shows "inWindow d e evs (addSession ty lbl dur col s)"
  using assms by (simp add: inWindow_def addSession_def insideDay_def isLunchAnchor_def)

lemma gap_le:
  assumes "validInput d e evs" "set (dayEvents s) \<subseteq> set evs"
  shows "currentTime s + gap e s \<le> e"
proof (cases "nextMeeting s")
  case None
  then show ?thesis by (simp add: gap_def)
next
  case (Some m)
  then have "m \<in> set evs"
    using nextMeeting_SomeD assms(2) by blast
  then have "startMins m < endMins m" "endMins m \<le> e"
    using assms(1) by (auto simp: validInput_def list_all_iff)
  then show ?thesis using Some by (simp add: gap_def)
qed

lemma inWindow_loopBody:
  assumes "inWindow d e evs s" "validInput d e evs" "currentTime s < e"
  shows "inWindow d e evs (loopBody e ps pe s)"
proof -
  have sub: "set (dayEvents s) \<subseteq> set evs"
    using assms(1) by (simp add: inWindow_def)
  note g = gap_le [OF assms(2) sub]
  from assms(3) show ?thesis
  proof (cases rule: loopBody_cases [where ps = ps and pe = pe])
    case lunch
    have "inWindow d e evs (addSession break ''Lunch Break'' 60 None s)"
      by (rule inWindow_addSession [OF assms(1,3)]) simp_all
    then show ?thesis using lunch by (simp add: inWindow_update)
  next
    case (meeting m)
    have tl: "set (tl (dayEvents s)) \<subseteq> set evs"
      using sub by (cases "dayEvents s") auto
    have "m \<in> set evs"
      using nextMeeting_SomeD [OF meeting(1)] sub by blast
    then have m: "0 < durationMinutes m" "startMins m + durationMinutes m \<le> e"
      using assms(2) by (auto simp: validInput_def list_all_iff)
    have "inWindow d e evs (addSession meeting (summary m) (durationMinutes m) None s)"
      by (rule inWindow_addSession [OF assms(1,3) m(1)]) (use m(2) meeting(2) in simp)
    then show ?thesis
      using meeting(3) tl by (simp add: inWindow_def addSession_def)
  next
    case rest
    have "inWindow d e evs (addSession break
            (if breakDur (gap e s) \<ge> 45 then ''Wellness Break'' else ''Short break'')
            (breakDur (gap e s)) None s)"
      by (rule inWindow_addSession [OF assms(1,3) breakDur_positive [OF rest(1)]])
         (use g breakDur_le [of "gap e s"] in simp)
    then show ?thesis using rest(3) by simp
  next
    case (focus lbl)
    have "inWindow d e evs (addSession focus lbl (focusDur e ps pe s) (Some ''bg-white'') s)"
      by (rule inWindow_addSession [OF assms(1,3) focusDur_positive [OF focus(1,3)]])
         (use g focusDur_le_gap [of e ps pe s] in simp)
    then show ?thesis using focus by (simp add: inWindow_update)
  next
    case hobby
    have "inWindow d e evs (addSession hobby ''Creative Hobby Block'' (min (gap e s) 60)
            (Some ''bg-[#E1EED9]'') s)"
      by (rule inWindow_addSession [OF assms(1,3)]) (use g hobby(1) in simp_all)
    then show ?thesis using hobby by simp
  qed
qed

lemma inWindow_sweep:
  assumes "inWindow d e evs s" "validInput d e evs"
  shows "inWindow d e evs (sweep e ps pe s)"
  by (rule sweep_invariant [where P = "inWindow d e evs"])
     (simp_all add: assms inWindow_loopBody)

lemma inWindow_initialState: "inWindow d e evs (initialState d g evs)"
  by (simp add: inWindow_def initialState_def)

text \<open>
  On a valid input every block starts within the day, and every block but the lunch
  anchor ends within the day.
\<close>

lemma blocks_inside_day:
  assumes "validInput dayStartMins dayEndMins evs"
    and "scheduleFrom dayStartMins dayEndMins focusGoal peakWindow evs = Inr bs"
    and "b \<in> set bs"
  shows "dayStartMins \<le> startTime b \<and> startTime b < dayEndMins \<and>
         (if isLunchAnchor b then duration b = 60 else startTime b + duration b \<le> dayEndMins)"
proof -
  from assms(2) obtain ps pe where
    bs: "bs = items (sweep dayEndMins ps pe (initialState dayStartMins focusGoal evs))"
    by (rule scheduleFrom_InrD)
  have "inWindow dayStartMins dayEndMins evs
          (sweep dayEndMins ps pe (initialState dayStartMins focusGoal evs))"
    by (rule inWindow_sweep [OF inWindow_initialState assms(1)])
  then have "insideDay dayStartMins dayEndMins b"
    using assms(3) by (simp add: inWindow_def bs list_all_iff)
  then show ?thesis by (simp add: insideDay_def)
qed

subsection \<open>Meeting blocks\<close>

lemma meetingsVerbatim_update:
  "meetingsVerbatim evs (s\<lparr> hasLongBreakAnchor := a \<rparr>) = meetingsVerbatim evs s"
  "meetingsVerbatim evs (s\<lparr> focusRemaining := f \<rparr>) = meetingsVerbatim evs s"
  by (simp_all add: meetingsVerbatim_def)

lemma meetingsVerbatim_addSession:
  assumes "meetingsVerbatim evs s" "ty \<noteq> meeting"
  shows "meetingsVerbatim evs (addSession ty lbl dur col s)"
  using assms by (simp add: meetingsVerbatim_def addSession_def)

lemma meetingsVerbatim_meeting:
  assumes "meetingsVerbatim evs s" "nextMeeting s = Some m" "startMins m = currentTime s"
  shows "meetingsVerbatim evs
           ((addSession meeting (summary m) (durationMinutes m) None s)\<lparr> dayEvents := tl (dayEvents s) \<rparr>)"
proof -
  have tl: "set (tl (dayEvents s)) \<subseteq> set (dayEvents s)"
    by (cases "dayEvents s") auto
  have "m \<in> set evs"
    using nextMeeting_SomeD [OF assms(2)] assms(1) by (auto simp: meetingsVerbatim_def)
  then have "fromEvent evs \<lparr> type = meeting, label = summary m, startTime = currentTime s,
               duration = durationMinutes m, color = c \<rparr>" for c
    using assms(3) by (auto simp: fromEvent_def list_ex_iff)
  then show ?thesis
    using assms(1) tl by (auto simp: meetingsVerbatim_def addSession_def)
qed

lemma meetingsVerbatim_loopBody:
  assumes "meetingsVerbatim evs s" "currentTime s < dayEndMins"
  shows "meetingsVerbatim evs (loopBody dayEndMins ps pe s)"
  using assms(2)
proof (cases rule: loopBody_cases [where ps = ps and pe = pe])
  case (meeting m)
  then show ?thesis using meetingsVerbatim_meeting [OF assms(1) meeting(1,2)] by simp
qed (simp_all add: meetingsVerbatim_update meetingsVerbatim_addSession [OF assms(1)])

text \<open>
  A meeting block repeats an event of the day: it is never split, shortened or moved.
\<close>

lemma meeting_blocks_are_events:
  assumes "scheduleFrom dayStartMins dayEndMins focusGoal peakWindow evs = Inr bs"
    and "b \<in> set bs" "type b = meeting"
  shows "\<exists>e \<in> set evs. label b = summary e \<and> startTime b = startMins e \<and> duration b = durationMinutes e"
proof -
  from assms(1) obtain ps pe where
    bs: "bs = items (sweep dayEndMins ps pe (initialState dayStartMins focusGoal evs))"
    by (rule scheduleFrom_InrD)
  have "meetingsVerbatim evs (sweep dayEndMins ps pe (initialState dayStartMins focusGoal evs))"
    by (rule sweep_invariant [where P = "meetingsVerbatim evs"])
       (simp_all add: meetingsVerbatim_loopBody, simp add: meetingsVerbatim_def initialState_def)
  then have "fromEvent evs b"
    using assms(2,3) by (auto simp: meetingsVerbatim_def bs list_all_iff)
  then show ?thesis by (simp add: fromEvent_def list_ex_iff)
qed

subsection \<open>Rest on the way to the goal\<close>

lemma restMinutes_snoc:
  "restMinutes (bs @ [b]) = restMinutes bs + (if isExertion (type b) then 0 else duration b)"
  by (simp add: restMinutes_def)

lemma length_filter_mono:
  assumes "\<And>x. P x \<Longrightarrow> Q x"
  shows "length (filter P xs) \<le> length (filter Q xs)"
  using assms by (induction xs) auto

lemma length_filter_strict:
  assumes "\<And>x. P x \<Longrightarrow> Q x" "m \<in> set xs" "Q m" "\<not> P m"
  shows "length (filter P xs) < length (filter Q xs)"
  using assms(2-)
proof (induction xs)
  case Nil
  then show ?case by simp
next
  case (Cons x xs)
  have mono: "length (filter P xs) \<le> length (filter Q xs)"
    by (rule length_filter_mono) (rule assms(1))
  show ?case
  proof (cases "m = x")
    case True
    then show ?thesis using Cons.prems mono by simp
  next
    case False
    then have "length (filter P xs) < length (filter Q xs)"
      using Cons by simp
    then show ?thesis using assms(1) [of x] by auto
  qed
qed

lemma length_filter_tl: "length (filter P (tl xs)) \<le> length (filter P xs)"
  by (cases xs) auto

lemma eventsAhead_later:
  assumes "currentTime s \<le> currentTime t" "dayEvents t = dayEvents s"
  shows "eventsAhead t \<le> eventsAhead s"
  using assms length_filter_mono [of "\<lambda>e. currentTime t \<le> startMins e" "\<lambda>e. currentTime s \<le> startMins e" "dayEvents s"]
  by (simp add: eventsAhead_def)

lemma eventsAhead_passed:
  assumes "currentTime s \<le> currentTime t" "dayEvents t = dayEvents s"
    "m \<in> set (dayEvents s)" "currentTime s \<le> startMins m" "startMins m < currentTime t"
  shows "eventsAhead t \<le> eventsAhead s - 1"
  using assms length_filter_strict [of "\<lambda>e. currentTime t \<le> startMins e" "\<lambda>e. currentTime s \<le> startMins e" m "dayEvents s"]
  by (simp add: eventsAhead_def)

lemma eventsAhead_tl:
  "eventsAhead (s\<lparr> dayEvents := tl (dayEvents s) \<rparr>) \<le> eventsAhead s"
  using length_filter_tl [of "\<lambda>e. currentTime s \<le> startMins e" "dayEvents s"]
  by (simp add: eventsAhead_def)

lemma atEvent_D:
  assumes "atEvent s"
  obtains m where "nextMeeting s = Some m" "startMins m = currentTime s" "m \<in> set (dayEvents s)"
  using assms nextMeeting_SomeD by (auto simp: atEvent_def split: option.splits)

lemma gap_not_atEvent: "0 < gap e s \<Longrightarrow> \<not> atEvent s"
  by (auto simp: atEvent_def gap_def split: option.splits)

lemma slack_le: "slack e s \<le> 45" "0 \<le> slack e s"
  by (simp_all add: slack_def)

lemma restBound_lunch:
  assumes inv: "restBound g n e s"
    and due: "\<not> hasLongBreakAnchor s" "\<not> isBreakType (lastType s)" "currentTime s < e"
  shows "restBound g n e ((addSession break ''Lunch Break'' 60 None s)\<lparr> hasLongBreakAnchor := True \<rparr>)"
proof -
  let ?t = "(addSession break ''Lunch Break'' 60 None s)\<lparr> hasLongBreakAnchor := True \<rparr>"
  have t: "currentTime ?t = currentTime s + 60" "dayEvents ?t = dayEvents s"
    "focusRemaining ?t = focusRemaining s" "lastType ?t = Some break"
    "items ?t = items s @ [\<lparr> type = break, label = ''Lunch Break'', startTime = currentTime s,
        duration = 60, color = eventColors ! (colorIdx s mod length eventColors) \<rparr>]"
    "hasLongBreakAnchor ?t"
    by (simp_all add: addSession_def)
  have rest: "restMinutes (items ?t) = restMinutes (items s) + 60"
    by (simp add: t(5) restMinutes_snoc isExertion_def)
  have sl: "slack e ?t = 45"
    by (simp add: slack_def t(4))
  have nb: "lastType s \<noteq> Some break"
    using due(2) by (auto simp: isBreakType_def)
  have ahead: "45 * eventsAhead ?t + slack e s \<le> 45 * eventsAhead s"
  proof (cases "atEvent s")
    case True
    then obtain m where m: "startMins m = currentTime s" "m \<in> set (dayEvents s)"
      by (rule atEvent_D)
    have "eventsAhead ?t \<le> eventsAhead s - 1"
      by (rule eventsAhead_passed [where m = m]) (simp_all add: t m)
    then show ?thesis using slack_le(1) [of e s] by simp
  next
    case False
    then have "slack e s = 0" using nb due(3) by (simp add: slack_def)
    moreover have "eventsAhead ?t \<le> eventsAhead s"
      by (rule eventsAhead_later) (simp_all add: t)
    ultimately show ?thesis by simp
  qed
  show ?thesis
    unfolding restBound_def
  proof
    assume "0 < focusRemaining ?t"
    then have "restMinutes (items s) + 45 * eventsAhead s
          \<le> (g - focusRemaining s) + 45 * n + (if hasLongBreakAnchor s then 15 else 0) + slack e s"
      using inv by (simp add: restBound_def t(3))
    then show "restMinutes (items ?t) + 45 * eventsAhead ?t
          \<le> (g - focusRemaining ?t) + 45 * n + (if hasLongBreakAnchor ?t then 15 else 0) + slack e ?t"
      using ahead due(1) unfolding rest sl t(3) using t(6) by simp
  qed
qed

lemma nextMeeting_tl:
  assumes "nextMeeting s = Some m"
  shows "hd (dayEvents s) = m \<and> currentTime s \<le> startMins m \<or>
         nextMeeting (s\<lparr> dayEvents := tl (dayEvents s) \<rparr>) = Some m"
  using assms by (cases "dayEvents s") (auto simp: nextMeeting_def split: if_splits)

lemma eventsAhead_tl_head:
  assumes "dayEvents s \<noteq> []" "currentTime s \<le> startMins (hd (dayEvents s))"
  shows "eventsAhead (s\<lparr> dayEvents := tl (dayEvents s) \<rparr>) = eventsAhead s - 1"
  using assms by (cases "dayEvents s") (auto simp: eventsAhead_def)

lemma restBound_meeting:
  assumes inv: "restBound g n e s"
    and m: "nextMeeting s = Some m" "startMins m = currentTime s"
  shows "restBound g n e
           ((addSession meeting (summary m) (durationMinutes m) None s)\<lparr> dayEvents := tl (dayEvents s) \<rparr>)"
proof (cases "durationMinutes m \<le> 0")
  case True
  let ?t = "s\<lparr> dayEvents := tl (dayEvents s) \<rparr>"
  have eq: "(addSession meeting (summary m) (durationMinutes m) None s)\<lparr> dayEvents := tl (dayEvents s) \<rparr> = ?t"
    using True by (simp add: addSession_def)
  have ne: "dayEvents s \<noteq> []" by (rule nextMeeting_Some_nonempty [OF m(1)])
  have "45 * eventsAhead ?t + slack e s \<le> 45 * eventsAhead s + slack e ?t"
    using nextMeeting_tl [OF m(1)]
  proof
    assume h: "hd (dayEvents s) = m \<and> currentTime s \<le> startMins m"
    then have "eventsAhead ?t = eventsAhead s - 1"
      using eventsAhead_tl_head [OF ne] by simp
    then show ?thesis using slack_le [of e s] slack_le [of e ?t] by simp
  next
    assume "nextMeeting ?t = Some m"
    then have "atEvent ?t" using m(2) by (simp add: atEvent_def)
    then have "slack e ?t = 45" by (simp add: slack_def)
    then show ?thesis using eventsAhead_tl [of s] slack_le(1) [of e s] by simp
  qed
  moreover have "focusRemaining ?t = focusRemaining s" "hasLongBreakAnchor ?t = hasLongBreakAnchor s"
    "items ?t = items s"
    by simp_all
  ultimately have "restBound g n e ?t"
    using inv unfolding restBound_def by auto
  then show ?thesis by (simp only: eq)
next
  case False
  let ?t = "(addSession meeting (summary m) (durationMinutes m) None s)\<lparr> dayEvents := tl (dayEvents s) \<rparr>"
  let ?u = "addSession meeting (summary m) (durationMinutes m) None s"
  have u: "currentTime ?u = currentTime s + durationMinutes m" "dayEvents ?u = dayEvents s"
    using False by (simp_all add: addSession_def)
  have t: "focusRemaining ?t = focusRemaining s" "hasLongBreakAnchor ?t = hasLongBreakAnchor s"
    "restMinutes (items ?t) = restMinutes (items s)"
    using False by (simp_all add: addSession_def restMinutes_snoc isExertion_def)
  have "m \<in> set (dayEvents s)" using nextMeeting_SomeD [OF m(1)] by simp
  then have "eventsAhead ?u \<le> eventsAhead s - 1"
    using False by (intro eventsAhead_passed [where m = m]) (simp_all add: u m(2))
  moreover have "eventsAhead ?t \<le> eventsAhead ?u"
    using eventsAhead_tl [of ?u] by (simp add: u)
  ultimately have "45 * eventsAhead ?t + slack e s \<le> 45 * eventsAhead s + slack e ?t"
    using slack_le [of e s] slack_le [of e ?t] by simp
  then show ?thesis
    using inv unfolding restBound_def t by auto
qed

lemma restBound_break:
  assumes inv: "restBound g n e s"
    and g: "0 < gap e s" "currentTime s < e"
    and lt: "lastType s = Some focus \<or> lastType s = Some meeting \<or> lastType s = None"
  shows "restBound g n e (addSession break lbl (breakDur (gap e s)) None s)"
proof -
  let ?t = "addSession break lbl (breakDur (gap e s)) None s"
  have pos: "0 < breakDur (gap e s)" by (rule breakDur_positive [OF g(1)])
  have le45: "breakDur (gap e s) \<le> 45" by (simp add: breakDur_def min_def)
  have t: "currentTime ?t = currentTime s + breakDur (gap e s)" "dayEvents ?t = dayEvents s"
    "focusRemaining ?t = focusRemaining s" "lastType ?t = Some break"
    "hasLongBreakAnchor ?t = hasLongBreakAnchor s"
    "restMinutes (items ?t) = restMinutes (items s) + breakDur (gap e s)"
    using pos by (simp_all add: addSession_def restMinutes_snoc isExertion_def)
  have "slack e s = 0"
    using gap_not_atEvent [OF g(1)] g(2) lt by (auto simp: slack_def)
  moreover have "slack e ?t = 45" by (simp add: slack_def t(4))
  moreover have "eventsAhead ?t \<le> eventsAhead s"
    using pos by (intro eventsAhead_later) (simp_all add: t)
  ultimately show ?thesis
    using inv le45 unfolding restBound_def t by auto
qed

lemma find_later:
  assumes "find P xs = Some m" "\<And>x. Q x \<Longrightarrow> P x" "Q m"
  shows "find Q xs = Some m"
  using assms by (induction xs) (auto split: if_splits)

lemma restBound_focus:
  assumes inv: "restBound g n e s"
    and g: "0 < gap e s" "0 < focusRemaining s"
  shows "restBound g n e
           ((addSession focus lbl (focusDur e ps pe s) (Some ''bg-white'') s)
              \<lparr> focusRemaining := focusRemaining s - focusDur e ps pe s \<rparr>)"
proof -
  let ?d = "focusDur e ps pe s"
  let ?t = "(addSession focus lbl ?d (Some ''bg-white'') s)\<lparr> focusRemaining := focusRemaining s - ?d \<rparr>"
  have pos: "0 < ?d" by (rule focusDur_positive [OF g])
  have t: "currentTime ?t = currentTime s + ?d" "dayEvents ?t = dayEvents s"
    "focusRemaining ?t = focusRemaining s - ?d"
    "hasLongBreakAnchor ?t = hasLongBreakAnchor s"
    "restMinutes (items ?t) = restMinutes (items s)"
    using pos by (simp_all add: addSession_def restMinutes_snoc isExertion_def)
  have ahead: "eventsAhead ?t \<le> eventsAhead s"
    using pos by (intro eventsAhead_later) (simp_all add: t)
  show ?thesis
    unfolding restBound_def
  proof
    assume rem: "0 < focusRemaining ?t"
    then have lt: "?d < focusRemaining s" by (simp add: t)
    have "slack e s \<le> ?d + slack e ?t"
    proof (cases "45 \<le> ?d")
      case True
      then show ?thesis using slack_le [of e s] slack_le [of e ?t] by simp
    next
      case False
      then have dg: "?d = gap e s"
        using lt by (auto simp: focusDur_def min_def split: if_splits)
      have "atEvent ?t \<or> e \<le> currentTime ?t"
      proof (cases "nextMeeting s")
        case None
        then have "gap e s = e - currentTime s" by (simp add: gap_def)
        with dg t(1) have "e \<le> currentTime ?t" by linarith
        then show ?thesis ..
      next
        case (Some m)
        then have "gap e s = startMins m - currentTime s" by (simp add: gap_def)
        with dg t(1) have st: "startMins m = currentTime ?t" by linarith
        have "find (\<lambda>x. currentTime ?t \<le> startMins x) (dayEvents s) = Some m"
        proof (rule find_later)
          show "find (\<lambda>x. currentTime s \<le> startMins x) (dayEvents s) = Some m"
            using Some by (simp add: nextMeeting_def)
          show "currentTime s \<le> startMins x" if "currentTime ?t \<le> startMins x" for x
            using that pos t(1) by linarith
          show "currentTime ?t \<le> startMins m" using st by simp
        qed
        then have "nextMeeting ?t = Some m"
          by (simp add: nextMeeting_def t(2))
        then show ?thesis using st by (simp add: atEvent_def)
      qed
      then have "slack e ?t = 45" by (auto simp: slack_def)
      then show ?thesis using slack_le(1) [of e s] pos by simp
    qed
    moreover have "restMinutes (items s) + 45 * eventsAhead s
          \<le> (g - focusRemaining s) + 45 * n + (if hasLongBreakAnchor s then 15 else 0) + slack e s"
      using inv g(2) by (simp add: restBound_def)
    ultimately show "restMinutes (items ?t) + 45 * eventsAhead ?t
          \<le> (g - focusRemaining ?t) + 45 * n + (if hasLongBreakAnchor ?t then 15 else 0) + slack e ?t"
      using ahead unfolding t by simp
  qed
qed

lemma restBound_hobby:
  assumes "focusRemaining s \<le> 0"
  shows "restBound g n e (addSession hobby lbl d col s)"
  using assms by (simp add: restBound_def addSession_def)

lemma restBound_loopBody:
  assumes "restBound g n e s" "currentTime s < e"
  shows "restBound g n e (loopBody e ps pe s)"
  using assms(2)
proof (cases rule: loopBody_cases [where ps = ps and pe = pe])
  case lunch
  then show ?thesis using restBound_lunch [OF assms(1) lunch(3,4) assms(2)] by simp
next
  case (meeting m)
  then show ?thesis using restBound_meeting [OF assms(1) meeting(1,2)] by simp
next
  case rest
  then show ?thesis using restBound_break [OF assms(1) rest(1) assms(2) rest(2)] by simp
next
  case (focus lbl)
  then show ?thesis using restBound_focus [OF assms(1) focus(1,3)] by simp
next
  case hobby
  then show ?thesis using restBound_hobby [OF hobby(3)] by simp
qed

lemma restBound_sweep: "restBound g n e s \<Longrightarrow> restBound g n e (sweep e ps pe s)"
  by (rule sweep_invariant [where P = "restBound g n e"]) (simp_all add: restBound_loopBody)

lemma restBound_initialState:
  "restBound (g * 60) (int (length evs)) e (initialState d g evs)"
proof -
  have "eventsAhead (initialState d g evs) \<le> int (length evs)"
    by (simp add: eventsAhead_def initialState_def)
  moreover have "restMinutes (items (initialState d g evs)) = 0"
    "focusRemaining (initialState d g evs) = g * 60"
    by (simp_all add: initialState_def restMinutes_def)
  ultimately show ?thesis
    using slack_le(2) [of e "initialState d g evs"] unfolding restBound_def by auto
qed

text \<open>
  The goal is reached when the day has room for it beside the events and the rest that
  the generator needs.
\<close>

lemma scheduleFrom_reaches_goal:
  assumes r: "scheduleFrom dayStartMins dayEndMins focusGoal peakWindow evs = Inr bs"
    and g: "0 \<le> focusGoal" and nn: "list_all (\<lambda>e. 0 \<le> durationMinutes e) evs"
    and free: "focusGoal * 60 \<le> freeTime dayStartMins dayEndMins evs (requiredRest focusGoal evs)"
  shows "focusMinutes bs = focusGoal * 60"
proof (rule ccontr)
  assume ne: "focusMinutes bs \<noteq> focusGoal * 60"
  from r obtain ps pe where
    bs: "bs = items (sweep dayEndMins ps pe (initialState dayStartMins focusGoal evs))"
    by (rule scheduleFrom_InrD)
  let ?t = "sweep dayEndMins ps pe (initialState dayStartMins focusGoal evs)"
  have "budget (focusGoal * 60) ?t"
    by (rule budget_sweep [OF budget_initialState [OF g]])
  then have b: "focusMinutes bs + focusRemaining ?t = focusGoal * 60" "0 \<le> focusRemaining ?t"
    by (simp_all add: budget_def bs)
  with ne have rem: "0 < focusRemaining ?t" by simp
  have "restBound (focusGoal * 60) (int (length evs)) dayEndMins ?t"
    by (rule restBound_sweep [OF restBound_initialState])
  with rem have "restMinutes bs + 45 * eventsAhead ?t
      \<le> (focusGoal * 60 - focusRemaining ?t) + 45 * int (length evs)
        + (if hasLongBreakAnchor ?t then 15 else 0) + slack dayEndMins ?t"
    by (simp add: restBound_def bs)
  moreover have "0 \<le> eventsAhead ?t" by (simp add: eventsAhead_def)
  ultimately have "restMinutes bs \<le> (focusGoal * 60 - focusRemaining ?t) + 45 * int (length evs) + 60"
    using slack_le(1) [of dayEndMins ?t] by (auto split: if_splits)
  with rem have rest: "restMinutes bs < requiredRest focusGoal evs"
    by (simp add: requiredRest_def)
  have "dayEndMins - dayStartMins
          \<le> focusMinutes bs + sum_list (map durationMinutes evs) + restMinutes bs"
    by (rule scheduleFrom_covers [OF r nn])
  with rest b(1) rem free show False
    by (simp add: freeTime_def)
qed

subsection \<open>The schedule fills the day\<close>

lemma fromDayStart_update:
  "fromDayStart d (s\<lparr> hasLongBreakAnchor := a \<rparr>) = fromDayStart d s"
  "fromDayStart d (s\<lparr> dayEvents := ev \<rparr>) = fromDayStart d s"
  "fromDayStart d (s\<lparr> focusRemaining := f \<rparr>) = fromDayStart d s"
  by (simp_all add: fromDayStart_def)

lemma fromDayStart_addSession:
  assumes "fromDayStart d s"
  shows "fromDayStart d (addSession ty lbl dur col s)"
  using assms by (cases "items s = []") (simp_all add: fromDayStart_def addSession_def)

lemma fromDayStart_loopBody:
  assumes "fromDayStart d s" "currentTime s < dayEndMins"
  shows "fromDayStart d (loopBody dayEndMins ps pe s)"
  using assms(2)
  by (cases rule: loopBody_cases [where ps = ps and pe = pe])
     (simp_all add: fromDayStart_update fromDayStart_addSession [OF assms(1)])

lemma fromDayStart_sweep: "fromDayStart d s \<Longrightarrow> fromDayStart d (sweep e ps pe s)"
  by (rule sweep_invariant [where P = "fromDayStart d"]) (simp_all add: fromDayStart_loopBody)

lemma fromDayStart_initialState: "fromDayStart d (initialState d g evs)"
  by (simp add: fromDayStart_def initialState_def)

lemma contiguous_covers:
  assumes "contiguous bs" "bs \<noteq> []" "startTime (hd bs) \<le> t"
    "t < startTime (last bs) + duration (last bs)"
  shows "\<exists>b \<in> set bs. startTime b \<le> t \<and> t < startTime b + duration b"
  using assms
proof (induction bs rule: contiguous.induct)
  case 1
  then show ?case by simp
next
  case (2 b)
  then show ?case by simp
next
  case (3 a b bs)
  show ?case
  proof (cases "t < startTime a + duration a")
    case True
    then show ?thesis using "3.prems"(3) by auto
  next
    case False
    then have "startTime (hd (b # bs)) \<le> t" using "3.prems"(1) by simp
    moreover have "contiguous (b # bs)" using "3.prems"(1) by simp
    moreover have "t < startTime (last (b # bs)) + duration (last (b # bs))"
      using "3.prems"(4) by simp
    ultimately have "\<exists>c \<in> set (b # bs). startTime c \<le> t \<and> t < startTime c + duration c"
      by (intro "3.IH") simp_all
    then show ?thesis by auto
  qed
qed

text \<open>
  Every minute of the day lies in a block of the schedule; without a focus goal it lies
  in a rest block or within an event.
\<close>

lemma scheduleFrom_fills:
  assumes r: "scheduleFrom dayStartMins dayEndMins focusGoal peakWindow evs = Inr bs"
    and t: "dayStartMins \<le> t" "t < dayEndMins"
  shows "\<exists>b \<in> set bs. startTime b \<le> t \<and> t < startTime b + duration b"
proof -
  from r obtain ps pe where
    bs: "bs = items (sweep dayEndMins ps pe (initialState dayStartMins focusGoal evs))"
    by (rule scheduleFrom_InrD)
  let ?t = "sweep dayEndMins ps pe (initialState dayStartMins focusGoal evs)"
  have c: "chained ?t" by (rule chained_sweep [OF chained_initialState])
  have f: "fromDayStart dayStartMins ?t"
    by (rule fromDayStart_sweep [OF fromDayStart_initialState])
  have x: "dayEndMins \<le> currentTime ?t"
    using sweep_exit [of dayEndMins ps pe "initialState dayStartMins focusGoal evs"] by simp
  have ne: "bs \<noteq> []"
    using f t x by (auto simp: fromDayStart_def bs)
  then have "startTime (hd bs) = dayStartMins"
    using f by (simp add: fromDayStart_def bs)
  moreover have "startTime (last bs) + duration (last bs) = currentTime ?t"
    using c ne by (simp add: chained_def bs)
  moreover have "contiguous bs" using c by (simp add: chained_def bs)
  ultimately show ?thesis
    using ne t x by (intro contiguous_covers) simp_all
qed

lemma scheduleFrom_no_goal_fills:
  assumes r: "scheduleFrom dayStartMins dayEndMins 0 peakWindow evs = Inr bs"
    and t: "dayStartMins \<le> t" "t < dayEndMins"
  shows "restAt bs t \<or> duringEvent evs t"
proof -
  from scheduleFrom_fills [OF r t] obtain b where
    b: "b \<in> set bs" "startTime b \<le> t" "t < startTime b + duration b"
    by blast
  from r obtain ps pe where
    bs: "bs = items (sweep dayEndMins ps pe (initialState dayStartMins 0 evs))"
    by (rule scheduleFrom_InrD)
  have "focusFree (sweep dayEndMins ps pe (initialState dayStartMins 0 evs))"
    by (rule focusFree_sweep [OF focusFree_initialState])
  then have ty: "type b \<in> {meeting, break, hobby}"
    using b(1) by (auto simp: focusFree_def bs list_all_iff)
  show ?thesis
  proof (cases "type b = meeting")
    case True
    from meeting_blocks_are_events [OF r b(1) True] obtain e where
      "e \<in> set evs" "startTime b = startMins e" "duration b = durationMinutes e"
      by blast
    then have "duringEvent evs t"
      using b(2,3) by (auto simp: duringEvent_def list_ex_iff)
    then show ?thesis ..
  next
    case False
    then have "\<not> isExertion (type b)" using ty by (auto simp: isExertion_def)
    then have "restAt bs t"
      using b by (auto simp: restAt_def list_ex_iff)
    then show ?thesis ..
  qed
qed

subsection \<open>Evaluation on concrete days\<close>

lemmas eval_defs = scheduleFrom_def peakRange_def getProperty_def peakRanges_def objectPrototypeKeys_def
  initialState_def loopBody_def nextMeeting_def fillGap_def gap_def addSession_def Let_def isBreakType_def eventColors_def

lemma example_short_day: "scheduleFrom 480 600 1 ''Morning'' [] = Inr
   [\<lparr>type = break, label = ''Wellness Break'', startTime = 480, duration = 45, color = ''bg-[#A9C5D3]''\<rparr>,
    \<lparr>type = focus, label = ''Peak Focus Session'', startTime = 525, duration = 60, color = ''bg-white''\<rparr>,
    \<lparr>type = break, label = ''Short break'', startTime = 585, duration = 15, color = ''bg-[#FADCD5]''\<rparr>]"
  by (simp add: eval_defs sweep.simps)

lemma example_focus_then_meeting:
  "scheduleFrom 480 600 7 ''Morning''
     [\<lparr>summary = ''Standup'', startMins = 570, endMins = 600, durationMinutes = 30\<rparr>] = Inr
   [\<lparr>type = break, label = ''Wellness Break'', startTime = 480, duration = 45, color = ''bg-[#A9C5D3]''\<rparr>,
    \<lparr>type = focus, label = ''Peak Focus Session'', startTime = 525, duration = 45, color = ''bg-white''\<rparr>,
    \<lparr>type = meeting, label = ''Standup'', startTime = 570, duration = 30, color = ''bg-[#FADCD5]''\<rparr>]"
  by (simp add: eval_defs sweep.simps)

lemma example_no_goal:
  "scheduleFrom 480 660 0 ''Morning''
     [\<lparr>summary = ''Standup'', startMins = 525, endMins = 540, durationMinutes = 15\<rparr>] = Inr
   [\<lparr>type = break, label = ''Wellness Break'', startTime = 480, duration = 45, color = ''bg-[#A9C5D3]''\<rparr>,
    \<lparr>type = meeting, label = ''Standup'', startTime = 525, duration = 15, color = ''bg-[#FADCD5]''\<rparr>,
    \<lparr>type = break, label = ''Wellness Break'', startTime = 540, duration = 45, color = ''bg-[#D9CCE8]''\<rparr>,
    \<lparr>type = hobby, label = ''Creative Hobby Block'', startTime = 585, duration = 60, color = ''bg-[#E1EED9]''\<rparr>,
    \<lparr>type = hobby, label = ''Creative Hobby Block'', startTime = 645, duration = 15, color = ''bg-[#E1EED9]''\<rparr>]"
  by (simp add: eval_defs sweep.simps)

lemma parseInt_examples:
  "parseInt ''0'' = Some 0" "parseInt ''00'' = Some 0" "parseInt ''13'' = Some 13"
  "parseInt ''08'' = Some 8" "parseInt ''75'' = Some 75" "parseInt ''06'' = Some 6"
  by (simp_all add: parseInt_def isWhiteSpace_def digitValue_def digitsToNat_def Let_def)


lemma example_scenario_A:
  "scheduleFrom 480 1080 7 ''Morning'' [] = Inr
   [\<lparr>type = break, label = ''Wellness Break'', startTime = 480, duration = 45, color = ''bg-[#A9C5D3]''\<rparr>,
    \<lparr>type = focus, label = ''Peak Focus Session'', startTime = 525, duration = 90, color = ''bg-white''\<rparr>,
    \<lparr>type = break, label = ''Wellness Break'', startTime = 615, duration = 45, color = ''bg-[#FADCD5]''\<rparr>,
    \<lparr>type = focus, label = ''Peak Focus Session'', startTime = 660, duration = 90, color = ''bg-white''\<rparr>,
    \<lparr>type = break, label = ''Wellness Break'', startTime = 750, duration = 45, color = ''bg-[#D9CCE8]''\<rparr>,
    \<lparr>type = focus, label = ''Standard Focus'', startTime = 795, duration = 45, color = ''bg-white''\<rparr>,
    \<lparr>type = break, label = ''Wellness Break'', startTime = 840, duration = 45, color = ''bg-[#F5D5B8]''\<rparr>,
    \<lparr>type = focus, label = ''Standard Focus'', startTime = 885, duration = 45, color = ''bg-white''\<rparr>,
    \<lparr>type = break, label = ''Wellness Break'', startTime = 930, duration = 45, color = ''bg-[#A9C5D3]''\<rparr>,
    \<lparr>type = focus, label = ''Standard Focus'', startTime = 975, duration = 45, color = ''bg-white''\<rparr>,
    \<lparr>type = break, label = ''Wellness Break'', startTime = 1020, duration = 45, color = ''bg-[#FADCD5]''\<rparr>,
    \<lparr>type = focus, label = ''Standard Focus'', startTime = 1065, duration = 15, color = ''bg-white''\<rparr>]"
  by (simp add: eval_defs sweep.simps)

lemma example_goal_with_standup:
  "scheduleFrom 480 780 1 ''Morning''
     [\<lparr>summary = ''Standup'', startMins = 540, endMins = 555, durationMinutes = 15\<rparr>] = Inr
   [\<lparr>type = break, label = ''Wellness Break'', startTime = 480, duration = 45, color = ''bg-[#A9C5D3]''\<rparr>,
    \<lparr>type = focus, label = ''Peak Focus Session'', startTime = 525, duration = 15, color = ''bg-white''\<rparr>,
    \<lparr>type = meeting, label = ''Standup'', startTime = 540, duration = 15, color = ''bg-[#FADCD5]''\<rparr>,
    \<lparr>type = break, label = ''Wellness Break'', startTime = 555, duration = 45, color = ''bg-[#D9CCE8]''\<rparr>,
    \<lparr>type = focus, label = ''Peak Focus Session'', startTime = 600, duration = 45, color = ''bg-white''\<rparr>,
    \<lparr>type = break, label = ''Wellness Break'', startTime = 645, duration = 45, color = ''bg-[#F5D5B8]''\<rparr>,
    \<lparr>type = hobby, label = ''Creative Hobby Block'', startTime = 690, duration = 60, color = ''bg-[#E1EED9]''\<rparr>,
    \<lparr>type = hobby, label = ''Creative Hobby Block'', startTime = 750, duration = 30, color = ''bg-[#E1EED9]''\<rparr>]"
  by (simp add: eval_defs sweep.simps)

section \<open>Properties of the generator of part_001\<close>

subsection \<open>Durations\<close>






subsection \<open>The loop ends for a short break above 0\<close>

lemma fillGap_p1_progress:
  assumes "0 < gap (dayEndMins_p1 props) s" "0 < shortBreak props"
  shows "currentTime s < currentTime (fillGap_p1 props adj ps pe s)"
proof (cases "lastType s = Some focus \<or> lastType s = Some meeting \<or> lastType s = None")
  case True
  then show ?thesis
    using assms by (simp add: fillGap_p1_def Let_def currentTime_addSession_pos)
next
  case False
  then obtain t where t: "lastType s = Some t" "t \<noteq> focus" "t \<noteq> meeting"
    by (cases "lastType s") auto
  show ?thesis
  proof (cases "0 < focusRemaining s")
    case True
    then show ?thesis
      using assms t
      by (simp add: fillGap_p1_def Let_def currentTime_addSession_pos)
  next
    case False
    then show ?thesis
      using assms t by (simp add: fillGap_p1_def Let_def currentTime_addSession_pos)
  qed
qed

lemma loopBody_p1_progress:
  assumes "currentTime s < dayEndMins_p1 props" "0 < shortBreak props"
  shows "(loopBody_p1 props adj ps pe s, s) \<in>
           measures [\<lambda>s. nat (dayEndMins_p1 props - currentTime s),
                     \<lambda>s. if hasLongBreakAnchor s then 0 else 1,
                     \<lambda>s. length (dayEvents s)]"
proof -
  define due where
    "due \<longleftrightarrow> 780 \<le> currentTime s \<and> currentTime s < 840 \<and> \<not> hasLongBreakAnchor s
           \<and> \<not> isBreakType (lastType s)"
  have body: "loopBody_p1 props adj ps pe s =
     (if due
      then (addSession break ''Lunch Break'' (longBreak props) None s)\<lparr> hasLongBreakAnchor := True \<rparr>
      else
        case nextMeeting s of
          None \<Rightarrow> fillGap_p1 props adj ps pe s
        | Some m \<Rightarrow>
            if startMins m = currentTime s
            then (addSession meeting (summary m) (durationMinutes m) None s)
                   \<lparr> dayEvents := tl (dayEvents s) \<rparr>
            else fillGap_p1 props adj ps pe s)"
    unfolding due_def loopBody_p1_def ..
  show ?thesis
  proof (cases due)
    case True
    then have "\<not> hasLongBreakAnchor s" by (simp add: due_def)
    then show ?thesis
      using True assms(1) by (simp add: body currentTime_addSession)
  next
    case nl: False
    show ?thesis
    proof (cases "\<exists>m. nextMeeting s = Some m \<and> startMins m = currentTime s")
      case True
      then obtain m where m: "nextMeeting s = Some m" "startMins m = currentTime s"
        by blast
      have "dayEvents s \<noteq> []" by (rule nextMeeting_Some_nonempty [OF m(1)])
      then show ?thesis
        using nl m assms(1)
        by (simp add: body currentTime_addSession addSession_def)
    next
      case False
      then have eq: "loopBody_p1 props adj ps pe s = fillGap_p1 props adj ps pe s"
        using nl by (cases "nextMeeting s") (simp_all add: body)
      have "0 < gap (dayEndMins_p1 props) s"
        using assms(1) False by (intro gap_positive) auto
      from fillGap_p1_progress [OF this assms(2)] show ?thesis
        using assms(1) by (simp add: eq)
    qed
  qed
qed

lemma sweep_p1_returns:
  assumes "0 < shortBreak props"
  shows "\<exists>t. sweep_p1 props adj ps pe s = Some t"
  unfolding sweep_p1_def
proof (rule wf_while_option_Some [where P = "\<lambda>s. True"])
  show "wf {(t, s). (True \<and> currentTime s < dayEndMins_p1 props) \<and> t = loopBody_p1 props adj ps pe s}"
  proof (rule wf_subset)
    show "wf (measures [\<lambda>s. nat (dayEndMins_p1 props - currentTime s),
                     \<lambda>s. if hasLongBreakAnchor s then 0 else 1,
                     \<lambda>s. length (dayEvents s)])"
      by simp
    show "{(t, s). (True \<and> currentTime s < dayEndMins_p1 props) \<and> t = loopBody_p1 props adj ps pe s}
            \<subseteq> measures [\<lambda>s. nat (dayEndMins_p1 props - currentTime s),
                     \<lambda>s. if hasLongBreakAnchor s then 0 else 1,
                     \<lambda>s. length (dayEvents s)]"
      using loopBody_p1_progress [OF _ assms] by auto
  qed
qed simp_all

lemma generateSchedule_returns:
  assumes "0 < shortBreak props"
  shows "\<exists>r. generateSchedule props manualAdjustment day overrideGoal evs = Some r"
proof (cases "peakRange_p1 (peakWindow_p1 props)")
  case (Inl err)
  then show ?thesis by (simp add: generateSchedule_def)
next
  case (Inr r)
  obtain ps pe where "r = (ps, pe)" by (cases r)
  with Inr sweep_p1_returns [OF assms] show ?thesis
    by (fastforce simp: generateSchedule_def)
qed

text \<open>With a short break of 0 minutes and a day of 20 minutes the loop body changes nothing.\<close>

lemma example_p1_endless:
  "loopBody_p1
     \<lparr>dayStartMins_p1 = 480, dayEndMins_p1 = 500, focusGoal_p1 = 1, peakWindow_p1 = ''Morning'',
      shortBreak = 0, longBreak = 30\<rparr> 0 480 720 (initialState 480 1 []) = initialState 480 1 []"
  by (simp add: loopBody_p1_def fillGap_p1_def nextMeeting_def gap_def addSession_def
        initialState_def isBreakType_def Let_def)

lemma while_option_fixpoint:
  assumes "b s" "c s = s"
  shows "while_option b c s = None"
proof -
  have "(c ^^ k) s = s" for k
    by (induction k) (simp_all add: assms(2))
  then show ?thesis
    using assms(1) by (simp add: while_option_def)
qed

lemma example_p1_endless_loop:
  "generateSchedule
     \<lparr>dayStartMins_p1 = 480, dayEndMins_p1 = 500, focusGoal_p1 = 1, peakWindow_p1 = ''Morning'',
      shortBreak = 0, longBreak = 30\<rparr> Map.empty ''20260105'' None [] = None"
proof -
  have "sweep_p1
     \<lparr>dayStartMins_p1 = 480, dayEndMins_p1 = 500, focusGoal_p1 = 1, peakWindow_p1 = ''Morning'',
      shortBreak = 0, longBreak = 30\<rparr> 0 480 720 (initialState 480 1 []) = None"
    unfolding sweep_p1_def
    by (rule while_option_fixpoint) (simp_all add: example_p1_endless, simp add: initialState_def)
  then show ?thesis
    by (simp add: generateSchedule_def peakRange_p1_def getProperty_def peakRanges_p1_def
          effectiveFocusGoal_def currentAdj_def)
qed

subsection \<open>Evaluation on a concrete day\<close>



section \<open>Properties of the generator of part_002\<close>

lemma sweep_p2_invariant:
  assumes "P s"
    and "\<And>t. P t \<Longrightarrow> P (loopBody_p2 cfg m t)"
  shows "P (sweep_p2 cfg m s)"
  using assms
proof (induction cfg m s rule: sweep_p2.induct)
  case (1 cfg m s)
  show ?case
  proof (cases "currentTime_p2 s < dayEndMins_p2 cfg \<and> safety s < 150")
    case True
    have step: "P (loopBody_p2 cfg m s)"
      by (rule "1.prems"(2) [OF "1.prems"(1)])
    have "P (sweep_p2 cfg m (loopBody_p2 cfg m s))"
      by (rule "1.IH" [OF True step "1.prems"(2)])
    moreover have "sweep_p2 cfg m s = sweep_p2 cfg m (loopBody_p2 cfg m s)"
      using True by (subst sweep_p2.simps) auto
    ultimately show ?thesis by simp
  next
    case False
    then have "sweep_p2 cfg m s = s"
      by (subst sweep_p2.simps) auto
    then show ?thesis
      using "1.prems"(1) by simp
  qed
qed

lemma getEventTypeFromSummary_not_focus: "getEventTypeFromSummary summ \<noteq> focus"
  by (simp add: getEventTypeFromSummary_def Let_def)

lemma type_mkItem: "type (mkItem ty lbl start dur) = ty"
  and duration_mkItem: "duration (mkItem ty lbl start dur) = dur"
  by (simp_all add: mkItem_def)


lemma focusMinutes_addItem:
  "focusMinutes (addItem item its) =
     focusMinutes its + (if type item = focus then duration item else 0)"
proof (cases its rule: rev_cases)
  case Nil
  then show ?thesis by (simp add: addItem_def focusMinutes_def)
next
  case (snoc ys y)
  then show ?thesis
    by (auto simp: addItem_def Let_def focusMinutes_def BREAK_TYPES_def)
qed

lemma consistentEnds_activeDayEvents: "consistentEnds (activeDayEvents evs)"
  by (simp add: consistentEnds_def activeDayEvents_def list_all_iff)




lemma budget_fillGap_p2:
  assumes "budget_p2 g s"
  shows "budget_p2 g (fillGap_p2 cfg s)"
  using assms
  by (auto simp: fillGap_p2_def Let_def budget_p2_def focusMinutes_addItem type_mkItem
        duration_mkItem)

lemma budget_loopBody_p2:
  assumes "budget_p2 g s"
  shows "budget_p2 g (loopBody_p2 cfg m s)"
proof -
  have "budget_p2 g (s\<lparr> safety := safety s + 1 \<rparr>)"
    using assms by (simp add: budget_p2_def)
  from budget_fillGap_p2 [OF this] assms show ?thesis
    by (simp add: loopBody_p2_def Let_def budget_p2_def focusMinutes_addItem type_mkItem
          duration_mkItem getEventTypeFromSummary_not_focus split: option.split)
qed

lemma sum_list_insort_key:
  fixes g :: "'a \<Rightarrow> int"
  shows "sum_list (map g (insort_key f x xs)) = g x + sum_list (map g xs)"
  by (induction xs) auto

lemma sum_list_sort_key:
  fixes g :: "'a \<Rightarrow> int"
  shows "sum_list (map g (sort_key f xs)) = sum_list (map g xs)"
  by (induction xs) (simp_all add: sum_list_insort_key)

lemma focusMinutes_sort_key: "focusMinutes (sort_key f bs) = focusMinutes bs"
  by (simp add: focusMinutes_def filter_sort sum_list_sort_key)

lemma list_all_sort_key: "list_all P (sort_key f bs) = list_all P bs"
  by (simp add: list_all_iff)

lemma schedule_p2_unfold:
  obtains dayStartMins dayEndMins lunched where
    "(dayStartMins, dayEndMins) = dayWindow userDayStart userDayEnd (activeDayEvents evs0)"
    "schedule_p2 userDayStart userDayEnd focusGoal peakWindow settings evs0 =
       sort_key startTime
         (items_p2
            (sweep_p2 (config_of dayEndMins peakWindow settings (activeDayEvents evs0))
               (dayStartMins \<ge> 420 \<and> dayStartMins < 540)
               \<lparr> items_p2 = [], currentTime_p2 = dayStartMins, safety = 0,
                 remainingFocusMinutes =
                   max 0 (focusGoal * 60 - totalMeetingsMinutes (activeDayEvents evs0)),
                 hasBreakfastBeenAdded = False, hasLunchBeenAdded = lunched \<rparr>))"
  by (cases "dayWindow userDayStart userDayEnd (activeDayEvents evs0)")
     (simp add: schedule_p2_def config_of_def Let_def)


lemma schedule_p2_budget:
  "focusMinutes (schedule_p2 userDayStart userDayEnd focusGoal peakWindow settings evs0)
     \<le> max 0 (focusGoal * 60 - totalMeetingsMinutes (activeDayEvents evs0))"
proof -
  obtain ds de l where
    eq: "schedule_p2 userDayStart userDayEnd focusGoal peakWindow settings evs0 =
       sort_key startTime
         (items_p2
            (sweep_p2 (config_of de peakWindow settings (activeDayEvents evs0))
               (ds \<ge> 420 \<and> ds < 540)
               \<lparr> items_p2 = [], currentTime_p2 = ds, safety = 0,
                 remainingFocusMinutes =
                   max 0 (focusGoal * 60 - totalMeetingsMinutes (activeDayEvents evs0)),
                 hasBreakfastBeenAdded = False, hasLunchBeenAdded = l \<rparr>))"
    by (rule schedule_p2_unfold)
  let ?g = "max 0 (focusGoal * 60 - totalMeetingsMinutes (activeDayEvents evs0))"
  have "budget_p2 ?g (sweep_p2 (config_of de peakWindow settings (activeDayEvents evs0))
               (ds \<ge> 420 \<and> ds < 540)
               \<lparr> items_p2 = [], currentTime_p2 = ds, safety = 0,
                 remainingFocusMinutes = ?g,
                 hasBreakfastBeenAdded = False, hasLunchBeenAdded = l \<rparr>)"
    by (rule sweep_p2_invariant [where P = "budget_p2 ?g"])
       (simp_all add: budget_loopBody_p2, simp add: budget_p2_def focusMinutes_def)
  then show ?thesis
    by (simp add: eq focusMinutes_sort_key budget_p2_def)
qed

lemma foldl_add_sum_list:
  fixes g :: "'a \<Rightarrow> int"
  shows "foldl (\<lambda>acc x. acc + g x) a xs = a + sum_list (map g xs)"
  by (induction xs arbitrary: a) simp_all

lemma totalMeetingsMinutes_nonneg:
  assumes "list_all (\<lambda>e. 0 \<le> durationMinutes e) evs"
  shows "0 \<le> totalMeetingsMinutes (activeDayEvents evs)"
proof -
  have "0 \<le> sum_list (map durationMinutes (filter P (activeDayEvents evs)))" for P
    using assms by (induction evs) (auto simp: activeDayEvents_def)
  then show ?thesis by (simp add: totalMeetingsMinutes_def foldl_add_sum_list)
qed

lemma noFocus_addItem:
  assumes "list_all (\<lambda>b. type b \<noteq> focus) its" "type item \<noteq> focus"
  shows "list_all (\<lambda>b. type b \<noteq> focus) (addItem item its)"
proof (cases its rule: rev_cases)
  case Nil
  then show ?thesis using assms by (simp add: addItem_def)
next
  case (snoc ys y)
  then show ?thesis using assms by (simp add: addItem_def Let_def)
qed

lemma focusFree_fillGap_p2:
  assumes "focusFree_p2 s"
  shows "focusFree_p2 (fillGap_p2 cfg s)"
  using assms
  by (simp add: fillGap_p2_def Let_def focusFree_p2_def noFocus_addItem type_mkItem)

lemma focusFree_loopBody_p2:
  assumes "focusFree_p2 s"
  shows "focusFree_p2 (loopBody_p2 cfg m s)"
proof -
  have "focusFree_p2 (s\<lparr> safety := safety s + 1 \<rparr>)"
    using assms by (simp add: focusFree_p2_def)
  from focusFree_fillGap_p2 [OF this] assms show ?thesis
    by (simp add: loopBody_p2_def Let_def focusFree_p2_def noFocus_addItem type_mkItem
          getEventTypeFromSummary_not_focus split: option.split)
qed

lemma schedule_p2_no_goal:
  assumes "list_all (\<lambda>e. 0 \<le> durationMinutes e) evs0"
  shows "list_all (\<lambda>b. type b \<noteq> focus)
           (schedule_p2 userDayStart userDayEnd 0 peakWindow settings evs0)"
proof -
  obtain ds de l where
    eq: "schedule_p2 userDayStart userDayEnd 0 peakWindow settings evs0 =
       sort_key startTime
         (items_p2
            (sweep_p2 (config_of de peakWindow settings (activeDayEvents evs0))
               (ds \<ge> 420 \<and> ds < 540)
               \<lparr> items_p2 = [], currentTime_p2 = ds, safety = 0,
                 remainingFocusMinutes =
                   max 0 (0 * 60 - totalMeetingsMinutes (activeDayEvents evs0)),
                 hasBreakfastBeenAdded = False, hasLunchBeenAdded = l \<rparr>))"
    by (rule schedule_p2_unfold)
  have "focusFree_p2 (sweep_p2 (config_of de peakWindow settings (activeDayEvents evs0))
               (ds \<ge> 420 \<and> ds < 540)
               \<lparr> items_p2 = [], currentTime_p2 = ds, safety = 0,
                 remainingFocusMinutes =
                   max 0 (0 * 60 - totalMeetingsMinutes (activeDayEvents evs0)),
                 hasBreakfastBeenAdded = False, hasLunchBeenAdded = l \<rparr>)"
    using totalMeetingsMinutes_nonneg [OF assms]
    by (intro sweep_p2_invariant [where P = focusFree_p2])
       (simp_all add: focusFree_loopBody_p2, simp add: focusFree_p2_def)
  then show ?thesis
    by (simp add: eq list_all_sort_key focusFree_p2_def)
qed

lemma dayWindow_empty_day:
  assumes "list_all (\<lambda>e. u \<le> startMins e \<and> startMins e + durationMinutes e \<le> u) evs0"
    and "(ds, de) = dayWindow u u (activeDayEvents evs0)"
  shows "de \<le> ds"
proof (cases evs0 rule: rev_cases)
  case Nil
  then show ?thesis
    using assms(2) by (simp add: dayWindow_def activeDayEvents_def DAY_START_LIMIT_def DAY_END_LIMIT_def)
next
  case (snoc ys y)
  have hd: "u \<le> startMins (hd (activeDayEvents evs0))"
    using assms(1) snoc by (cases ys) (simp_all add: activeDayEvents_def)
  have lst: "endMins (last (activeDayEvents evs0)) \<le> u"
    using assms(1) snoc by (simp add: activeDayEvents_def)
  have ne: "length (activeDayEvents evs0) > 0"
    using snoc by (simp add: activeDayEvents_def)
  show ?thesis
    using assms(2) hd lst ne
    by (simp add: dayWindow_def Let_def DAY_START_LIMIT_def DAY_END_LIMIT_def)
qed

lemma schedule_p2_empty_day:
  assumes "list_all (\<lambda>e. u \<le> startMins e \<and> startMins e + durationMinutes e \<le> u) evs0"
  shows "schedule_p2 u u focusGoal peakWindow settings evs0 = []"
proof -
  obtain ds de l where
    w: "(ds, de) = dayWindow u u (activeDayEvents evs0)" and
    eq: "schedule_p2 u u focusGoal peakWindow settings evs0 =
       sort_key startTime
         (items_p2
            (sweep_p2 (config_of de peakWindow settings (activeDayEvents evs0))
               (ds \<ge> 420 \<and> ds < 540)
               \<lparr> items_p2 = [], currentTime_p2 = ds, safety = 0,
                 remainingFocusMinutes =
                   max 0 (focusGoal * 60 - totalMeetingsMinutes (activeDayEvents evs0)),
                 hasBreakfastBeenAdded = False, hasLunchBeenAdded = l \<rparr>))"
    by (rule schedule_p2_unfold)
  have "de \<le> ds" by (rule dayWindow_empty_day [OF assms w])
  then show ?thesis
    by (simp add: eq sweep_p2.simps config_of_def)
qed

subsection \<open>The way to the goal\<close>

lemma gapEnd_after:
  assumes "t < dayEndMins_p2 cfg"
  shows "t < gapEnd cfg t"
  using assms by (auto simp: gapEnd_def nextEvent_def find_Some_iff split: option.splits)

lemma gapEnd_cases:
  obtains (dayEnd) "gapEnd cfg t = dayEndMins_p2 cfg"
  | (event) nx where "nx \<in> set (events_p2 cfg)" "t < startMins nx" "gapEnd cfg t = startMins nx"
    "startMins nx \<le> dayEndMins_p2 cfg"
proof (cases "nextEvent (events_p2 cfg) t")
  case None
  then have "gapEnd cfg t = dayEndMins_p2 cfg" by (simp add: gapEnd_def)
  then show ?thesis by (rule dayEnd)
next
  case (Some nx)
  then have nx: "nx \<in> set (events_p2 cfg)" "t < startMins nx"
    by (auto simp: nextEvent_def find_Some_iff)
  show ?thesis
  proof (cases "startMins nx \<le> dayEndMins_p2 cfg")
    case True
    then have "gapEnd cfg t = startMins nx" using Some by (simp add: gapEnd_def)
    with nx True show ?thesis by (intro event [of nx]) simp_all
  next
    case False
    then have "gapEnd cfg t = dayEndMins_p2 cfg" using Some by (simp add: gapEnd_def)
    then show ?thesis by (rule dayEnd)
  qed
qed

text \<open>The cursor, the focus budget and the flags after the gap branch.\<close>

lemma fillGap_p2_cases [consumes 1, case_names focus idle break]:
  assumes "currentTime_p2 s < dayEndMins_p2 cfg"
  obtains
    (focus) d w where
      "0 < remainingFocusMinutes s" "20 \<le> gapEnd cfg (currentTime_p2 s) - currentTime_p2 s"
      "d = min (if isPeakAt (peak_p2 cfg) (currentTime_p2 s) then 90 else 45)
             (min (gapEnd cfg (currentTime_p2 s) - currentTime_p2 s) (remainingFocusMinutes s))"
      "w = 0 \<or> w = (if isPeakAt (peak_p2 cfg) (currentTime_p2 s) then 15 else 10) \<and>
                 currentTime_p2 s + d < gapEnd cfg (currentTime_p2 s)"
      "currentTime_p2 (fillGap_p2 cfg s) = currentTime_p2 s + d + w"
      "remainingFocusMinutes (fillGap_p2 cfg s) = remainingFocusMinutes s - d"
  | (idle)
      "remainingFocusMinutes s \<le> 0"
      "remainingFocusMinutes (fillGap_p2 cfg s) = remainingFocusMinutes s"
  | (break)
      "0 < remainingFocusMinutes s"
      "gapEnd cfg (currentTime_p2 s) - currentTime_p2 s < 20"
      "currentTime_p2 (fillGap_p2 cfg s) = gapEnd cfg (currentTime_p2 s)"
      "remainingFocusMinutes (fillGap_p2 cfg s) = remainingFocusMinutes s"
proof -
  define t where "t = currentTime_p2 s"
  define g where "g = gapEnd cfg t"
  have gt: "t < g" unfolding g_def using assms gapEnd_after by (simp add: t_def)
  show ?thesis
  proof (cases "0 < remainingFocusMinutes s")
    case False
    then have le: "remainingFocusMinutes s \<le> 0" by simp
    have "remainingFocusMinutes (fillGap_p2 cfg s) = remainingFocusMinutes s"
      using False by (simp add: fillGap_p2_def Let_def)
    with le show ?thesis by (rule idle)
  next
    case rem: True
    show ?thesis
    proof (cases "20 \<le> g - t")
      case False
      then have lt: "gapEnd cfg (currentTime_p2 s) - currentTime_p2 s < 20"
        by (simp add: g_def t_def)
      have "currentTime_p2 (fillGap_p2 cfg s) = gapEnd cfg (currentTime_p2 s)"
        "remainingFocusMinutes (fillGap_p2 cfg s) = remainingFocusMinutes s"
        using lt gt by (simp_all add: fillGap_p2_def Let_def g_def t_def)
      with rem lt show ?thesis by (rule break)
    next
      case True
      define d where "d = min (if isPeakAt (peak_p2 cfg) t then 90 else 45)
             (min (g - t) (remainingFocusMinutes s))"
      define w where "w = (if t + d < g \<and> g - (t + d) \<ge> (if isPeakAt (peak_p2 cfg) t then 15 else 10)
                           then (if isPeakAt (peak_p2 cfg) t then 15 else 10) else (0::int))"
      have ge: "20 \<le> gapEnd cfg (currentTime_p2 s) - currentTime_p2 s"
        using True by (simp add: g_def t_def)
      have d: "d = min (if isPeakAt (peak_p2 cfg) (currentTime_p2 s) then 90 else 45)
             (min (gapEnd cfg (currentTime_p2 s) - currentTime_p2 s) (remainingFocusMinutes s))"
        by (simp add: d_def g_def t_def)
      have w: "w = 0 \<or> w = (if isPeakAt (peak_p2 cfg) (currentTime_p2 s) then 15 else 10) \<and>
                 currentTime_p2 s + d < gapEnd cfg (currentTime_p2 s)"
        by (simp add: w_def g_def t_def)
      have "currentTime_p2 (fillGap_p2 cfg s) = currentTime_p2 s + d + w"
        "remainingFocusMinutes (fillGap_p2 cfg s) = remainingFocusMinutes s - d"
        using rem ge gt
        by (simp_all add: fillGap_p2_def Let_def d w_def g_def t_def)
      with rem ge d w show ?thesis by (rule focus)
    qed
  qed
qed

lemma fillGap_p2_other:
  "safety (fillGap_p2 cfg s) = safety s"
  "hasBreakfastBeenAdded (fillGap_p2 cfg s) = hasBreakfastBeenAdded s"
  "hasLunchBeenAdded (fillGap_p2 cfg s) = hasLunchBeenAdded s"
  by (simp_all add: fillGap_p2_def Let_def)

lemma loopBody_p2_safety: "safety (loopBody_p2 cfg m s) = safety s + 1"
  by (simp add: loopBody_p2_def fillGap_p2_def Let_def split: option.split)

text \<open>The cursor, the focus budget and the flags after one pass through the loop body.\<close>

lemma loopBody_p2_cases [consumes 1, case_names breakfast lunch event focus idle break]:
  assumes "currentTime_p2 s < dayEndMins_p2 cfg"
  obtains
    (breakfast)
      "\<not> hasBreakfastBeenAdded s"
      "currentTime_p2 (loopBody_p2 cfg m s) = currentTime_p2 s + 30"
      "remainingFocusMinutes (loopBody_p2 cfg m s) = remainingFocusMinutes s"
      "hasBreakfastBeenAdded (loopBody_p2 cfg m s)"
      "hasLunchBeenAdded (loopBody_p2 cfg m s) = hasLunchBeenAdded s"
  | (lunch)
      "\<not> hasLunchBeenAdded s"
      "currentTime_p2 (loopBody_p2 cfg m s) = currentTime_p2 s + 45"
      "remainingFocusMinutes (loopBody_p2 cfg m s) = remainingFocusMinutes s"
      "hasBreakfastBeenAdded (loopBody_p2 cfg m s) = hasBreakfastBeenAdded s"
      "hasLunchBeenAdded (loopBody_p2 cfg m s)"
  | (event) ev where
      "eventAt (events_p2 cfg) (currentTime_p2 s) = Some ev"
      "currentTime_p2 (loopBody_p2 cfg m s) = endMins ev"
      "remainingFocusMinutes (loopBody_p2 cfg m s) = remainingFocusMinutes s"
      "hasBreakfastBeenAdded (loopBody_p2 cfg m s) = hasBreakfastBeenAdded s"
      "hasLunchBeenAdded (loopBody_p2 cfg m s) = hasLunchBeenAdded s"
  | (focus) d w where
      "0 < remainingFocusMinutes s" "20 \<le> gapEnd cfg (currentTime_p2 s) - currentTime_p2 s"
      "d = min (if isPeakAt (peak_p2 cfg) (currentTime_p2 s) then 90 else 45)
             (min (gapEnd cfg (currentTime_p2 s) - currentTime_p2 s) (remainingFocusMinutes s))"
      "w = 0 \<or> w = (if isPeakAt (peak_p2 cfg) (currentTime_p2 s) then 15 else 10) \<and>
                 currentTime_p2 s + d < gapEnd cfg (currentTime_p2 s)"
      "currentTime_p2 (loopBody_p2 cfg m s) = currentTime_p2 s + d + w"
      "remainingFocusMinutes (loopBody_p2 cfg m s) = remainingFocusMinutes s - d"
      "hasBreakfastBeenAdded (loopBody_p2 cfg m s) = hasBreakfastBeenAdded s"
      "hasLunchBeenAdded (loopBody_p2 cfg m s) = hasLunchBeenAdded s"
  | (idle)
      "remainingFocusMinutes s \<le> 0"
      "remainingFocusMinutes (loopBody_p2 cfg m s) = remainingFocusMinutes s"
  | (break)
      "0 < remainingFocusMinutes s"
      "gapEnd cfg (currentTime_p2 s) - currentTime_p2 s < 20"
      "currentTime_p2 (loopBody_p2 cfg m s) = gapEnd cfg (currentTime_p2 s)"
      "remainingFocusMinutes (loopBody_p2 cfg m s) = remainingFocusMinutes s"
      "hasBreakfastBeenAdded (loopBody_p2 cfg m s) = hasBreakfastBeenAdded s"
      "hasLunchBeenAdded (loopBody_p2 cfg m s) = hasLunchBeenAdded s"
proof -
  define s1 where "s1 = s\<lparr> safety := safety s + 1 \<rparr>"
  define bdue where "bdue \<longleftrightarrow> m \<and> \<not> hasBreakfastBeenAdded s \<and> currentTime_p2 s \<ge> 420
      \<and> currentTime_p2 s < 540 \<and> eventAt (events_p2 cfg) (currentTime_p2 s) = None"
  define ldue where "ldue \<longleftrightarrow> \<not> hasLunchBeenAdded s \<and> currentTime_p2 s \<ge> 720
      \<and> currentTime_p2 s < 840 \<and> eventAt (events_p2 cfg) (currentTime_p2 s) = None"
  have s1: "currentTime_p2 s1 = currentTime_p2 s" "remainingFocusMinutes s1 = remainingFocusMinutes s"
    "hasBreakfastBeenAdded s1 = hasBreakfastBeenAdded s" "hasLunchBeenAdded s1 = hasLunchBeenAdded s"
    by (simp_all add: s1_def)
  have body: "loopBody_p2 cfg m s =
     (if bdue
      then s1\<lparr> items_p2 := addItem (mkItem lunch ''Fuel & Prep: Breakfast'' (currentTime_p2 s) 30) (items_p2 s1),
              currentTime_p2 := currentTime_p2 s + 30,
              hasBreakfastBeenAdded := True \<rparr>
      else if ldue
      then s1\<lparr> items_p2 := addItem (mkItem lunch ''Lunch Break'' (currentTime_p2 s) 45) (items_p2 s1),
              currentTime_p2 := currentTime_p2 s + 45,
              hasLunchBeenAdded := True \<rparr>
      else
        case eventAt (events_p2 cfg) (currentTime_p2 s) of
          Some ev \<Rightarrow>
            s1\<lparr> items_p2 := addItem
                              (mkItem (getEventTypeFromSummary (summary ev)) (summary ev)
                                 (startMins ev) (durationMinutes ev))
                              (items_p2 s1),
                currentTime_p2 := endMins ev \<rparr>
        | None \<Rightarrow> fillGap_p2 cfg s1)"
    unfolding bdue_def ldue_def s1_def loopBody_p2_def Let_def by simp
  show ?thesis
  proof (cases bdue)
    case True
    then have "\<not> hasBreakfastBeenAdded s" by (simp add: bdue_def)
    moreover have "currentTime_p2 (loopBody_p2 cfg m s) = currentTime_p2 s + 30"
      "remainingFocusMinutes (loopBody_p2 cfg m s) = remainingFocusMinutes s"
      "hasBreakfastBeenAdded (loopBody_p2 cfg m s)"
      "hasLunchBeenAdded (loopBody_p2 cfg m s) = hasLunchBeenAdded s"
      using True by (simp_all add: body s1)
    ultimately show ?thesis by (rule breakfast)
  next
    case nb: False
    show ?thesis
    proof (cases ldue)
      case True
      then have "\<not> hasLunchBeenAdded s" by (simp add: ldue_def)
      moreover have "currentTime_p2 (loopBody_p2 cfg m s) = currentTime_p2 s + 45"
        "remainingFocusMinutes (loopBody_p2 cfg m s) = remainingFocusMinutes s"
        "hasBreakfastBeenAdded (loopBody_p2 cfg m s) = hasBreakfastBeenAdded s"
        "hasLunchBeenAdded (loopBody_p2 cfg m s)"
        using True nb by (simp_all add: body s1)
      ultimately show ?thesis by (rule lunch)
    next
      case nl: False
      show ?thesis
      proof (cases "eventAt (events_p2 cfg) (currentTime_p2 s)")
        case (Some ev)
        have "currentTime_p2 (loopBody_p2 cfg m s) = endMins ev"
          "remainingFocusMinutes (loopBody_p2 cfg m s) = remainingFocusMinutes s"
          "hasBreakfastBeenAdded (loopBody_p2 cfg m s) = hasBreakfastBeenAdded s"
          "hasLunchBeenAdded (loopBody_p2 cfg m s) = hasLunchBeenAdded s"
          using Some nb nl by (simp_all add: body s1)
        with Some show ?thesis by (rule event)
      next
        case None
        then have eq: "loopBody_p2 cfg m s = fillGap_p2 cfg s1"
          using nb nl by (simp add: body)
        have lt: "currentTime_p2 s1 < dayEndMins_p2 cfg" using assms by (simp add: s1)
        from lt show ?thesis
        proof (cases rule: fillGap_p2_cases)
          case (focus d w)
          show ?thesis
            by (rule that(4) [of d w])
               (use focus in \<open>simp_all add: eq s1 fillGap_p2_other\<close>)
        next
          case idle
          show ?thesis
            by (rule that(5)) (use idle in \<open>simp_all add: eq s1\<close>)
        next
          case break
          show ?thesis
            by (rule that(6)) (use break in \<open>simp_all add: eq s1 fillGap_p2_other\<close>)
        qed
      qed
    qed
  qed
qed

lemma eventsAhead_p2_mono: "t \<le> t' \<Longrightarrow> eventsAhead_p2 evs t' \<le> eventsAhead_p2 evs t"
  using length_filter_mono [of "\<lambda>e. t' < startMins e" "\<lambda>e. t < startMins e" evs]
  by (simp add: eventsAhead_p2_def)

lemma eventsAhead_p2_passed:
  assumes "nx \<in> set evs" "t < startMins nx" "startMins nx \<le> t'"
  shows "eventsAhead_p2 evs t' \<le> eventsAhead_p2 evs t - 1"
  using assms length_filter_strict [of "\<lambda>e. t' < startMins e" "\<lambda>e. t < startMins e" nx evs]
  by (simp add: eventsAhead_p2_def)

lemma openEvents_mono: "t \<le> t' \<Longrightarrow> openEvents evs t' \<le> openEvents evs t"
  using length_filter_mono [of "\<lambda>e. t' < endMins e" "\<lambda>e. t < endMins e" evs]
  by (simp add: openEvents_def)

lemma openEvents_passed:
  assumes "ev \<in> set evs" "t < endMins ev" "endMins ev \<le> t'"
  shows "openEvents evs t' \<le> openEvents evs t - 1"
  using assms length_filter_strict [of "\<lambda>e. t' < endMins e" "\<lambda>e. t < endMins e" ev evs]
  by (simp add: openEvents_def)

lemma openMinutes_mono:
  assumes "list_all (\<lambda>e. 0 \<le> durationMinutes e) evs" "t \<le> t'"
  shows "openMinutes evs t' \<le> openMinutes evs t"
  using assms by (induction evs) (auto simp: openMinutes_def)

lemma openMinutes_passed:
  assumes "list_all (\<lambda>e. 0 \<le> durationMinutes e) evs" "ev \<in> set evs"
    "t < endMins ev" "endMins ev \<le> t'"
  shows "openMinutes evs t' + durationMinutes ev \<le> openMinutes evs t"
  using assms
proof (induction evs)
  case Nil
  then show ?case by simp
next
  case (Cons e evs)
  have nn: "list_all (\<lambda>e. 0 \<le> durationMinutes e) evs" and e0: "0 \<le> durationMinutes e"
    using Cons.prems(1) by simp_all
  have le: "t \<le> t'" using Cons.prems(3,4) by simp
  have mono: "openMinutes evs t' \<le> openMinutes evs t"
    by (rule openMinutes_mono [OF nn le])
  show ?case
  proof (cases "ev = e")
    case True
    then show ?thesis
      using Cons.prems(3,4) mono by (simp add: openMinutes_def)
  next
    case False
    then have "ev \<in> set evs" using Cons.prems(2) by simp
    from Cons.IH [OF nn this Cons.prems(3,4)] show ?thesis
      using e0 le by (auto simp: openMinutes_def)
  qed
qed

lemma openMinutes_le_total:
  assumes "list_all (\<lambda>e. 0 \<le> durationMinutes e) evs"
  shows "openMinutes evs t \<le> sum_list (map durationMinutes evs)"
  using assms by (induction evs) (auto simp: openMinutes_def)

lemma openMinutes_nonneg:
  assumes "list_all (\<lambda>e. 0 \<le> durationMinutes e) evs"
  shows "0 \<le> openMinutes evs t"
  using assms by (induction evs) (auto simp: openMinutes_def)

lemma eventAt_SomeD:
  assumes "eventAt evs t = Some ev"
  shows "ev \<in> set evs" "startMins ev \<le> t" "t < endMins ev"
  using assms by (auto simp: eventAt_def find_Some_iff)

lemma dayOver_mono:
  "currentTime_p2 s \<le> currentTime_p2 s' \<Longrightarrow> dayOver cfg s \<le> dayOver cfg s'"
  by (simp add: dayOver_def)

lemma reach_p2_loopBody:
  assumes inv: "reach_p2 g d0 cfg s"
    and lt: "currentTime_p2 s < dayEndMins_p2 cfg"
    and nn: "list_all (\<lambda>e. 0 \<le> durationMinutes e) (events_p2 cfg)"
    and ce: "consistentEnds (events_p2 cfg)"
  shows "reach_p2 g d0 cfg (loopBody_p2 cfg m s)"
proof -
  let ?s' = "loopBody_p2 cfg m s"
  let ?evs = "events_p2 cfg"
  let ?t = "currentTime_p2 s"
  let ?t' = "currentTime_p2 ?s'"
  have sf: "int (safety ?s') = int (safety s) + 1"
    by (simp add: loopBody_p2_safety)
  have over0: "dayOver cfg s = 0" using lt by (simp add: dayOver_def)
  have over': "0 \<le> dayOver cfg ?s'" by (simp add: dayOver_def)
  have step: "reach_p2 g d0 cfg ?s'"
    if le: "?t \<le> ?t'"
      and rem: "remainingFocusMinutes ?s' \<le> remainingFocusMinutes s"
      and I: "0 < remainingFocusMinutes ?s' \<Longrightarrow>
           9 * ?t' + 9 * openMinutes ?evs ?t' + 180 * eventsAhead_p2 ?evs ?t'
                + 11 * remainingFocusMinutes ?s' + 9 * mealMinutes s
             \<le> 9 * ?t + 9 * openMinutes ?evs ?t + 180 * eventsAhead_p2 ?evs ?t
                + 11 * remainingFocusMinutes s
                + 9 * mealMinutes ?s' + 180 * dayOver cfg ?s'"
      and J: "0 < remainingFocusMinutes ?s' \<Longrightarrow>
           20 + 20 * eventsAhead_p2 ?evs ?t' + 20 * openEvents ?evs ?t'
                + remainingFocusMinutes ?s' + 20 * meals s
             \<le> 20 * eventsAhead_p2 ?evs ?t + 20 * openEvents ?evs ?t
                + remainingFocusMinutes s
                + 20 * meals ?s' + 20 * dayOver cfg ?s'"
  proof -
    show ?thesis
      unfolding reach_p2_def
    proof (intro impI conjI)
      assume r: "0 < remainingFocusMinutes ?s'"
      then have r0: "0 < remainingFocusMinutes s" using rem by simp
      from inv r0 have
        i: "9 * ?t + 9 * openMinutes ?evs ?t + 180 * eventsAhead_p2 ?evs ?t
            + 11 * remainingFocusMinutes s
          \<le> 9 * d0 + 11 * g + 9 * mealMinutes s
            + 9 * sum_list (map durationMinutes ?evs)
            + 180 * int (length ?evs) + 180 * dayOver cfg s"
        and j: "20 * int (safety s) + 20 * eventsAhead_p2 ?evs ?t + 20 * openEvents ?evs ?t
            + remainingFocusMinutes s
          \<le> g + 20 * meals s
            + 40 * int (length ?evs) + 20 * dayOver cfg s"
        by (simp_all add: reach_p2_def)
      show "9 * ?t' + 9 * openMinutes ?evs ?t' + 180 * eventsAhead_p2 ?evs ?t'
            + 11 * remainingFocusMinutes ?s'
          \<le> 9 * d0 + 11 * g + 9 * mealMinutes ?s'
            + 9 * sum_list (map durationMinutes ?evs)
            + 180 * int (length ?evs) + 180 * dayOver cfg ?s'"
        using i I [OF r] over0 by linarith
      show "20 * int (safety ?s') + 20 * eventsAhead_p2 ?evs ?t' + 20 * openEvents ?evs ?t'
            + remainingFocusMinutes ?s'
          \<le> g + 20 * meals ?s'
            + 40 * int (length ?evs) + 20 * dayOver cfg ?s'"
        using j J [OF r] over0 sf by linarith
    qed
  qed
  from lt show ?thesis
  proof (cases rule: loopBody_p2_cases [where m = m])
    case breakfast
    have le: "?t \<le> ?t'" using breakfast by simp
    have mm: "mealMinutes ?s' = mealMinutes s + 30" "meals ?s' = meals s + 1"
      using breakfast by (simp_all add: mealMinutes_def meals_def)
    show ?thesis
    proof (rule step [OF le])
      show "remainingFocusMinutes ?s' \<le> remainingFocusMinutes s" using breakfast by simp
      show "9 * ?t' + 9 * openMinutes ?evs ?t' + 180 * eventsAhead_p2 ?evs ?t'
                + 11 * remainingFocusMinutes ?s' + 9 * mealMinutes s
             \<le> 9 * ?t + 9 * openMinutes ?evs ?t + 180 * eventsAhead_p2 ?evs ?t
                + 11 * remainingFocusMinutes s
                + 9 * mealMinutes ?s' + 180 * dayOver cfg ?s'"
        using openMinutes_mono [OF nn le] eventsAhead_p2_mono [OF le, of ?evs] over' mm breakfast(2,3)
        by linarith
      show "20 + 20 * eventsAhead_p2 ?evs ?t' + 20 * openEvents ?evs ?t'
                + remainingFocusMinutes ?s' + 20 * meals s
             \<le> 20 * eventsAhead_p2 ?evs ?t + 20 * openEvents ?evs ?t
                + remainingFocusMinutes s
                + 20 * meals ?s' + 20 * dayOver cfg ?s'"
        using openEvents_mono [OF le, of ?evs] eventsAhead_p2_mono [OF le, of ?evs] over' mm breakfast(3)
        by linarith
    qed
  next
    case lunch
    have le: "?t \<le> ?t'" using lunch by simp
    have mm: "mealMinutes ?s' = mealMinutes s + 45" "meals ?s' = meals s + 1"
      using lunch by (simp_all add: mealMinutes_def meals_def)
    show ?thesis
    proof (rule step [OF le])
      show "remainingFocusMinutes ?s' \<le> remainingFocusMinutes s" using lunch by simp
      show "9 * ?t' + 9 * openMinutes ?evs ?t' + 180 * eventsAhead_p2 ?evs ?t'
                + 11 * remainingFocusMinutes ?s' + 9 * mealMinutes s
             \<le> 9 * ?t + 9 * openMinutes ?evs ?t + 180 * eventsAhead_p2 ?evs ?t
                + 11 * remainingFocusMinutes s
                + 9 * mealMinutes ?s' + 180 * dayOver cfg ?s'"
        using openMinutes_mono [OF nn le] eventsAhead_p2_mono [OF le, of ?evs] over' mm lunch(2,3)
        by linarith
      show "20 + 20 * eventsAhead_p2 ?evs ?t' + 20 * openEvents ?evs ?t'
                + remainingFocusMinutes ?s' + 20 * meals s
             \<le> 20 * eventsAhead_p2 ?evs ?t + 20 * openEvents ?evs ?t
                + remainingFocusMinutes s
                + 20 * meals ?s' + 20 * dayOver cfg ?s'"
        using openEvents_mono [OF le, of ?evs] eventsAhead_p2_mono [OF le, of ?evs] over' mm lunch(3)
        by linarith
    qed
  next
    case (event ev)
    note ev = eventAt_SomeD [OF event(1)]
    have le: "?t \<le> ?t'" using ev(3) event(2) by simp
    have mm: "mealMinutes ?s' = mealMinutes s" "meals ?s' = meals s"
      using event by (simp_all add: mealMinutes_def meals_def)
    have dur: "endMins ev = startMins ev + durationMinutes ev"
      using ce ev(1) by (auto simp: consistentEnds_def list_all_iff)
    have om: "openMinutes ?evs ?t' + durationMinutes ev \<le> openMinutes ?evs ?t"
      by (rule openMinutes_passed [OF nn ev(1) ev(3)]) (simp add: event(2))
    have oe: "openEvents ?evs ?t' \<le> openEvents ?evs ?t - 1"
      by (rule openEvents_passed [OF ev(1) ev(3)]) (simp add: event(2))
    show ?thesis
    proof (rule step [OF le])
      show "remainingFocusMinutes ?s' \<le> remainingFocusMinutes s" using event by simp
      show "9 * ?t' + 9 * openMinutes ?evs ?t' + 180 * eventsAhead_p2 ?evs ?t'
                + 11 * remainingFocusMinutes ?s' + 9 * mealMinutes s
             \<le> 9 * ?t + 9 * openMinutes ?evs ?t + 180 * eventsAhead_p2 ?evs ?t
                + 11 * remainingFocusMinutes s
                + 9 * mealMinutes ?s' + 180 * dayOver cfg ?s'"
        using om eventsAhead_p2_mono [OF le, of ?evs] over' mm event(2,3) dur ev(2)
        by linarith
      show "20 + 20 * eventsAhead_p2 ?evs ?t' + 20 * openEvents ?evs ?t'
                + remainingFocusMinutes ?s' + 20 * meals s
             \<le> 20 * eventsAhead_p2 ?evs ?t + 20 * openEvents ?evs ?t
                + remainingFocusMinutes s
                + 20 * meals ?s' + 20 * dayOver cfg ?s'"
        using oe eventsAhead_p2_mono [OF le, of ?evs] over' mm event(3)
        by linarith
    qed
  next
    case (focus d w)
    have d0: "0 < d" using focus(1,2,3) by (auto simp: min_def)
    have w0: "0 \<le> w" using focus(4) by auto
    have le: "?t \<le> ?t'" using focus(5) d0 w0 by simp
    have mm: "mealMinutes ?s' = mealMinutes s" "meals ?s' = meals s"
      using focus by (simp_all add: mealMinutes_def meals_def)
    have full: "9 * w \<le> 2 * d \<and> 20 \<le> d" if "0 < remainingFocusMinutes ?s'"
    proof -
      from that have "d < remainingFocusMinutes s" using focus(6) by simp
      then show ?thesis
        using focus(2,3,4) by (auto simp: min_def split: if_splits)
    qed
    show ?thesis
    proof (rule step [OF le])
      show "remainingFocusMinutes ?s' \<le> remainingFocusMinutes s" using focus(6) d0 by simp
      show "9 * ?t' + 9 * openMinutes ?evs ?t' + 180 * eventsAhead_p2 ?evs ?t'
                + 11 * remainingFocusMinutes ?s' + 9 * mealMinutes s
             \<le> 9 * ?t + 9 * openMinutes ?evs ?t + 180 * eventsAhead_p2 ?evs ?t
                + 11 * remainingFocusMinutes s
                + 9 * mealMinutes ?s' + 180 * dayOver cfg ?s'"
        if "0 < remainingFocusMinutes ?s'"
        using full [OF that] openMinutes_mono [OF nn le] eventsAhead_p2_mono [OF le, of ?evs]
          over' mm focus(5,6)
        by linarith
      show "20 + 20 * eventsAhead_p2 ?evs ?t' + 20 * openEvents ?evs ?t'
                + remainingFocusMinutes ?s' + 20 * meals s
             \<le> 20 * eventsAhead_p2 ?evs ?t + 20 * openEvents ?evs ?t
                + remainingFocusMinutes s
                + 20 * meals ?s' + 20 * dayOver cfg ?s'"
        if "0 < remainingFocusMinutes ?s'"
        using full [OF that] openEvents_mono [OF le, of ?evs] eventsAhead_p2_mono [OF le, of ?evs]
          over' mm focus(6)
        by linarith
    qed
  next
    case idle
    then show ?thesis by (simp add: reach_p2_def)
  next
    case break
    have gt: "?t < gapEnd cfg ?t" by (rule gapEnd_after [OF lt])
    have le: "?t \<le> ?t'" using break(3) gt by simp
    have mm: "mealMinutes ?s' = mealMinutes s" "meals ?s' = meals s"
      using break by (simp_all add: mealMinutes_def meals_def)
    have pay: "eventsAhead_p2 ?evs ?t' + 1 \<le> eventsAhead_p2 ?evs ?t + dayOver cfg ?s'"
    proof (cases rule: gapEnd_cases [of cfg ?t])
      case dayEnd
      then have "dayOver cfg ?s' = 1" using break(3) by (simp add: dayOver_def)
      then show ?thesis using eventsAhead_p2_mono [OF le, of ?evs] by simp
    next
      case (event nx)
      have "eventsAhead_p2 ?evs ?t' \<le> eventsAhead_p2 ?evs ?t - 1"
        by (rule eventsAhead_p2_passed [OF event(1,2)]) (simp add: break(3) event(3))
      then show ?thesis using over' by simp
    qed
    show ?thesis
    proof (rule step [OF le])
      show "remainingFocusMinutes ?s' \<le> remainingFocusMinutes s" using break by simp
      show "9 * ?t' + 9 * openMinutes ?evs ?t' + 180 * eventsAhead_p2 ?evs ?t'
                + 11 * remainingFocusMinutes ?s' + 9 * mealMinutes s
             \<le> 9 * ?t + 9 * openMinutes ?evs ?t + 180 * eventsAhead_p2 ?evs ?t
                + 11 * remainingFocusMinutes s
                + 9 * mealMinutes ?s' + 180 * dayOver cfg ?s'"
        using pay openMinutes_mono [OF nn le] mm break(2,3,4)
        by linarith
      show "20 + 20 * eventsAhead_p2 ?evs ?t' + 20 * openEvents ?evs ?t'
                + remainingFocusMinutes ?s' + 20 * meals s
             \<le> 20 * eventsAhead_p2 ?evs ?t + 20 * openEvents ?evs ?t
                + remainingFocusMinutes s
                + 20 * meals ?s' + 20 * dayOver cfg ?s'"
        using pay openEvents_mono [OF le, of ?evs] mm break(4)
        by linarith
    qed
  qed
qed

lemma sweep_p2_invariant_while:
  assumes "P s"
    and "\<And>t. P t \<Longrightarrow> currentTime_p2 t < dayEndMins_p2 cfg \<Longrightarrow> P (loopBody_p2 cfg m t)"
  shows "P (sweep_p2 cfg m s)"
  using assms
proof (induction cfg m s rule: sweep_p2.induct)
  case (1 cfg m s)
  show ?case
  proof (cases "currentTime_p2 s < dayEndMins_p2 cfg \<and> safety s < 150")
    case True
    then have lt: "currentTime_p2 s < dayEndMins_p2 cfg" by simp
    have step: "P (loopBody_p2 cfg m s)"
      by (rule "1.prems"(2) [OF "1.prems"(1) lt])
    have "P (sweep_p2 cfg m (loopBody_p2 cfg m s))"
      by (rule "1.IH" [OF True step "1.prems"(2)])
    moreover have "sweep_p2 cfg m s = sweep_p2 cfg m (loopBody_p2 cfg m s)"
      using True by (subst sweep_p2.simps) auto
    ultimately show ?thesis by simp
  next
    case False
    then have "sweep_p2 cfg m s = s"
      by (subst sweep_p2.simps) auto
    then show ?thesis
      using "1.prems"(1) by simp
  qed
qed

lemma sweep_p2_exit:
  "dayEndMins_p2 cfg \<le> currentTime_p2 (sweep_p2 cfg m s) \<or> 150 \<le> safety (sweep_p2 cfg m s)"
proof (induction cfg m s rule: sweep_p2.induct)
  case (1 cfg m s)
  show ?case
  proof (cases "currentTime_p2 s < dayEndMins_p2 cfg \<and> safety s < 150")
    case True
    moreover have "sweep_p2 cfg m s = sweep_p2 cfg m (loopBody_p2 cfg m s)"
      using True by (subst sweep_p2.simps) auto
    ultimately show ?thesis using "1.IH" by simp
  next
    case False
    then have "sweep_p2 cfg m s = s"
      by (subst sweep_p2.simps) auto
    then show ?thesis using False by auto
  qed
qed

lemma dayWindow_span:
  assumes "dayWindow userDayStart userDayEnd evs = (ds, de)"
  shows "de - ds \<le> 960"
  using assms
  by (auto simp: dayWindow_def Let_def DAY_START_LIMIT_def DAY_END_LIMIT_def min_def max_def
        split: if_splits)

lemma reach_p2_initial:
  assumes nn: "list_all (\<lambda>e. 0 \<le> durationMinutes e) (events_p2 cfg)"
  shows "reach_p2 g d0 cfg
           \<lparr> items_p2 = [], currentTime_p2 = d0, safety = 0, remainingFocusMinutes = g,
             hasBreakfastBeenAdded = False, hasLunchBeenAdded = l \<rparr>"
proof -
  let ?s = "\<lparr> items_p2 = [], currentTime_p2 = d0, safety = 0, remainingFocusMinutes = g,
             hasBreakfastBeenAdded = False, hasLunchBeenAdded = l \<rparr>"
  have a: "eventsAhead_p2 (events_p2 cfg) d0 \<le> int (length (events_p2 cfg))"
    "openEvents (events_p2 cfg) d0 \<le> int (length (events_p2 cfg))"
    by (simp_all add: eventsAhead_p2_def openEvents_def)
  have u: "openMinutes (events_p2 cfg) d0 \<le> sum_list (map durationMinutes (events_p2 cfg))"
    by (rule openMinutes_le_total [OF nn])
  have m: "0 \<le> mealMinutes ?s" "0 \<le> meals ?s" "0 \<le> dayOver cfg ?s"
    by (simp_all add: mealMinutes_def meals_def dayOver_def)
  have s: "currentTime_p2 ?s = d0" "remainingFocusMinutes ?s = g" "int (safety ?s) = 0"
    by simp_all
  show ?thesis
    unfolding reach_p2_def s using a u m by linarith
qed

lemma sweep_p2_reaches_goal:
  assumes nn: "list_all (\<lambda>e. 0 \<le> durationMinutes e) (events_p2 cfg)"
    and ce: "consistentEnds (events_p2 cfg)"
    and g: "0 \<le> g"
    and span: "dayEndMins_p2 cfg - d0 \<le> 960"
    and free: "g \<le> dayEndMins_p2 cfg - d0 - sum_list (map durationMinutes (events_p2 cfg))
                   - requiredRest_p2 g (events_p2 cfg)"
  shows "remainingFocusMinutes
           (sweep_p2 cfg m
              \<lparr> items_p2 = [], currentTime_p2 = d0, safety = 0, remainingFocusMinutes = g,
                hasBreakfastBeenAdded = False, hasLunchBeenAdded = l \<rparr>) \<le> 0"
proof (rule ccontr)
  let ?s0 = "\<lparr> items_p2 = [], currentTime_p2 = d0, safety = 0, remainingFocusMinutes = g,
                hasBreakfastBeenAdded = False, hasLunchBeenAdded = l \<rparr>"
  let ?t = "sweep_p2 cfg m ?s0"
  let ?evs = "events_p2 cfg"
  assume "\<not> remainingFocusMinutes ?t \<le> 0"
  then have rem: "0 < remainingFocusMinutes ?t" by simp
  have "reach_p2 g d0 cfg ?t"
    by (rule sweep_p2_invariant_while [where P = "reach_p2 g d0 cfg"])
       (simp_all add: reach_p2_initial [OF nn] reach_p2_loopBody [OF _ _ nn ce])
  with rem have
    i: "9 * currentTime_p2 ?t + 9 * openMinutes ?evs (currentTime_p2 ?t)
            + 180 * eventsAhead_p2 ?evs (currentTime_p2 ?t)
            + 11 * remainingFocusMinutes ?t
          \<le> 9 * d0 + 11 * g + 9 * mealMinutes ?t
            + 9 * sum_list (map durationMinutes ?evs)
            + 180 * int (length ?evs) + 180 * dayOver cfg ?t"
    and j: "20 * int (safety ?t) + 20 * eventsAhead_p2 ?evs (currentTime_p2 ?t)
            + 20 * openEvents ?evs (currentTime_p2 ?t) + remainingFocusMinutes ?t
          \<le> g + 20 * meals ?t
            + 40 * int (length ?evs) + 20 * dayOver cfg ?t"
    by (simp_all add: reach_p2_def)
  have bounds: "0 \<le> openMinutes ?evs (currentTime_p2 ?t)"
    "0 \<le> eventsAhead_p2 ?evs (currentTime_p2 ?t)" "0 \<le> openEvents ?evs (currentTime_p2 ?t)"
    "mealMinutes ?t \<le> 75" "meals ?t \<le> 2" "dayOver cfg ?t \<le> 1"
    using openMinutes_nonneg [OF nn]
    by (simp_all add: eventsAhead_p2_def openEvents_def mealMinutes_def meals_def dayOver_def)
  have total: "0 \<le> sum_list (map durationMinutes ?evs)"
    using openMinutes_le_total [OF nn, of "currentTime_p2 ?t"] bounds(1) by linarith
  have div: "2 * g < 90 * (g div 45) + 90" "0 \<le> g div 45"
    using g by simp_all
  have f: "g + 10 * (g div 45) + 10 + 20 * int (length ?evs) + 95
             \<le> dayEndMins_p2 cfg - d0 - sum_list (map durationMinutes ?evs)"
    using free by (simp add: requiredRest_p2_def)
  have passes: "safety ?t < 150"
  proof -
    have "20 * int (safety ?t) < g + 40 * int (length ?evs) + 60"
      using j bounds rem by linarith
    moreover have "g + 20 * int (length ?evs) \<le> 960"
      using f span total g div(2) by linarith
    ultimately have "20 * int (safety ?t) < 3000" using g by linarith
    then show ?thesis by simp
  qed
  with sweep_p2_exit [of cfg m ?s0] have "dayEndMins_p2 cfg \<le> currentTime_p2 ?t" by simp
  with i bounds rem have "9 * dayEndMins_p2 cfg + 11
      \<le> 9 * d0 + 11 * g + 675 + 9 * sum_list (map durationMinutes ?evs)
          + 180 * int (length ?evs) + 180"
    by linarith
  with f div show False by linarith
qed

lemma activeDayEvents_durations:
  "map durationMinutes (activeDayEvents evs) = map durationMinutes evs"
  "length (activeDayEvents evs) = length evs"
  by (simp_all add: activeDayEvents_def comp_def)

lemma activeDayEvents_nonneg:
  "list_all (\<lambda>e. 0 \<le> durationMinutes e) evs \<Longrightarrow>
   list_all (\<lambda>e. 0 \<le> durationMinutes e) (activeDayEvents evs)"
  by (simp add: activeDayEvents_def list_all_iff)

text \<open>
  The budget of focus minutes is used up when the day window has room for it beside the
  events and the rest that the generator needs.
\<close>

lemma schedule_p2_reaches_goal:
  assumes nn: "list_all (\<lambda>e. 0 \<le> durationMinutes e) evs"
    and free: "max 0 (focusGoal * 60 - totalMeetingsMinutes (activeDayEvents evs))
       \<le> freeTime_p2 userDayStart userDayEnd evs
            (requiredRest_p2 (max 0 (focusGoal * 60 - totalMeetingsMinutes (activeDayEvents evs))) evs)"
  shows "focusMinutes (schedule_p2 userDayStart userDayEnd focusGoal peakWindow settings evs)
           = max 0 (focusGoal * 60 - totalMeetingsMinutes (activeDayEvents evs))"
proof -
  let ?g = "max 0 (focusGoal * 60 - totalMeetingsMinutes (activeDayEvents evs))"
  obtain ds de l where
    win: "(ds, de) = dayWindow userDayStart userDayEnd (activeDayEvents evs)" and
    eq: "schedule_p2 userDayStart userDayEnd focusGoal peakWindow settings evs =
       sort_key startTime
         (items_p2
            (sweep_p2 (config_of de peakWindow settings (activeDayEvents evs))
               (ds \<ge> 420 \<and> ds < 540)
               \<lparr> items_p2 = [], currentTime_p2 = ds, safety = 0,
                 remainingFocusMinutes = ?g,
                 hasBreakfastBeenAdded = False, hasLunchBeenAdded = l \<rparr>))"
    by (rule schedule_p2_unfold)
  let ?cfg = "config_of de peakWindow settings (activeDayEvents evs)"
  let ?s0 = "\<lparr> items_p2 = [], currentTime_p2 = ds, safety = 0, remainingFocusMinutes = ?g,
                 hasBreakfastBeenAdded = False, hasLunchBeenAdded = l \<rparr>"
  let ?t = "sweep_p2 ?cfg (ds \<ge> 420 \<and> ds < 540) ?s0"
  have cfg: "events_p2 ?cfg = activeDayEvents evs" "dayEndMins_p2 ?cfg = de"
    by (simp_all add: config_of_def)
  have b: "budget_p2 ?g ?t"
    by (rule sweep_p2_invariant [where P = "budget_p2 ?g"])
       (simp_all add: budget_loopBody_p2, simp add: budget_p2_def focusMinutes_def)
  have span: "de - ds \<le> 960"
    by (rule dayWindow_span [OF win [symmetric]])
  have "?g \<le> de - ds - sum_list (map durationMinutes evs) - requiredRest_p2 ?g evs"
    using free win [symmetric] by (simp add: freeTime_p2_def freeTime_def)
  then have fr: "?g \<le> dayEndMins_p2 ?cfg - ds
                   - sum_list (map durationMinutes (events_p2 ?cfg))
                   - requiredRest_p2 ?g (events_p2 ?cfg)"
    by (simp add: cfg activeDayEvents_durations requiredRest_p2_def)
  have "remainingFocusMinutes ?t \<le> 0"
    by (rule sweep_p2_reaches_goal [OF _ _ _ _ fr])
       (simp_all add: cfg activeDayEvents_nonneg [OF nn] consistentEnds_activeDayEvents span)
  with b have "focusMinutes (items_p2 ?t) = ?g"
    by (simp add: budget_p2_def)
  then show ?thesis
    by (simp add: eq focusMinutes_sort_key)
qed

subsection \<open>Evaluation on concrete days\<close>

lemmas eval_defs_p2 = schedule_p2_def activeDayEvents_def dayWindow_def DAY_START_LIMIT_def
  DAY_END_LIMIT_def totalMeetingsMinutes_def getEventTypeFromSummary_def toLowerCase_def
  currentPeak_def getProperty_def peakRanges_p2_def objectPrototypeKeys_def isPeakAt_def
  loopBody_p2_def fillGap_p2_def gapEnd_def eventAt_def nextEvent_def addItem_def mkItem_def
  BREAK_TYPES_def getTypeStyles_def Let_def

lemma example_p2_meeting_day:
  "schedule_p2 480 1080 1 ''Morning'' \<lparr>shortBreakDuration = 15, hobbyBreakDuration = 45\<rparr>
     [\<lparr>summary = ''Standup'', startMins = 600, endMins = 660, durationMinutes = 60\<rparr>] =
   [mkItem lunch ''Fuel & Prep: Breakfast'' 480 30,
    mkItem meeting ''Standup'' 600 60,
    mkItem hobby ''Creative Hobby Break'' 660 315]"
  by (simp add: eval_defs_p2 sweep_p2.simps)


lemma example_p2_short_day:
  "schedule_p2 480 600 1 ''Morning'' \<lparr>shortBreakDuration = 15, hobbyBreakDuration = 45\<rparr> [] =
   [mkItem lunch ''Fuel & Prep: Breakfast'' 480 30,
    mkItem focus ''Peak Window Deep Work'' 510 60,
    mkItem wellness ''Wellness Buffer'' 570 15]"
  by (simp add: eval_defs_p2 sweep_p2.simps)

lemma example_p2_no_goal:
  "schedule_p2 480 660 0 ''Morning'' \<lparr>shortBreakDuration = 15, hobbyBreakDuration = 45\<rparr>
     [\<lparr>summary = ''Standup'', startMins = 525, endMins = 540, durationMinutes = 15\<rparr>] =
   [mkItem lunch ''Fuel & Prep: Breakfast'' 480 30,
    mkItem meeting ''Standup'' 525 15,
    mkItem hobby ''Creative Hobby Break'' 540 45]"
  by (simp add: eval_defs_p2 sweep_p2.simps)

lemma example_p2_unfilled_day:
  "schedule_p2 600 840 0 ''Morning'' \<lparr>shortBreakDuration = 15, hobbyBreakDuration = 45\<rparr> [] = []"
  by (simp add: eval_defs_p2 sweep_p2.simps)

lemma example_p2_goal_with_standup:
  "schedule_p2 480 780 1 ''Morning'' \<lparr>shortBreakDuration = 15, hobbyBreakDuration = 45\<rparr>
     [\<lparr>summary = ''Standup'', startMins = 540, endMins = 555, durationMinutes = 15\<rparr>] =
   [mkItem lunch ''Fuel & Prep: Breakfast'' 480 30,
    mkItem focus ''Peak Window Deep Work'' 510 30,
    mkItem meeting ''Standup'' 540 15,
    mkItem focus ''Peak Window Deep Work'' 555 15,
    mkItem wellness ''Wellness Buffer'' 570 15]"
  by (simp add: eval_defs_p2 sweep_p2.simps)

section \<open>Properties of the peak windows and of the goal tracker\<close>

lemma getProperty_Undefined:
  assumes "k \<notin> set (map fst literal)" "k \<notin> set objectPrototypeKeys"
  shows "getProperty literal k = Undefined"
proof -
  have "map_of literal k = None"
    using assms(1) by (simp add: map_of_eq_None_iff)
  then show ?thesis using assms(2) by (simp add: getProperty_def)
qed

lemma peakRange_inherited:
  "peakRange ''constructor'' = Inl TypeError" "currentPeak ''constructor'' = None"
  by (simp_all add: peakRange_def currentPeak_def getProperty_def peakRanges_def
        peakRanges_p2_def objectPrototypeKeys_def)

lemma calcForSchedule_foldl:
  "foldl (\<lambda>(focusMins, breakMins) item.
              if type item = focus \<or> type item = meeting
              then (focusMins + duration item, breakMins)
              else (focusMins, breakMins + duration item)) (f, b) s =
   (f + sum_list (map duration (filter (\<lambda>b. type b = focus \<or> type b = meeting) s)),
    b + sum_list (map duration (filter (\<lambda>b. \<not> (type b = focus \<or> type b = meeting)) s)))"
  by (induction s arbitrary: f b) auto

lemma calcForSchedule_eq:
  "calcForSchedule s =
     (sum_list (map duration (filter (\<lambda>b. type b = focus \<or> type b = meeting) s)),
      sum_list (map duration (filter (\<lambda>b. \<not> (type b = focus \<or> type b = meeting)) s)))"
  by (simp add: calcForSchedule_def calcForSchedule_foldl)

lemma adjustment_at_least_one:
  fixes diffMins :: int
  assumes "60 \<le> diffMins"
  shows "1 \<le> \<lceil>(of_int diffMins :: rat) / 60 + 1 / 2\<rceil>"
proof -
  have "(1::rat) \<le> of_int diffMins / 60 + 1 / 2"
    using assms by simp
  then show ?thesis by linarith
qed

lemma handleAdjustGoal_add:
  "\<exists>adjustment \<ge> 1.
     handleAdjustGoal add focusMins focusGoal day manualAdjustment =
       manualAdjustment(day \<mapsto> currentAdj manualAdjustment day + adjustment)"
proof (cases "\<bar>focusMins - focusGoal * 60\<bar> < 60")
  case True
  then have "handleAdjustGoal add focusMins focusGoal day manualAdjustment =
       manualAdjustment(day \<mapsto> currentAdj manualAdjustment day + 1)"
    by (simp add: handleAdjustGoal_def Let_def)
  then show ?thesis by (intro exI [of _ 1]) simp
next
  case False
  define adj where "adj = \<lceil>(of_int \<bar>focusMins - focusGoal * 60\<bar> :: rat) / 60 + 1 / 2\<rceil>"
  have "1 \<le> adj"
    unfolding adj_def using False by (intro adjustment_at_least_one) simp
  moreover have "handleAdjustGoal add focusMins focusGoal day manualAdjustment =
       manualAdjustment(day \<mapsto> currentAdj manualAdjustment day + adj)"
    using False by (simp add: handleAdjustGoal_def Let_def adj_def)
  ultimately show ?thesis by blast
qed

lemma ceiling_three_halves: "\<lceil>(3::rat) / 2\<rceil> = 2"
  by (rule ceiling_unique) simp_all

section \<open>The claims\<close>

subsection \<open>Contiguity and order\<close>

text \<open>
  Claim C1. Whenever the generator of \<^verbatim>\<open>DashboardView.tsx\<close> returns a schedule, each
  block ends exactly where the next block starts
  (\<open>startMinute[i] + durationMinutes[i] = startMinute[i+1]\<close>, no gap and no overlap), and
  the blocks are strictly ascending by start. This holds for every day window, focus goal
  and event list, so in particular for the valid inputs of the claim.
\<close>

theorem schedule_contiguous_strictly_ordered:
  assumes "scheduleFrom dayStartMins dayEndMins focusGoal peakWindow evs = Inr bs"
    and "Suc i < length bs"
  shows "startTime (bs ! i) + duration (bs ! i) = startTime (bs ! Suc i) \<and>
         startTime (bs ! i) < startTime (bs ! Suc i)"
proof -
  have "startTime (bs ! i) + duration (bs ! i) = startTime (bs ! Suc i)"
    using scheduleFrom_chained(2) [OF assms(1)] assms(2) by (rule contiguous_nth)
  moreover have "0 < duration (bs ! i)"
    using scheduleFrom_chained(1) [OF assms(1)] assms(2) by (simp add: list_all_length)
  ultimately show ?thesis by simp
qed

theorem schedule_contiguous_strictly_ordered_witness:
  "scheduleFrom 480 600 1 ''Morning'' [] = Inr
   [\<lparr>type = break, label = ''Wellness Break'', startTime = 480, duration = 45, color = ''bg-[#A9C5D3]''\<rparr>,
    \<lparr>type = focus, label = ''Peak Focus Session'', startTime = 525, duration = 60, color = ''bg-white''\<rparr>,
    \<lparr>type = break, label = ''Short break'', startTime = 585, duration = 15, color = ''bg-[#FADCD5]''\<rparr>] \<and>
   Suc 1 < length
   [\<lparr>type = break, label = ''Wellness Break'', startTime = 480, duration = 45, color = ''bg-[#A9C5D3]''\<rparr>,
    \<lparr>type = focus, label = ''Peak Focus Session'', startTime = 525, duration = 60, color = ''bg-white''\<rparr>,
    \<lparr>type = break, label = ''Short break'', startTime = 585, duration = 15, color = ''bg-[#FADCD5]''\<rparr>] \<and>
   (525::int) + 60 = 585 \<and> (525::int) < 585"
  using schedule_contiguous_strictly_ordered [OF example_short_day, of 1] example_short_day
  by simp

subsection \<open>Meetings\<close>

text \<open>
  Claim C2 says that every event of the day appears as exactly one meeting block. The
  lunch anchor is tested before the meeting at the cursor and is not capped by the gap to
  the next event: on a valid day from 13:00 to 15:00 with one event from 13:00 to 13:30,
  the generator of \<^verbatim>\<open>DashboardView.tsx\<close> emits a 60 minute lunch break at 13:00, the
  cursor passes the start of the event, and the schedule holds no meeting block. The same
  happens on the day from 08:00 to 18:00 with an event from 13:10 to 13:40.
\<close>

theorem lunch_anchor_drops_meeting:
  "validInput 780 900 [\<lparr>summary = ''Review'', startMins = 780, endMins = 810, durationMinutes = 30\<rparr>] \<and>
   scheduleFrom 780 900 7 ''Morning''
     [\<lparr>summary = ''Review'', startMins = 780, endMins = 810, durationMinutes = 30\<rparr>] = Inr
   [\<lparr>type = break, label = ''Lunch Break'', startTime = 780, duration = 60, color = ''bg-[#A9C5D3]''\<rparr>,
    \<lparr>type = focus, label = ''Standard Focus'', startTime = 840, duration = 45, color = ''bg-white''\<rparr>,
    \<lparr>type = break, label = ''Short break'', startTime = 885, duration = 15, color = ''bg-[#FADCD5]''\<rparr>] \<and>
   validInput 480 1080 [\<lparr>summary = ''Review'', startMins = 790, endMins = 820, durationMinutes = 30\<rparr>] \<and>
   map_sum id (filter (\<lambda>b. type b = meeting))
     (scheduleFrom 480 1080 7 ''Morning''
        [\<lparr>summary = ''Review'', startMins = 790, endMins = 820, durationMinutes = 30\<rparr>]) = Inr []"
  by (simp add: validInput_def nonOverlapping_def eval_defs sweep.simps)

subsection \<open>Focus minutes and the goal\<close>

text \<open>
  Claim C3, amended. For a goal of at least 0 hours and events of duration at least 0, the
  focus blocks of a schedule never sum to more than \<^verbatim>\<open>focusGoal * 60\<close> minutes. In
  \<^verbatim>\<open>DashboardView.tsx\<close> the sum equals the goal whenever the free time of the day is at
  least the goal: the day span minus the minutes of the events minus the rest that the
  generator requires, which is 45 minutes of break for every 45 minutes of the goal and
  for every event, and 60 minutes for the lunch anchor and a last break. In \<^verbatim>\<open>part_002\<close>
  the sum never exceeds the goal minus the minutes of the meetings of the day, which that
  version counts towards the goal, and it equals that budget whenever the free time of
  its day window is at least the budget: the span of the window minus the minutes of the
  events minus the rest that this generator requires, which is 10 minutes for every 45
  minutes of the budget, 20 minutes for every event, and 95 minutes for breakfast, lunch
  and the end of the day.
\<close>

theorem focus_minutes_and_goal:
  assumes "0 \<le> focusGoal" and "list_all (\<lambda>e. 0 \<le> durationMinutes e) evs"
  shows "(scheduleFrom dayStartMins dayEndMins focusGoal peakWindow evs = Inr bs \<longrightarrow>
            focusMinutes bs \<le> focusGoal * 60 \<and>
            (focusGoal * 60 \<le> freeTime dayStartMins dayEndMins evs (requiredRest focusGoal evs) \<longrightarrow>
               focusMinutes bs = focusGoal * 60)) \<and>
         focusMinutes (schedule_p2 userDayStart userDayEnd focusGoal peakWindow settings evs)
           \<le> max 0 (focusGoal * 60 - totalMeetingsMinutes (activeDayEvents evs)) \<and>
         focusMinutes (schedule_p2 userDayStart userDayEnd focusGoal peakWindow settings evs)
           \<le> focusGoal * 60 \<and>
         (max 0 (focusGoal * 60 - totalMeetingsMinutes (activeDayEvents evs))
            \<le> freeTime_p2 userDayStart userDayEnd evs
                 (requiredRest_p2
                    (max 0 (focusGoal * 60 - totalMeetingsMinutes (activeDayEvents evs))) evs) \<longrightarrow>
          focusMinutes (schedule_p2 userDayStart userDayEnd focusGoal peakWindow settings evs)
            = max 0 (focusGoal * 60 - totalMeetingsMinutes (activeDayEvents evs)))"
proof -
  have A: "focusMinutes bs \<le> focusGoal * 60 \<and>
            (focusGoal * 60 \<le> freeTime dayStartMins dayEndMins evs (requiredRest focusGoal evs) \<longrightarrow>
               focusMinutes bs = focusGoal * 60)"
    if r: "scheduleFrom dayStartMins dayEndMins focusGoal peakWindow evs = Inr bs"
  proof -
    from r obtain ps pe where
      bs: "bs = items (sweep dayEndMins ps pe (initialState dayStartMins focusGoal evs))"
      by (rule scheduleFrom_InrD)
    have "budget (focusGoal * 60) (sweep dayEndMins ps pe (initialState dayStartMins focusGoal evs))"
      by (rule budget_sweep [OF budget_initialState [OF assms(1)]])
    then have le: "focusMinutes bs \<le> focusGoal * 60"
      by (simp add: budget_def bs)
    have "focusMinutes bs = focusGoal * 60"
      if "focusGoal * 60 \<le> freeTime dayStartMins dayEndMins evs (requiredRest focusGoal evs)"
      by (rule scheduleFrom_reaches_goal [OF r assms that])
    with le show ?thesis by simp
  qed
  have B: "focusMinutes (schedule_p2 userDayStart userDayEnd focusGoal peakWindow settings evs)
           \<le> max 0 (focusGoal * 60 - totalMeetingsMinutes (activeDayEvents evs))"
    by (rule schedule_p2_budget)
  have "max 0 (focusGoal * 60 - totalMeetingsMinutes (activeDayEvents evs)) \<le> focusGoal * 60"
    using assms(1) totalMeetingsMinutes_nonneg [OF assms(2)] by simp
  with B have C: "focusMinutes (schedule_p2 userDayStart userDayEnd focusGoal peakWindow settings evs)
           \<le> focusGoal * 60"
    by linarith
  have D: "focusMinutes (schedule_p2 userDayStart userDayEnd focusGoal peakWindow settings evs)
            = max 0 (focusGoal * 60 - totalMeetingsMinutes (activeDayEvents evs))"
    if "max 0 (focusGoal * 60 - totalMeetingsMinutes (activeDayEvents evs))
            \<le> freeTime_p2 userDayStart userDayEnd evs
                 (requiredRest_p2
                    (max 0 (focusGoal * 60 - totalMeetingsMinutes (activeDayEvents evs))) evs)"
    by (rule schedule_p2_reaches_goal [OF assms(2) that])
  from A B C D show ?thesis by blast
qed

theorem focus_minutes_and_goal_witness:
  "(0::int) \<le> 1 \<and>
   list_all (\<lambda>e. 0 \<le> durationMinutes e)
     [\<lparr>summary = ''Standup'', startMins = 540, endMins = 555, durationMinutes = 15\<rparr>] \<and>
   scheduleFrom 480 780 1 ''Morning''
     [\<lparr>summary = ''Standup'', startMins = 540, endMins = 555, durationMinutes = 15\<rparr>] = Inr
   [\<lparr>type = break, label = ''Wellness Break'', startTime = 480, duration = 45, color = ''bg-[#A9C5D3]''\<rparr>,
    \<lparr>type = focus, label = ''Peak Focus Session'', startTime = 525, duration = 15, color = ''bg-white''\<rparr>,
    \<lparr>type = meeting, label = ''Standup'', startTime = 540, duration = 15, color = ''bg-[#FADCD5]''\<rparr>,
    \<lparr>type = break, label = ''Wellness Break'', startTime = 555, duration = 45, color = ''bg-[#D9CCE8]''\<rparr>,
    \<lparr>type = focus, label = ''Peak Focus Session'', startTime = 600, duration = 45, color = ''bg-white''\<rparr>,
    \<lparr>type = break, label = ''Wellness Break'', startTime = 645, duration = 45, color = ''bg-[#F5D5B8]''\<rparr>,
    \<lparr>type = hobby, label = ''Creative Hobby Block'', startTime = 690, duration = 60, color = ''bg-[#E1EED9]''\<rparr>,
    \<lparr>type = hobby, label = ''Creative Hobby Block'', startTime = 750, duration = 30, color = ''bg-[#E1EED9]''\<rparr>] \<and>
   requiredRest 1
     [\<lparr>summary = ''Standup'', startMins = 540, endMins = 555, durationMinutes = 15\<rparr>] = 165 \<and>
   freeTime 480 780
     [\<lparr>summary = ''Standup'', startMins = 540, endMins = 555, durationMinutes = 15\<rparr>] 165 = 120 \<and>
   (1::int) * 60 \<le> 120 \<and>
   focusMinutes
   [\<lparr>type = break, label = ''Wellness Break'', startTime = 480, duration = 45, color = ''bg-[#A9C5D3]''\<rparr>,
    \<lparr>type = focus, label = ''Peak Focus Session'', startTime = 525, duration = 15, color = ''bg-white''\<rparr>,
    \<lparr>type = meeting, label = ''Standup'', startTime = 540, duration = 15, color = ''bg-[#FADCD5]''\<rparr>,
    \<lparr>type = break, label = ''Wellness Break'', startTime = 555, duration = 45, color = ''bg-[#D9CCE8]''\<rparr>,
    \<lparr>type = focus, label = ''Peak Focus Session'', startTime = 600, duration = 45, color = ''bg-white''\<rparr>,
    \<lparr>type = break, label = ''Wellness Break'', startTime = 645, duration = 45, color = ''bg-[#F5D5B8]''\<rparr>,
    \<lparr>type = hobby, label = ''Creative Hobby Block'', startTime = 690, duration = 60, color = ''bg-[#E1EED9]''\<rparr>,
    \<lparr>type = hobby, label = ''Creative Hobby Block'', startTime = 750, duration = 30, color = ''bg-[#E1EED9]''\<rparr>]
     = 1 * 60 \<and>
   totalMeetingsMinutes (activeDayEvents
     [\<lparr>summary = ''Standup'', startMins = 540, endMins = 555, durationMinutes = 15\<rparr>]) = 15 \<and>
   focusMinutes (schedule_p2 480 780 1 ''Morning''
                   \<lparr>shortBreakDuration = 15, hobbyBreakDuration = 45\<rparr>
     [\<lparr>summary = ''Standup'', startMins = 540, endMins = 555, durationMinutes = 15\<rparr>]) = 45 \<and>
   (45::int) \<le> max 0 (1 * 60 - 15) \<and>
   requiredRest_p2 45
     [\<lparr>summary = ''Standup'', startMins = 540, endMins = 555, durationMinutes = 15\<rparr>] = 135 \<and>
   freeTime_p2 480 780
     [\<lparr>summary = ''Standup'', startMins = 540, endMins = 555, durationMinutes = 15\<rparr>] 135 = 150 \<and>
   (45::int) \<le> 150 \<and> (45::int) = max 0 (1 * 60 - 15)"
  using focus_minutes_and_goal [where focusGoal = 1 and dayStartMins = 480 and dayEndMins = 780
      and peakWindow = "''Morning''"
      and evs = "[\<lparr>summary = ''Standup'', startMins = 540, endMins = 555, durationMinutes = 15\<rparr>]"
      and userDayStart = 480 and userDayEnd = 780
      and settings = "\<lparr>shortBreakDuration = 15, hobbyBreakDuration = 45\<rparr>"]
    example_goal_with_standup example_p2_goal_with_standup
  by (simp add: freeTime_def requiredRest_def focusMinutes_def mkItem_def
        totalMeetingsMinutes_def activeDayEvents_def getEventTypeFromSummary_def toLowerCase_def
        requiredRest_p2_def freeTime_p2_def dayWindow_def DAY_START_LIMIT_def DAY_END_LIMIT_def
        Let_def)

text \<open>
  The claim as stated fails. On the day from 08:00 to 18:00 without events and a goal of 7
  hours \<^verbatim>\<open>DashboardView.tsx\<close> schedules 330 focus minutes, although the 600 free minutes
  leave room for the goal and 180 minutes of rest. On the same day with one meeting of an
  hour and a goal of 1 hour \<^verbatim>\<open>part_002\<close> schedules no focus block at all, although the
  day leaves room for the goal and 480 minutes of rest.
\<close>

theorem focus_goal_not_reached_counterexample:
  "validInput 480 1080 [] \<and> 7 * 60 \<le> freeTime 480 1080 [] 180 \<and>
   map_sum id focusMinutes (scheduleFrom 480 1080 7 ''Morning'' []) = Inr 330 \<and>
   (330::int) < 7 * 60 \<and>
   validInput 480 1080 [\<lparr>summary = ''Standup'', startMins = 600, endMins = 660, durationMinutes = 60\<rparr>] \<and>
   1 * 60 \<le> freeTime 480 1080
        [\<lparr>summary = ''Standup'', startMins = 600, endMins = 660, durationMinutes = 60\<rparr>] 480 \<and>
   focusMinutes
     (schedule_p2 480 1080 1 ''Morning'' \<lparr>shortBreakDuration = 15, hobbyBreakDuration = 45\<rparr>
        [\<lparr>summary = ''Standup'', startMins = 600, endMins = 660, durationMinutes = 60\<rparr>]) = 0 \<and>
   (0::int) < 1 * 60"
  using example_scenario_A example_p2_meeting_day
  by (simp add: validInput_def nonOverlapping_def freeTime_def focusMinutes_def mkItem_def)

subsection \<open>Blocks and the day window\<close>

text \<open>
  Claim C4 says that every block lies within the day. The lunch anchor always lasts 60
  minutes: on a valid day from 13:00 to 13:30 without events the only block of the
  generator of \<^verbatim>\<open>DashboardView.tsx\<close> runs from 13:00 to 14:00, past the end of the day.
  On the day from 08:15 to 14:00 with the Afternoon peak the last block is the lunch anchor
  from 13:30 to 14:30.
\<close>

theorem lunch_anchor_passes_day_end:
  "validInput 780 810 [] \<and>
   scheduleFrom 780 810 7 ''Morning'' [] = Inr
   [\<lparr>type = break, label = ''Lunch Break'', startTime = 780, duration = 60, color = ''bg-[#A9C5D3]''\<rparr>] \<and>
   \<not> (780 + 60 \<le> (810::int)) \<and>
   validInput 495 840 [] \<and>
   map_sum id (\<lambda>bs. (label (last bs), startTime (last bs), duration (last bs)))
     (scheduleFrom 495 840 7 ''Afternoon'' []) = Inr (''Lunch Break'', 810, 60) \<and>
   \<not> (810 + 60 \<le> (840::int))"
  by (simp add: validInput_def nonOverlapping_def eval_defs sweep.simps)

subsection \<open>Exertion and rest\<close>

text \<open>
  Claim C5, amended. In a schedule of the generator of \<^verbatim>\<open>DashboardView.tsx\<close> a focus
  block or a meeting is never directly followed by a focus block. It can be directly
  followed by a meeting: a meeting is emitted whenever an event starts at the cursor,
  whatever the block before it was.
\<close>

theorem exertion_not_followed_by_focus:
  assumes "scheduleFrom dayStartMins dayEndMins focusGoal peakWindow evs = Inr bs"
    and "Suc i < length bs"
    and "isExertion (type (bs ! i))"
  shows "type (bs ! Suc i) \<noteq> focus"
proof -
  from assms(1) obtain ps pe where
    bs: "bs = items (sweep dayEndMins ps pe (initialState dayStartMins focusGoal evs))"
    by (rule scheduleFrom_InrD)
  have "alternating (sweep dayEndMins ps pe (initialState dayStartMins focusGoal evs))"
    by (rule alternating_sweep [OF alternating_initialState])
  then have "restBeforeFocus bs" by (simp add: alternating_def bs)
  then show ?thesis using assms(2,3) by (rule restBeforeFocus_nth)
qed

text \<open>
  The claim as stated fails: on a valid day from 08:00 to 10:00 with an event at 09:30
  the focus block from 08:45 to 09:30 is directly followed by the meeting.
\<close>

theorem consecutive_exertion_counterexample:
  "validInput 480 600 [\<lparr>summary = ''Standup'', startMins = 570, endMins = 600, durationMinutes = 30\<rparr>] \<and>
   scheduleFrom 480 600 7 ''Morning''
     [\<lparr>summary = ''Standup'', startMins = 570, endMins = 600, durationMinutes = 30\<rparr>] = Inr
   [\<lparr>type = break, label = ''Wellness Break'', startTime = 480, duration = 45, color = ''bg-[#A9C5D3]''\<rparr>,
    \<lparr>type = focus, label = ''Peak Focus Session'', startTime = 525, duration = 45, color = ''bg-white''\<rparr>,
    \<lparr>type = meeting, label = ''Standup'', startTime = 570, duration = 30, color = ''bg-[#FADCD5]''\<rparr>] \<and>
   isExertion focus \<and> isExertion meeting"
  using example_focus_then_meeting
  by (simp add: validInput_def nonOverlapping_def isExertion_def)

theorem exertion_not_followed_by_focus_witness:
  "Suc 1 < length
   [\<lparr>type = break, label = ''Wellness Break'', startTime = 480, duration = 45, color = ''bg-[#A9C5D3]''\<rparr>,
    \<lparr>type = focus, label = ''Peak Focus Session'', startTime = 525, duration = 45, color = ''bg-white''\<rparr>,
    \<lparr>type = meeting, label = ''Standup'', startTime = 570, duration = 30, color = ''bg-[#FADCD5]''\<rparr>] \<and>
   isExertion focus \<and> meeting \<noteq> focus"
  using exertion_not_followed_by_focus [OF example_focus_then_meeting, of 1]
  by (simp add: isExertion_def)

subsection \<open>Degenerate inputs\<close>

text \<open>
  Claim C6, amended. With a focus goal of 0 the generated schedule holds no focus block: in
  \<^verbatim>\<open>DashboardView.tsx\<close> every block is a meeting, a break or a hobby block, and every
  minute of the day lies in a rest block of the schedule or within an event of the day;
  \<^verbatim>\<open>part_002\<close> (for events of duration at least 0) emits no focus block either. With
  \<^verbatim>\<open>dayStart = dayEnd\<close> the schedule is the empty list: in \<^verbatim>\<open>DashboardView.tsx\<close> for
  every event list, in \<^verbatim>\<open>part_002\<close> for the events that lie within that day. The
  generator of \<^verbatim>\<open>DashboardView.tsx\<close> returns whenever the peak window is no member
  inherited from \<^verbatim>\<open>Object.prototype\<close>.
\<close>

theorem degenerate_inputs:
  "(peakWindow \<notin> set objectPrototypeKeys \<longrightarrow>
      (\<exists>bs. scheduleFrom dayStartMins dayEndMins 0 peakWindow evs = Inr bs \<and>
            list_all (\<lambda>b. type b \<in> {meeting, break, hobby}) bs \<and>
            (dayStartMins \<le> t \<and> t < dayEndMins \<longrightarrow> restAt bs t \<or> duringEvent evs t)) \<and>
      scheduleFrom dayStartMins dayStartMins focusGoal peakWindow evs = Inr []) \<and>
   (list_all (\<lambda>e. 0 \<le> durationMinutes e) evs2 \<longrightarrow>
      list_all (\<lambda>b. type b \<noteq> focus)
        (schedule_p2 userDayStart userDayEnd 0 peakWindow settings evs2)) \<and>
   (list_all (\<lambda>e. userDayStart \<le> startMins e \<and> startMins e + durationMinutes e \<le> userDayStart) evs3 \<longrightarrow>
      schedule_p2 userDayStart userDayStart focusGoal peakWindow settings evs3 = [])"
proof -
  have A: "(\<exists>bs. scheduleFrom dayStartMins dayEndMins 0 peakWindow evs = Inr bs \<and>
            list_all (\<lambda>b. type b \<in> {meeting, break, hobby}) bs \<and>
            (dayStartMins \<le> t \<and> t < dayEndMins \<longrightarrow> restAt bs t \<or> duringEvent evs t)) \<and>
      scheduleFrom dayStartMins dayStartMins focusGoal peakWindow evs = Inr []"
    if w: "peakWindow \<notin> set objectPrototypeKeys"
  proof -
    from peakRange_returns [OF w] obtain ps pe where r: "peakRange peakWindow = Inr (ps, pe)"
      by fastforce
    let ?bs = "items (sweep dayEndMins ps pe (initialState dayStartMins 0 evs))"
    have eq: "scheduleFrom dayStartMins dayEndMins 0 peakWindow evs = Inr ?bs"
      by (simp add: scheduleFrom_def r)
    have "focusFree (sweep dayEndMins ps pe (initialState dayStartMins 0 evs))"
      by (rule focusFree_sweep [OF focusFree_initialState])
    then have kinds: "list_all (\<lambda>b. type b \<in> {meeting, break, hobby}) ?bs"
      by (simp add: focusFree_def)
    have filled: "dayStartMins \<le> t \<and> t < dayEndMins \<longrightarrow> restAt ?bs t \<or> duringEvent evs t"
      using scheduleFrom_no_goal_fills [OF eq] by blast
    have "scheduleFrom dayStartMins dayStartMins focusGoal peakWindow evs = Inr []"
      by (rule scheduleFrom_empty_day [OF _ w]) simp
    with eq kinds filled show ?thesis by blast
  qed
  show ?thesis
    using A schedule_p2_no_goal schedule_p2_empty_day by blast
qed

theorem degenerate_inputs_witness:
  "''Morning'' \<notin> set objectPrototypeKeys \<and>
   scheduleFrom 480 660 0 ''Morning''
     [\<lparr>summary = ''Standup'', startMins = 525, endMins = 540, durationMinutes = 15\<rparr>] = Inr
   [\<lparr>type = break, label = ''Wellness Break'', startTime = 480, duration = 45, color = ''bg-[#A9C5D3]''\<rparr>,
    \<lparr>type = meeting, label = ''Standup'', startTime = 525, duration = 15, color = ''bg-[#FADCD5]''\<rparr>,
    \<lparr>type = break, label = ''Wellness Break'', startTime = 540, duration = 45, color = ''bg-[#D9CCE8]''\<rparr>,
    \<lparr>type = hobby, label = ''Creative Hobby Block'', startTime = 585, duration = 60, color = ''bg-[#E1EED9]''\<rparr>,
    \<lparr>type = hobby, label = ''Creative Hobby Block'', startTime = 645, duration = 15, color = ''bg-[#E1EED9]''\<rparr>] \<and>
   (480::int) \<le> 600 \<and> (600::int) < 660 \<and>
   restAt
   [\<lparr>type = break, label = ''Wellness Break'', startTime = 480, duration = 45, color = ''bg-[#A9C5D3]''\<rparr>,
    \<lparr>type = meeting, label = ''Standup'', startTime = 525, duration = 15, color = ''bg-[#FADCD5]''\<rparr>,
    \<lparr>type = break, label = ''Wellness Break'', startTime = 540, duration = 45, color = ''bg-[#D9CCE8]''\<rparr>,
    \<lparr>type = hobby, label = ''Creative Hobby Block'', startTime = 585, duration = 60, color = ''bg-[#E1EED9]''\<rparr>,
    \<lparr>type = hobby, label = ''Creative Hobby Block'', startTime = 645, duration = 15, color = ''bg-[#E1EED9]''\<rparr>]
     600 \<and>
   scheduleFrom 480 480 7 ''Morning''
     [\<lparr>summary = ''Standup'', startMins = 525, endMins = 540, durationMinutes = 15\<rparr>] = Inr [] \<and>
   list_all (\<lambda>e. 0 \<le> durationMinutes e)
     [\<lparr>summary = ''Standup'', startMins = 525, endMins = 540, durationMinutes = 15\<rparr>] \<and>
   schedule_p2 480 660 0 ''Morning'' \<lparr>shortBreakDuration = 15, hobbyBreakDuration = 45\<rparr>
     [\<lparr>summary = ''Standup'', startMins = 525, endMins = 540, durationMinutes = 15\<rparr>] =
   [mkItem lunch ''Fuel & Prep: Breakfast'' 480 30,
    mkItem meeting ''Standup'' 525 15,
    mkItem hobby ''Creative Hobby Break'' 540 45] \<and>
   list_all (\<lambda>b. type b \<noteq> focus)
     (schedule_p2 480 660 0 ''Morning'' \<lparr>shortBreakDuration = 15, hobbyBreakDuration = 45\<rparr>
        [\<lparr>summary = ''Standup'', startMins = 525, endMins = 540, durationMinutes = 15\<rparr>]) \<and>
   list_all (\<lambda>e. 480 \<le> startMins e \<and> startMins e + durationMinutes e \<le> 480)
     [\<lparr>summary = ''Ping'', startMins = 480, endMins = 480, durationMinutes = 0\<rparr>] \<and>
   schedule_p2 480 480 7 ''Morning'' \<lparr>shortBreakDuration = 15, hobbyBreakDuration = 45\<rparr>
     [\<lparr>summary = ''Ping'', startMins = 480, endMins = 480, durationMinutes = 0\<rparr>] = []"
  using degenerate_inputs [of "''Morning''" 480 660
      "[\<lparr>summary = ''Standup'', startMins = 525, endMins = 540, durationMinutes = 15\<rparr>]" 600 7
      "[\<lparr>summary = ''Standup'', startMins = 525, endMins = 540, durationMinutes = 15\<rparr>]"
      480 660 "\<lparr>shortBreakDuration = 15, hobbyBreakDuration = 45\<rparr>"
      "[\<lparr>summary = ''Ping'', startMins = 480, endMins = 480, durationMinutes = 0\<rparr>]"]
    example_no_goal example_p2_no_goal
  by (simp add: objectPrototypeKeys_def restAt_def isExertion_def mkItem_def)

text \<open>
  The claim as stated fails for \<^verbatim>\<open>part_002\<close>, which leaves time without an event
  unfilled. On the day from 10:00 to 14:00 without events and with a goal of 0 its
  schedule is empty: the only block offered is a break, \<^verbatim>\<open>addItem\<close> drops a break that
  would start the day, and the cursor moves to the end of the gap. On the day from 08:00
  to 11:00 with an event from 08:45 to 09:00 the schedule holds breakfast until 08:30, the
  event and a hobby block until 09:45; 10:00 lies in no block and in no event.
\<close>

theorem unfilled_day_counterexample:
  "validInput 600 840 [] \<and>
   schedule_p2 600 840 0 ''Morning'' \<lparr>shortBreakDuration = 15, hobbyBreakDuration = 45\<rparr> [] = [] \<and>
   (600::int) \<le> 700 \<and> (700::int) < 840 \<and>
   \<not> restAt (schedule_p2 600 840 0 ''Morning''
                \<lparr>shortBreakDuration = 15, hobbyBreakDuration = 45\<rparr> []) 700 \<and>
   \<not> duringEvent [] 700 \<and>
   validInput 480 660
     [\<lparr>summary = ''Standup'', startMins = 525, endMins = 540, durationMinutes = 15\<rparr>] \<and>
   schedule_p2 480 660 0 ''Morning'' \<lparr>shortBreakDuration = 15, hobbyBreakDuration = 45\<rparr>
     [\<lparr>summary = ''Standup'', startMins = 525, endMins = 540, durationMinutes = 15\<rparr>] =
   [mkItem lunch ''Fuel & Prep: Breakfast'' 480 30,
    mkItem meeting ''Standup'' 525 15,
    mkItem hobby ''Creative Hobby Break'' 540 45] \<and>
   (480::int) \<le> 600 \<and> (600::int) < 660 \<and>
   \<not> restAt (schedule_p2 480 660 0 ''Morning''
                \<lparr>shortBreakDuration = 15, hobbyBreakDuration = 45\<rparr>
                [\<lparr>summary = ''Standup'', startMins = 525, endMins = 540, durationMinutes = 15\<rparr>]) 600 \<and>
   \<not> duringEvent
        [\<lparr>summary = ''Standup'', startMins = 525, endMins = 540, durationMinutes = 15\<rparr>] 600"
  using example_p2_unfilled_day example_p2_no_goal
  by (simp add: validInput_def nonOverlapping_def restAt_def duringEvent_def isExertion_def mkItem_def)

subsection \<open>Inputs outside the contract\<close>

text \<open>
  Claim C7, amended. The generator of \<^verbatim>\<open>DashboardView.tsx\<close> validates nothing.
  \<^verbatim>\<open>toMinutes\<close> returns a number for every hour and minute that \<^verbatim>\<open>parseInt\<close> reads:
  the hour, 12 added for PM unless it is 12, 0 for 12 AM, times 60 plus the minute, with no
  range check. A day whose end is not after its start gives the empty schedule, not an
  error.
\<close>

theorem no_input_validation:
  "(parseInt h = Some hh \<and> parseInt m = Some mm \<longrightarrow>
      toMinutes h m p =
        Some ((if p = ''PM'' \<and> hh \<noteq> 12 then hh + 12
               else if p = ''AM'' \<and> hh = 12 then 0 else hh) * 60 + mm)) \<and>
   (dayEndMins \<le> dayStartMins \<and> peakWindow \<notin> set objectPrototypeKeys \<longrightarrow>
      scheduleFrom dayStartMins dayEndMins focusGoal peakWindow evs = Inr [])"
  using toMinutes_total scheduleFrom_empty_day by blast

theorem no_input_validation_witness:
  "parseInt ''13'' = Some 13 \<and> parseInt ''75'' = Some 75 \<and>
   toMinutes ''13'' ''75'' ''PM'' = Some 1575 \<and>
   (1080::int) \<le> 1080 \<and> ''Morning'' \<notin> set objectPrototypeKeys \<and>
   scheduleFrom 1080 1080 7 ''Morning'' [] = Inr []"
  using no_input_validation [of "''13''" 13 "''75''" 75 "''PM''" 1080 1080 "''Morning''" 7 "[]"]
    parseInt_examples
  by (simp add: objectPrototypeKeys_def)

text \<open>
  The claim as stated fails: hour 0, hour 13 and minute 75 are converted, and a day from
  06:00 PM to 08:00 AM gives a result, the empty schedule.
\<close>

theorem contract_violations_counterexample:
  "toMinutes ''0'' ''00'' ''AM'' = Some 0 \<and>
   toMinutes ''13'' ''00'' ''PM'' = Some 1500 \<and>
   toMinutes ''08'' ''75'' ''AM'' = Some 555 \<and>
   toMinutes ''06'' ''00'' ''PM'' = Some 1080 \<and>
   toMinutes ''08'' ''00'' ''AM'' = Some 480 \<and>
   schedule \<lparr>hour = ''06'', minute = ''00'', period = ''PM''\<rparr>
            \<lparr>hour = ''08'', minute = ''00'', period = ''AM''\<rparr> 7 ''Morning'' [] = Inr []"
proof -
  have t: "toMinutes ''0'' ''00'' ''AM'' = Some 0" "toMinutes ''13'' ''00'' ''PM'' = Some 1500"
    "toMinutes ''08'' ''75'' ''AM'' = Some 555" "toMinutes ''06'' ''00'' ''PM'' = Some 1080"
    "toMinutes ''08'' ''00'' ''AM'' = Some 480"
    by (simp_all add: toMinutes_def parseInt_examples)
  have "scheduleFrom 1080 480 7 ''Morning'' [] = Inr []"
    by (rule scheduleFrom_empty_day) (simp_all add: objectPrototypeKeys_def)
  then show ?thesis using t by (simp add: schedule_def)
qed

subsection \<open>The peak window\<close>

text \<open>
  Claim C8, amended. The four named windows have fixed ranges in each version. A window
  name that is none of the four, and no member inherited from \<^verbatim>\<open>Object.prototype\<close>,
  gets a default range: the Morning range in \<^verbatim>\<open>DashboardView.tsx\<close> and in
  \<^verbatim>\<open>part_002\<close>, the Afternoon range in \<^verbatim>\<open>part_001\<close>.
\<close>

theorem peak_window_resolver:
  "peakRange ''Morning'' = Inr (480, 720) \<and> peakRange ''Afternoon'' = Inr (720, 1020) \<and>
   peakRange ''Evening'' = Inr (1020, 1260) \<and> peakRange ''Late Night'' = Inr (1260, 1440) \<and>
   peakRange_p1 ''Morning'' = Inr (480, 720) \<and> peakRange_p1 ''Afternoon'' = Inr (840, 1020) \<and>
   peakRange_p1 ''Evening'' = Inr (1080, 1260) \<and> peakRange_p1 ''Late Night'' = Inr (1260, 1440) \<and>
   currentPeak ''Morning'' = Some (420, 720) \<and> currentPeak ''Afternoon'' = Some (720, 1020) \<and>
   currentPeak ''Evening'' = Some (1020, 1260) \<and> currentPeak ''Late Night'' = Some (1260, 1380) \<and>
   (peakWindow \<notin> set windows \<and> peakWindow \<notin> set objectPrototypeKeys \<longrightarrow>
      peakRange peakWindow = peakRange ''Morning'' \<and>
      peakRange_p1 peakWindow = peakRange_p1 ''Afternoon'' \<and>
      currentPeak peakWindow = currentPeak ''Morning'')"
proof -
  have named:
    "peakRange ''Morning'' = Inr (480, 720)" "peakRange ''Afternoon'' = Inr (720, 1020)"
    "peakRange ''Evening'' = Inr (1020, 1260)" "peakRange ''Late Night'' = Inr (1260, 1440)"
    "peakRange_p1 ''Morning'' = Inr (480, 720)" "peakRange_p1 ''Afternoon'' = Inr (840, 1020)"
    "peakRange_p1 ''Evening'' = Inr (1080, 1260)" "peakRange_p1 ''Late Night'' = Inr (1260, 1440)"
    "currentPeak ''Morning'' = Some (420, 720)" "currentPeak ''Afternoon'' = Some (720, 1020)"
    "currentPeak ''Evening'' = Some (1020, 1260)" "currentPeak ''Late Night'' = Some (1260, 1380)"
    by (simp_all add: peakRange_def peakRange_p1_def currentPeak_def getProperty_def
          peakRanges_def peakRanges_p1_def peakRanges_p2_def)
  have other: "peakRange peakWindow = Inr (480, 720) \<and> peakRange_p1 peakWindow = Inr (840, 1020)
       \<and> currentPeak peakWindow = Some (420, 720)"
    if "peakWindow \<notin> set windows" "peakWindow \<notin> set objectPrototypeKeys"
  proof -
    have "getProperty peakRanges peakWindow = Undefined"
      "getProperty peakRanges_p1 peakWindow = Undefined"
      "getProperty peakRanges_p2 peakWindow = Undefined"
      using that
      by (simp_all add: getProperty_Undefined windows_def peakRanges_def peakRanges_p1_def
            peakRanges_p2_def)
    then show ?thesis by (simp add: peakRange_def peakRange_p1_def currentPeak_def)
  qed
  show ?thesis using named other by simp
qed

theorem peak_window_resolver_witness:
  "''Noon'' \<notin> set windows \<and> ''Noon'' \<notin> set objectPrototypeKeys \<and>
   peakRange ''Noon'' = Inr (480, 720) \<and> peakRange_p1 ''Noon'' = Inr (840, 1020) \<and>
   currentPeak ''Noon'' = Some (420, 720)"
  using peak_window_resolver [of "''Noon''"]
  by (simp add: windows_def objectPrototypeKeys_def)

text \<open>
  The claim as stated fails: \<^verbatim>\<open>part_001\<close> resolves an unknown name to \<^verbatim>\<open>[840, 1020]\<close>,
  its Afternoon range, not to its Morning range.
\<close>

theorem peak_window_default_counterexample:
  "''Noon'' \<notin> set windows \<and>
   peakRange_p1 ''Noon'' = Inr (840, 1020) \<and> peakRange_p1 ''Morning'' = Inr (480, 720) \<and>
   peakRange_p1 ''Noon'' \<noteq> peakRange_p1 ''Morning''"
  by (simp add: windows_def peakRange_p1_def getProperty_def peakRanges_p1_def
        objectPrototypeKeys_def)

subsection \<open>The goal tracker\<close>

text \<open>
  Claim C9. In \<^verbatim>\<open>part_001\<close> the scheduled focus minutes are the sum of the durations of
  the focus and meeting blocks. In the daily view the day is on target, and no adjustment
  is offered, exactly when these minutes differ from \<^verbatim>\<open>focusGoal * 60\<close> by less than 15.
  An \<^verbatim>\<open>add\<close> adjustment raises the effective goal of the active day by a whole number of
  hours, at least 1, and leaves the effective goal of every other day unchanged.
\<close>

theorem goal_tracker:
  "fst (calcForSchedule sched) =
     sum_list (map duration (filter (\<lambda>b. type b = focus \<or> type b = meeting) sched)) \<and>
   (goalDiff daily (fst (stats daily sched week)) focusGoal = Some match
      \<longleftrightarrow> \<bar>fst (calcForSchedule sched) - focusGoal * 60\<bar> < 15) \<and>
   (adjustmentOffered daily (goalDiff daily (fst (stats daily sched week)) focusGoal)
      \<longleftrightarrow> \<not> \<bar>fst (calcForSchedule sched) - focusGoal * 60\<bar> < 15) \<and>
   effectiveFocusGoal focusGoal
       (handleAdjustGoal add focusMins focusGoal day manualAdjustment) day None
     \<ge> effectiveFocusGoal focusGoal manualAdjustment day None + 1 \<and>
   (other \<noteq> day \<longrightarrow>
      effectiveFocusGoal focusGoal
        (handleAdjustGoal add focusMins focusGoal day manualAdjustment) other None
      = effectiveFocusGoal focusGoal manualAdjustment other None)"
proof -
  obtain adjustment where a: "1 \<le> adjustment"
    "handleAdjustGoal add focusMins focusGoal day manualAdjustment =
       manualAdjustment(day \<mapsto> currentAdj manualAdjustment day + adjustment)"
    using handleAdjustGoal_add by blast
  have "goalDiff daily (fst (stats daily sched week)) focusGoal = Some match
      \<longleftrightarrow> \<bar>fst (calcForSchedule sched) - focusGoal * 60\<bar> < 15"
    by (simp add: goalDiff_def stats_def Let_def)
  moreover have "adjustmentOffered daily (goalDiff daily (fst (stats daily sched week)) focusGoal)
      \<longleftrightarrow> \<not> \<bar>fst (calcForSchedule sched) - focusGoal * 60\<bar> < 15"
    by (simp add: adjustmentOffered_def goalDiff_def stats_def Let_def)
  ultimately show ?thesis
    using a by (simp add: calcForSchedule_eq effectiveFocusGoal_def currentAdj_def)
qed

theorem goal_tracker_witness:
  "''20260106'' \<noteq> ''20260105'' \<and>
   fst (calcForSchedule [mkItem focus ''Focus Sprint'' 600 30, mkItem meeting ''Standup'' 630 30,
                         mkItem break ''Mental Pivot'' 660 15]) = 60 \<and>
   goalDiff daily 60 1 = Some match \<and>
   \<not> adjustmentOffered daily (goalDiff daily 60 1) \<and>
   effectiveFocusGoal 1 (handleAdjustGoal add 0 1 ''20260105'' Map.empty) ''20260105'' None = 3 \<and>
   effectiveFocusGoal 1 (handleAdjustGoal add 0 1 ''20260105'' Map.empty) ''20260106'' None = 1"
  using goal_tracker [where sched = "[mkItem focus ''Focus Sprint'' 600 30,
        mkItem meeting ''Standup'' 630 30, mkItem break ''Mental Pivot'' 660 15]"
      and week = "[]" and focusGoal = 1 and focusMins = 0 and day = "''20260105''"
      and manualAdjustment = Map.empty and other = "''20260106''"]
  by (simp add: calcForSchedule_eq stats_def mkItem_def goalDiff_def adjustmentOffered_def
        handleAdjustGoal_def effectiveFocusGoal_def currentAdj_def Let_def ceiling_three_halves)

subsection \<open>Durations\<close>



end
